(* ===== verification/Prelude.thy ===== *)
theory Prelude
  imports Main "HOL-Library.Word" "HOL-Library.State_Monad"
begin

text \<open>
  Shared vocabulary of the development: bytes, C strings and byte arrays with the
  accesses that leave the array made visible, the errno values the drivers return, and
  the two user-access primitives of the kernel as parameters with their documented
  behaviour as the named hypothesis \<open>uapi_ok\<close>.

  A result of type \<open>'a option\<close> is \<open>None\<close> exactly where the C code touches memory outside
  the object it works on (undefined behaviour in C); every error the code itself handles
  is an ordinary value, the negative errno it returns.
\<close>

section \<open>Bytes, errno, collections\<close>

type_synonym byte = "8 word"

abbreviation EPERM :: int where "EPERM \<equiv> 1"
abbreviation ENOENT :: int where "ENOENT \<equiv> 2"
abbreviation EIO :: int where "EIO \<equiv> 5"
abbreviation ENXIO :: int where "ENXIO \<equiv> 6"
abbreviation EBADF :: int where "EBADF \<equiv> 9"
abbreviation EAGAIN :: int where "EAGAIN \<equiv> 11"
abbreviation ENOMEM :: int where "ENOMEM \<equiv> 12"
abbreviation EFAULT :: int where "EFAULT \<equiv> 14"
abbreviation EBUSY :: int where "EBUSY \<equiv> 16"
abbreviation EEXIST :: int where "EEXIST \<equiv> 17"
abbreviation ENODEV :: int where "ENODEV \<equiv> 19"
abbreviation EINVAL :: int where "EINVAL \<equiv> 22"
abbreviation ENOTTY :: int where "ENOTTY \<equiv> 25"
abbreviation ENOSPC :: int where "ENOSPC \<equiv> 28"
abbreviation ETIMEDOUT :: int where "ETIMEDOUT \<equiv> 110"
abbreviation ERESTARTSYS :: int where "ERESTARTSYS \<equiv> 512"

named_theorems carray \<open>facts on C arrays and strings\<close>
named_theorems usercopy \<open>consequences of the user-access hypothesis\<close>
named_theorems krun \<open>symbolic execution of driver programs over the kernel-call log\<close>

section \<open>C strings and byte arrays\<close>

text \<open>\<open>strlen\<close> walks to the first NUL; a buffer without one makes it leave the array.\<close>

definition c_strlen :: "byte list \<Rightarrow> nat option" where
  "c_strlen buf =
     (if 0 \<in> set buf then Some (length (takeWhile (\<lambda>b. b \<noteq> 0) buf)) else None)"

text \<open>The string a buffer holds, as \<open>printk("%s")\<close> or \<open>strcpy\<close> would read it.\<close>

definition c_string :: "byte list \<Rightarrow> byte list option" where
  "c_string buf =
     (if 0 \<in> set buf then Some (takeWhile (\<lambda>b. b \<noteq> 0) buf) else None)"

text \<open>The \<open>n\<close> bytes at \<open>buf + off\<close>; the pointer and the last byte must be in the array.\<close>

definition c_slice :: "byte list \<Rightarrow> int \<Rightarrow> nat \<Rightarrow> byte list option" where
  "c_slice buf off n =
     (if 0 \<le> off \<and> nat off + n \<le> length buf then Some (take n (drop (nat off) buf)) else None)"

text \<open>Storing the bytes \<open>src\<close> at index \<open>off\<close> of an array.\<close>

definition c_store :: "byte list \<Rightarrow> nat \<Rightarrow> byte list \<Rightarrow> byte list option" where
  "c_store buf off src =
     (if off + length src \<le> length buf
      then Some (take off buf @ src @ drop (off + length src) buf) else None)"

lemma c_strlen_c_string: "c_strlen buf = map_option length (c_string buf)"
  by (simp add: c_strlen_def c_string_def)

lemma c_string_Some_iff [carray]:
  "c_string buf = Some s \<longleftrightarrow> 0 \<in> set buf \<and> s = takeWhile (\<lambda>b. b \<noteq> 0) buf"
  by (auto simp: c_string_def)

lemma c_slice_in [carray]:
  "0 \<le> off \<Longrightarrow> nat off + n \<le> length buf \<Longrightarrow> c_slice buf off n = Some (take n (drop (nat off) buf))"
  by (simp add: c_slice_def)

lemma c_slice_length: "c_slice buf off n = Some bs \<Longrightarrow> length bs = n"
  by (auto simp: c_slice_def split: if_splits)

lemma c_store_in [carray]:
  "off + length src \<le> length buf \<Longrightarrow>
   c_store buf off src = Some (take off buf @ src @ drop (off + length src) buf)"
  by (simp add: c_store_def)

lemma c_store_length: "c_store buf off src = Some buf' \<Longrightarrow> length buf' = length buf"
  by (auto simp: c_store_def split: if_splits)

lemma takeWhile_nz_length: "0 \<in> set buf \<Longrightarrow> length (takeWhile (\<lambda>b. b \<noteq> (0::byte)) buf) < length buf"
  by (induction buf) auto

lemma take_takeWhile_drop [carray]:
  "n \<le> length (takeWhile P xs) - off \<Longrightarrow>
   take n (drop off xs) = take n (drop off (takeWhile P xs))"
proof -
  assume n: "n \<le> length (takeWhile P xs) - off"
  have "xs = takeWhile P xs @ dropWhile P xs" by simp
  then have "take n (drop off xs) = take n (drop off (takeWhile P xs @ dropWhile P xs))" by simp
  also have "\<dots> = take n (drop off (takeWhile P xs))"
    using n by (simp del: takeWhile_dropWhile_id)
  finally show ?thesis .
qed

lemma takeWhile_nz_append_zero [carray]:
  "takeWhile (\<lambda>b. b \<noteq> 0) (bs @ (0::byte) # rest) = takeWhile (\<lambda>b. b \<noteq> 0) bs"
  by (induction bs) auto

text \<open>A 32-bit integer in memory, little endian as on the ARM64 target.\<close>

definition le32 :: "32 word \<Rightarrow> byte list" where
  "le32 w = [ucast w, ucast (drop_bit 8 w), ucast (drop_bit 16 w), ucast (drop_bit 24 w)]"

definition of_le32 :: "byte list \<Rightarrow> 32 word" where
  "of_le32 bs = (if length bs = 4
     then or (ucast (bs ! 0)) (or (push_bit 8 (ucast (bs ! 1)))
            (or (push_bit 16 (ucast (bs ! 2))) (push_bit 24 (ucast (bs ! 3))))) else 0)"

lemma le32_length [simp]: "length (le32 w) = 4"
  by (simp add: le32_def)

lemma of_le32_le32 [carray]: "of_le32 (le32 w) = w"
proof (rule bit_word_eqI)
  fix n
  assume "n < LENGTH(32)"
  then have "n < 8 \<or> (8 \<le> n \<and> n < 16) \<or> (16 \<le> n \<and> n < 24) \<or> (24 \<le> n \<and> n < 32)" by auto
  then show "bit (of_le32 (le32 w)) n = bit w n"
    by (elim disjE) (auto simp: of_le32_def le32_def bit_simps)
qed

text \<open>The bytes of a string literal, without its NUL.\<close>

definition bytes_of :: "string \<Rightarrow> byte list" where
  "bytes_of s = map of_char s"

section \<open>User access\<close>

text \<open>
  \<open>copy_from_user(dst, u, n)\<close> yields the number of bytes it could not copy and the \<open>n\<close>
  bytes then found in the destination; \<open>copy_to_user(u, data, n)\<close> yields the number it
  could not copy and the bytes that reached the user. Both are kernel code outside the
  repository: fields of a record the driver operations take as an argument.
\<close>

record uapi =
  copy_from_user :: "byte list \<Rightarrow> nat \<Rightarrow> nat \<times> byte list"
  copy_to_user :: "byte list \<Rightarrow> nat \<times> byte list"

text \<open>
  Documented behaviour: the count is at most \<open>n\<close>, the destination range is written in
  full (the kernel pads the tail it could not read), a count of 0 means all was copied.
\<close>

definition uapi_ok :: "uapi \<Rightarrow> bool" where
  "uapi_ok K \<longleftrightarrow>
     (\<forall>u n. fst (copy_from_user K u n) \<le> n \<and> length (snd (copy_from_user K u n)) = n \<and>
        (fst (copy_from_user K u n) = 0 \<longrightarrow> snd (copy_from_user K u n) = take n u)) \<and>
     (\<forall>d. fst (copy_to_user K d) \<le> length d \<and>
        (fst (copy_to_user K d) = 0 \<longrightarrow> snd (copy_to_user K d) = d))"

text \<open>A user mapping with no faults for reads of the device.\<close>

definition uapi_nofault :: "uapi \<Rightarrow> bool" where
  "uapi_nofault K \<longleftrightarrow> uapi_ok K \<and> (\<forall>d. fst (copy_to_user K d) = 0)"

text \<open>
  A concrete kernel that meets the hypothesis: user memory is the list given, reading
  past it faults with the tail padded by zeros.
\<close>

definition uapi_plain :: uapi where
  "uapi_plain =
     \<lparr>copy_from_user = (\<lambda>u n. if n \<le> length u then (0, take n u)
                             else (n - length u, u @ replicate (n - length u) 0)),
      copy_to_user = (\<lambda>d. (0, d))\<rparr>"

lemma uapi_plain_ok: "uapi_ok uapi_plain"
  by (auto simp: uapi_ok_def uapi_plain_def)

lemma uapi_plain_nofault: "uapi_nofault uapi_plain"
  by (simp add: uapi_nofault_def uapi_plain_ok) (simp add: uapi_plain_def)

lemma uapi_nofault_ok: "uapi_nofault K \<Longrightarrow> uapi_ok K"
  by (simp add: uapi_nofault_def)

lemma cfu_length [usercopy]: "uapi_ok K \<Longrightarrow> length (snd (copy_from_user K u n)) = n"
  by (simp add: uapi_ok_def)

lemma cfu_data [usercopy]:
  "uapi_ok K \<Longrightarrow> fst (copy_from_user K u n) = 0 \<Longrightarrow> snd (copy_from_user K u n) = take n u"
  by (simp add: uapi_ok_def)

lemma cfu_readable: "uapi_ok K \<Longrightarrow> fst (copy_from_user K u n) = 0 \<Longrightarrow> n \<le> length u"
  using cfu_length[of K u n] cfu_data[of K u n] by (simp add: min_def split: if_splits)

lemma ctu_data [usercopy]:
  "uapi_ok K \<Longrightarrow> fst (copy_to_user K d) = 0 \<Longrightarrow> snd (copy_to_user K d) = d"
  by (simp add: uapi_ok_def)

lemma ctu_nil: "uapi_ok K \<Longrightarrow> copy_to_user K [] = (0, [])"
  unfolding uapi_ok_def by (metis le_zero_eq list.size(3) prod.collapse)

lemma nofault_ctu [usercopy]: "uapi_nofault K \<Longrightarrow> copy_to_user K d = (0, d)"
  unfolding uapi_nofault_def uapi_ok_def by (metis prod.collapse)

section \<open>Invariants of step relations\<close>

lemma invariant_reach:
  assumes "r\<^sup>*\<^sup>* s0 s" and "I s0" and "\<And>x y. r x y \<Longrightarrow> I x \<Longrightarrow> I y"
  shows "I s"
  using assms(1,2) by (induction rule: rtranclp_induct) (auto intro: assms(3))

end
