(* ===== verification/CStdio.thy ===== *)
theory CStdio
  imports Prelude
begin

text \<open>
  The formatted input and output the drivers use, on strings without their NUL: \<open>%d\<close> and
  \<open>%Ns\<close> of \<open>sscanf\<close>, \<open>%d\<close> and \<open>%s\<close> of \<open>sprintf\<close> and \<open>scnprintf\<close>, as the C standard describes
  them; a number that does not fit wraps to the width of its variable. The main fact is the
  round trip: scanning what was printed gives the value back.
\<close>

definition is_space :: "byte \<Rightarrow> bool" where
  "is_space b \<longleftrightarrow> b = 32 \<or> (9 \<le> b \<and> b \<le> 13)"

definition is_digit :: "byte \<Rightarrow> bool" where
  "is_digit b \<longleftrightarrow> 48 \<le> b \<and> b \<le> 57"

section \<open>Printing numbers\<close>

fun dec_digits :: "nat \<Rightarrow> byte list" where
  "dec_digits n = (if n < 10 then [of_nat (48 + n)] else dec_digits (n div 10) @ [of_nat (48 + n mod 10)])"

declare dec_digits.simps [simp del]

definition print_d :: "int \<Rightarrow> byte list" where
  "print_d i = (if i < 0 then 45 # dec_digits (nat (- i)) else dec_digits (nat i))"

section \<open>Scanning\<close>

definition digits_val :: "byte list \<Rightarrow> nat" where
  "digits_val ds = foldl (\<lambda>acc d. 10 * acc + (unat d - 48)) 0 ds"

text \<open>\<open>%d\<close>: the number and what follows it.\<close>

definition scan_d :: "byte list \<Rightarrow> (int \<times> byte list) option" where
  "scan_d s =
     (let s = dropWhile is_space s;
          neg = (s \<noteq> [] \<and> hd s = 45);
          s = (if s \<noteq> [] \<and> (hd s = 45 \<or> hd s = 43) then tl s else s);
          ds = takeWhile is_digit s
      in if ds = [] then None
         else Some (if neg then - int (digits_val ds) else int (digits_val ds), dropWhile is_digit s))"

text \<open>\<open>%Ns\<close>: at most \<open>n\<close> characters up to white space.\<close>

definition scan_s :: "nat \<Rightarrow> byte list \<Rightarrow> (byte list \<times> byte list) option" where
  "scan_s n s =
     (let s = dropWhile is_space s; w = take n (takeWhile (\<lambda>b. \<not> is_space b) s)
      in if s = [] then None else Some (w, drop (length w) s))"

text \<open>\<open>scnprintf(buf, room, text)\<close>: the characters stored, not counting the NUL.\<close>

definition scn_text :: "nat \<Rightarrow> byte list \<Rightarrow> byte list" where
  "scn_text room text = take (room - 1) text"

section \<open>Round trips\<close>

lemma digit_byte: "d < 10 \<Longrightarrow> unat (of_nat (48 + d) :: byte) = 48 + d"
  by (subst unat_of_nat) (simp add: take_bit_nat_eq_self)

lemma is_digit_byte: "d < 10 \<Longrightarrow> is_digit (of_nat (48 + d))"
  unfolding is_digit_def word_le_nat_alt using digit_byte[of d] by simp

lemma dec_digits_all: "b \<in> set (dec_digits n) \<Longrightarrow> is_digit b"
proof (induction n rule: dec_digits.induct)
  case (1 n)
  then show ?case
    using is_digit_byte[of n] is_digit_byte[of "n mod 10"]
    by (subst (asm) (2) dec_digits.simps) (auto split: if_splits)
qed

lemma dec_digits_ne: "dec_digits n \<noteq> []"
  by (subst dec_digits.simps) simp

lemma digits_val_snoc: "digits_val (ds @ [d]) = 10 * digits_val ds + (unat d - 48)"
  by (simp add: digits_val_def)

lemma digits_val_dec: "digits_val (dec_digits n) = n"
proof (induction n rule: dec_digits.induct)
  case (1 n)
  show ?case
  proof (cases "n < 10")
    case True
    have "digits_val [of_nat (48 + n)] = n" using digit_byte[OF True] by (simp add: digits_val_def)
    with True show ?thesis by (subst dec_digits.simps) simp
  next
    case False
    have "unat (of_nat (48 + n mod 10) :: byte) = 48 + n mod 10" by (rule digit_byte) simp
    with False 1 show ?thesis by (subst dec_digits.simps) (simp add: digits_val_snoc)
  qed
qed

lemma digit_not_space: "is_digit b \<Longrightarrow> \<not> is_space b \<and> b \<noteq> 45 \<and> b \<noteq> 43 \<and> b \<noteq> 0"
  by (auto simp: is_digit_def is_space_def word_le_nat_alt)

lemma hd_dec_digits: "is_digit (hd (dec_digits n))"
  using dec_digits_all[of "hd (dec_digits n)" n] dec_digits_ne by simp

text \<open>What follows the number must not continue it.\<close>

lemma scan_print_d:
  assumes "rest = [] \<or> \<not> is_digit (hd rest)"
  shows "scan_d (print_d i @ rest) = Some (i, rest)"
proof -
  have tw: "takeWhile is_digit (dec_digits n @ rest) = dec_digits n"
    and dw: "dropWhile is_digit (dec_digits n @ rest) = rest" for n
    using assms dec_digits_all[of _ n]
    by (cases rest; simp add: takeWhile_append2 dropWhile_append2)+
  have sp: "dropWhile is_space (dec_digits n @ rest) = dec_digits n @ rest" for n
    using digit_not_space[OF hd_dec_digits[of n]] dec_digits_ne[of n]
    by (cases "dec_digits n") auto
  have h: "hd (dec_digits n) \<noteq> 45" "hd (dec_digits n) \<noteq> 43" for n
    using digit_not_space[OF hd_dec_digits[of n]] by blast+
  have m: "\<not> is_space 45" by (simp add: is_space_def)
  show ?thesis
  proof (cases "i < 0")
    case True
    then show ?thesis
      by (simp add: print_d_def scan_d_def Let_def m tw dw dec_digits_ne digits_val_dec)
  next
    case False
    then show ?thesis
      by (simp add: print_d_def scan_d_def Let_def sp h tw dw dec_digits_ne digits_val_dec)
  qed
qed

lemma print_d_nonzero: "0 \<notin> set (print_d i)"
  using digit_not_space[OF dec_digits_all, of 0] by (auto simp: print_d_def)

lemma scan_s_word:
  assumes "w \<noteq> []" and "\<forall>b \<in> set w. \<not> is_space b" and "rest = [] \<or> is_space (hd rest)"
  shows "scan_s n (w @ rest) = Some (take n w, drop n w @ rest)"
proof -
  have "dropWhile is_space (w @ rest) = w @ rest" using assms(1,2) by (cases w) auto
  moreover have "takeWhile (\<lambda>b. \<not> is_space b) (w @ rest) = w"
    using assms(2,3) by (cases rest) (simp_all add: takeWhile_append2)
  ultimately show ?thesis using assms(1) by (simp add: scan_s_def Let_def min_def)
qed

lemma scan_s_space: "scan_s n (32 # s) = scan_s n s"
  by (simp add: scan_s_def is_space_def)

lemma scan_s_length: "scan_s n s = Some (w, r) \<Longrightarrow> length w \<le> n \<and> set w \<subseteq> set s"
  by (auto simp: scan_s_def Let_def split: if_splits dest!: in_set_takeD set_takeWhileD
      intro: set_dropWhileD)

lemma takeWhile_nz_zeros: "0 \<notin> set w \<Longrightarrow> takeWhile (\<lambda>b. b \<noteq> 0) (w @ replicate n (0::byte)) = w"
  by (induction w) (simp_all add: takeWhile_replicate)

lemma scan_d_set: "scan_d s = Some (i, rest) \<Longrightarrow> set rest \<subseteq> set s"
  by (auto simp: scan_d_def Let_def split: if_splits
      dest!: set_dropWhileD[THEN list.set_sel(2)[rotated]] dest: set_dropWhileD)

lemma dec_digits_length: "n < 10 ^ k \<Longrightarrow> 0 < k \<Longrightarrow> length (dec_digits n) \<le> k"
proof (induction n arbitrary: k rule: dec_digits.induct)
  case (1 n)
  show ?case
  proof (cases "n < 10")
    case False
    with "1.prems" have "k \<noteq> 1" by auto
    with "1.prems" obtain k' where k: "k = Suc k'" "0 < k'" by (cases k) auto
    with "1.prems" have "n div 10 < 10 ^ k'" by (simp add: less_mult_imp_div_less)
    with False 1 k show ?thesis by (subst dec_digits.simps) auto
  qed (use "1.prems" in \<open>subst dec_digits.simps, simp\<close>)
qed

lemma print_d_length: "length (print_d (sint (i :: 32 word))) \<le> 11"
proof -
  have "- (2 ^ 31) \<le> sint i" "sint i < 2 ^ 31" using sint_range_size[of i] by (auto simp: word_size)
  then have "nat (- sint i) < 10 ^ 10" "nat (sint i) < 10 ^ 10" by simp_all
  then have "length (dec_digits (nat (- sint i))) \<le> 10" "length (dec_digits (nat (sint i))) \<le> 10"
    by (auto intro: dec_digits_length simp del: One_nat_def)
  then show ?thesis by (simp add: print_d_def)
qed

lemma scan_d_skip: "is_space b \<Longrightarrow> scan_d (b # s) = scan_d s"
  by (simp add: scan_d_def)

lemma is_space_simps [simp]: "is_space 10" "is_space 32" "\<not> is_digit 10" "\<not> is_digit 32"
  by (simp_all add: is_space_def is_digit_def)

lemma scan_s_skip: "is_space b \<Longrightarrow> scan_s n (b # s) = scan_s n s"
  by (simp add: scan_s_def)

lemma zeroed_string:
  assumes "length w < n" and "0 \<notin> set w"
  shows "\<exists>b. c_store (replicate n 0) 0 w = Some b \<and> c_string b = Some w"
proof (intro exI conjI)
  show "c_store (replicate n 0) 0 w = Some (w @ replicate (n - length w) 0)"
    using assms(1) by (simp add: c_store_def)
  show "c_string (w @ replicate (n - length w) 0) = Some w"
    using assms by (simp add: c_string_def takeWhile_nz_zeros)
qed

lemma takeWhile_nz_stop: "0 \<notin> set w \<Longrightarrow> takeWhile (\<lambda>b. b \<noteq> 0) (w @ (0::byte) # r) = w"
  by (induction w) simp_all

lemma full_buffer:
  "n \<le> length w \<Longrightarrow> 0 \<notin> set w \<Longrightarrow> c_store (replicate n 0) 0 w = Some b \<Longrightarrow> c_string b = None"
  by (auto simp: c_store_def c_string_def split: if_splits)

lemma store_text:
  assumes "length bs < length page" and "0 \<notin> set bs"
  obtains page' where "c_store page 0 (bs @ [0]) = Some page'" and "length page' = length page"
    and "c_string page' = Some bs"
proof
  show "c_store page 0 (bs @ [0]) = Some (bs @ 0 # drop (Suc (length bs)) page)"
    using assms(1) by (simp add: c_store_def)
  show "length (bs @ 0 # drop (Suc (length bs)) page) = length page" using assms(1) by simp
  show "c_string (bs @ 0 # drop (Suc (length bs)) page) = Some bs"
    using assms(2) by (simp add: c_string_def takeWhile_nz_stop)
qed

end
