(* ===== verification/FirstModules.thy ===== *)
theory FirstModules
  imports CStdio
begin

text \<open>
  \<open>1.hello\<close> and \<open>2.param\<close>: modules whose functions print. A function yields its value and the
  text it adds to the kernel log. The parameter \<open>number\<close> is an \<open>int\<close> the kernel sets before
  \<open>init\<close> when \<open>insmod\<close> names it.
\<close>

definition hello_init :: "int \<times> byte list" where
  "hello_init = (0, bytes_of ''Hello STM32 Kernel'' @ [10])"

definition hello_exit :: "byte list" where
  "hello_exit = bytes_of ''Goodbye STM32 Kernel'' @ [10]"

definition number :: "32 word option \<Rightarrow> 32 word" where
  "number arg = (case arg of None \<Rightarrow> 10 | Some v \<Rightarrow> v)"

definition param_init :: "32 word \<Rightarrow> int \<times> byte list" where
  "param_init num = (0, bytes_of ''number = '' @ print_d (sint num) @ [10])"

definition param_exit :: "byte list" where
  "param_exit = bytes_of ''param module exit'' @ [10]"

text \<open>Without an argument the module prints its default.\<close>

lemma param_log_default: "param_init (number None) = (0, bytes_of ''number = 10'' @ [10])"
  by code_simp

text \<open>The value can be read back from the log: the line after \<open>number = \<close> scans as it.\<close>

lemma param_log_scans:
  "\<exists>line. param_init (number arg) = (0, bytes_of ''number = '' @ line) \<and>
     scan_d line = Some (sint (number arg), [10])"
  by (intro exI[of _ "print_d (sint (number arg)) @ [10]"]) (simp add: param_init_def scan_print_d)

end
