(* ===== verification/Kapi.thy ===== *)
theory Kapi
  imports Prelude
begin

text \<open>
  The interface between the drivers and the kernel. A driver entry point is a program
  that issues kernel calls; the kernel is not part of the repository, so what each call
  returns is decided by a parameter \<open>env\<close>. A program runs in the state monad over
  the log of the calls made so far with their results.

  Over a log, \<open>replay\<close> is the abstract specification every module has to meet: it keeps
  the set of kernel resources held and is \<open>None\<close> as soon as a call uses an object that is
  not there, releases one that is not held, or releases one that another held object still
  needs. The locale \<open>module_lifecycle\<close> is the contract of an init/exit (or probe/remove)
  pair over it.
\<close>

section \<open>Kernel calls and programs\<close>

text \<open>The calls, grouped by the kernel subsystem that provides them.\<close>

datatype chr_op =
    Alloc_chrdev_region nat nat string | Unregister_chrdev_region nat
  | Register_chrdev nat string | Unregister_chrdev int string
  | Cdev_init nat | Cdev_add nat nat nat | Cdev_del nat

datatype dev_op =
    Class_create string | Class_destroy
  | Device_create nat string | Device_destroy nat
  | Device_create_file nat | Device_remove_file nat
  | Kobject_create_and_add string | Kobject_put
  | Sysfs_create_group | Sysfs_remove_group | Platform_set_drvdata

datatype mem_op =
    Devm_kzalloc string | Kmalloc string nat | Kfree string int
  | Get_zeroed_page | Free_page | Store_through int

datatype dma_op =
    Dma_alloc_coherent nat | Dma_free_coherent nat
  | Dma_request_chan | Dma_release_channel
  | Dma_map_single string nat | Dma_unmap_single string nat
  | Dma_prep_memcpy nat | Dma_submit | Dma_issue_pending
  | Wait_for_completion_timeout nat | Dma_terminate_sync | Dma_tx_status

datatype net_op =
    Netlink_kernel_create nat | Netlink_kernel_release
  | Nlmsg_new nat | Nlmsg_put nat | Nlmsg_unicast "32 word" string | Nlmsg_free
  | Genl_register_family | Genl_unregister_family
  | Genlmsg_new | Genlmsg_put | Nla_put_string string | Genlmsg_end | Genlmsg_multicast nat

datatype irq_op =
    Gpio_request nat | Gpio_free nat | Gpio_direction_input nat | Gpio_to_irq int
  | Of_get_named_gpio string | Gpio_is_valid int | Devm_gpio_request_one int
  | Request_irq int | Free_irq int | Devm_request_irq int | Devm_request_threaded_irq int

datatype task_op =
    Kthread_run string | Kthread_create string | Kthread_bind string nat
  | Wake_up_process string | Kthread_stop string | Deref_task string
  | Create_workqueue | Destroy_workqueue | Queue_work_on nat | Schedule_work
  | Flush_work | Cancel_work_sync
  | Schedule_delayed_work nat | Cancel_delayed_work_sync
  | Timer_setup | Mod_timer nat | Del_timer_sync

datatype kop =
  Chr chr_op | Dev dev_op | Mm mem_op | Dma dma_op | Net net_op | Irqc irq_op | Task task_op

type_synonym klog = "(kop \<times> int) list"
type_synonym kenv = "nat \<Rightarrow> kop \<Rightarrow> int"
type_synonym 'a kprog = "(klog, 'a) state"

text \<open>
  The \<open>i\<close>-th call returns what \<open>env i\<close> says: since \<open>env\<close> is arbitrary this covers every
  sequence of results. Pointers are coded as the kernel's own conventions do: NULL is 0,
  \<open>ERR_PTR(-e)\<close> is \<open>-e\<close>, an object is a positive number.
\<close>

definition kcall :: "kenv \<Rightarrow> kop \<Rightarrow> int kprog" where
  "kcall env c = State (\<lambda>h. (env (length h) c, h @ [(c, env (length h) c)]))"

abbreviation kret :: "'a \<Rightarrow> 'a kprog" where
  "kret \<equiv> State_Monad.return"

abbreviation IS_ERR :: "int \<Rightarrow> bool" where
  "IS_ERR p \<equiv> p < 0"

lemma run_kcall [krun]: "run_state (kcall env c) h = (env (length h) c, h @ [(c, env (length h) c)])"
  by (simp add: kcall_def)

lemma run_if [krun]:
  "run_state (if b then m else n) h = (if b then run_state m h else run_state n h)"
  by simp

text \<open>What an interrupt handler returns.\<close>

datatype irqreturn_t = IRQ_NONE | IRQ_HANDLED | IRQ_WAKE_THREAD

section \<open>Resources and call signatures\<close>

datatype res =
    Region | Chrdev | Cdev nat | Class | Device nat | Mem string | Page
  | DmaBuf | DmaChan | DmaMap string | Kobj | SysfsGroup | NlSock | Skb | GenlFamily
  | Gpio | Irq | Thread string | Workqueue | DelayedWork | Timer

text \<open>What must stay alive as long as an object exists.\<close>

definition needs :: "res \<Rightarrow> res list" where
  "needs a = (case a of
      Cdev k \<Rightarrow> [Region] | Device m \<Rightarrow> [Class] | DmaMap t \<Rightarrow> [Mem t]
    | SysfsGroup \<Rightarrow> [Kobj] | Irq \<Rightarrow> [Gpio] | _ \<Rightarrow> [])"

lemma needs_simps [simp]:
  "needs (Cdev k) = [Region]" "needs (Device m) = [Class]" "needs (DmaMap t) = [Mem t]"
  "needs SysfsGroup = [Kobj]" "needs Irq = [Gpio]" "needs Region = []" "needs Chrdev = []"
  "needs Class = []" "needs (Mem t) = []" "needs Page = []" "needs DmaBuf = []"
  "needs DmaChan = []" "needs Kobj = []" "needs NlSock = []" "needs Skb = []"
  "needs GenlFamily = []" "needs Gpio = []" "needs (Thread t) = []" "needs Workqueue = []"
  "needs DelayedWork = []" "needs Timer = []"
  by (simp_all add: needs_def)

text \<open>
  Documented return conventions: a status call returns 0 or a negative errno; a call that
  returns an object or an error pointer never returns NULL; an allocation returns NULL or
  an object; nothing is assumed of the others, and a call that always takes effect says so.
\<close>

datatype conv = Status | ErrPtr | NullPtr | Any | Always

text \<open>
  The documented effect of a call: it creates an object when it succeeds, gives one back
  (\<open>nlmsg_unicast\<close> and \<open>genlmsg_multicast\<close> consume the buffer), or needs objects alive.
  An armed timer or delayed work counts as held until it is cancelled, since its callback must
  not run when the module is gone. \<open>Bad\<close> is a call no kernel state makes legal: a store through NULL or an error pointer.
\<close>

datatype ksig = Acq conv res | Rel conv res | Use conv "res list" | Bad

fun chr_sig :: "chr_op \<Rightarrow> ksig" where
  "chr_sig (Alloc_chrdev_region _ _ _) = Acq Status Region"
| "chr_sig (Unregister_chrdev_region _) = Rel Any Region"
| "chr_sig (Register_chrdev _ _) = Acq Any Chrdev"
| "chr_sig (Unregister_chrdev _ _) = Rel Any Chrdev"
| "chr_sig (Cdev_init _) = Use Any []"
| "chr_sig (Cdev_add k _ _) = Acq Status (Cdev k)"
| "chr_sig (Cdev_del k) = Rel Any (Cdev k)"

fun dev_sig :: "dev_op \<Rightarrow> ksig" where
  "dev_sig (Class_create _) = Acq ErrPtr Class"
| "dev_sig Class_destroy = Rel Any Class"
| "dev_sig (Device_create m _) = Acq ErrPtr (Device m)"
| "dev_sig (Device_destroy m) = Rel Any (Device m)"
| "dev_sig (Device_create_file m) = Use Status [Device m]"
| "dev_sig (Device_remove_file m) = Use Any [Device m]"
| "dev_sig (Kobject_create_and_add _) = Acq NullPtr Kobj"
| "dev_sig Kobject_put = Rel Any Kobj"
| "dev_sig Sysfs_create_group = Acq Status SysfsGroup"
| "dev_sig Sysfs_remove_group = Rel Any SysfsGroup"
| "dev_sig Platform_set_drvdata = Use Any []"

fun mem_sig :: "mem_op \<Rightarrow> ksig" where
  "mem_sig (Devm_kzalloc _) = Use NullPtr []"
| "mem_sig (Kmalloc t _) = Acq NullPtr (Mem t)"
| "mem_sig (Kfree t p) = (if p = 0 then Use Any [] else Rel Any (Mem t))"
| "mem_sig Get_zeroed_page = Acq NullPtr Page"
| "mem_sig Free_page = Rel Any Page"
| "mem_sig (Store_through p) = (if 0 < p then Use Any [] else Bad)"

fun dma_sig :: "dma_op \<Rightarrow> ksig" where
  "dma_sig (Dma_alloc_coherent _) = Acq NullPtr DmaBuf"
| "dma_sig (Dma_free_coherent _) = Rel Any DmaBuf"
| "dma_sig Dma_request_chan = Acq ErrPtr DmaChan"
| "dma_sig Dma_release_channel = Rel Any DmaChan"
| "dma_sig (Dma_map_single t _) = Acq Status (DmaMap t)"
| "dma_sig (Dma_unmap_single t _) = Rel Any (DmaMap t)"
| "dma_sig (Dma_prep_memcpy _) = Use NullPtr [DmaChan, DmaMap ''src_buf'', DmaMap ''dst_buf'']"
| "dma_sig Dma_submit = Use Any [DmaChan]"
| "dma_sig Dma_issue_pending = Use Any [DmaChan]"
| "dma_sig (Wait_for_completion_timeout _) = Use NullPtr []"
| "dma_sig Dma_terminate_sync = Use Any [DmaChan]"
| "dma_sig Dma_tx_status = Use Any [DmaChan]"

fun net_sig :: "net_op \<Rightarrow> ksig" where
  "net_sig (Netlink_kernel_create _) = Acq NullPtr NlSock"
| "net_sig Netlink_kernel_release = Rel Any NlSock"
| "net_sig (Nlmsg_new _) = Acq NullPtr Skb"
| "net_sig (Nlmsg_put _) = Use NullPtr [Skb]"
| "net_sig (Nlmsg_unicast _ _) = Rel Status Skb"
| "net_sig Nlmsg_free = Rel Any Skb"
| "net_sig Genl_register_family = Acq Status GenlFamily"
| "net_sig Genl_unregister_family = Rel Any GenlFamily"
| "net_sig Genlmsg_new = Acq NullPtr Skb"
| "net_sig Genlmsg_put = Use NullPtr [Skb]"
| "net_sig (Nla_put_string _) = Use Status [Skb]"
| "net_sig Genlmsg_end = Use Any [Skb]"
| "net_sig (Genlmsg_multicast _) = Rel Status Skb"

fun irq_sig :: "irq_op \<Rightarrow> ksig" where
  "irq_sig (Gpio_request _) = Acq Status Gpio"
| "irq_sig (Gpio_free _) = Rel Any Gpio"
| "irq_sig (Gpio_direction_input _) = Use Status [Gpio]"
| "irq_sig (Gpio_to_irq _) = Use Any []"
| "irq_sig (Of_get_named_gpio _) = Use Any []"
| "irq_sig (Gpio_is_valid _) = Use Any []"
| "irq_sig (Devm_gpio_request_one _) = Use Status []"
| "irq_sig (Request_irq _) = Acq Status Irq"
| "irq_sig (Free_irq _) = Rel Any Irq"
| "irq_sig (Devm_request_irq _) = Use Status []"
| "irq_sig (Devm_request_threaded_irq _) = Use Status []"

fun task_sig :: "task_op \<Rightarrow> ksig" where
  "task_sig (Kthread_run t) = Acq ErrPtr (Thread t)"
| "task_sig (Kthread_create t) = Acq ErrPtr (Thread t)"
| "task_sig (Kthread_bind t _) = Use Any [Thread t]"
| "task_sig (Wake_up_process t) = Use Any [Thread t]"
| "task_sig (Kthread_stop t) = Rel Any (Thread t)"
| "task_sig (Deref_task t) = Use Any [Thread t]"
| "task_sig Create_workqueue = Acq NullPtr Workqueue"
| "task_sig Destroy_workqueue = Rel Any Workqueue"
| "task_sig (Queue_work_on _) = Use Any [Workqueue]"
| "task_sig Schedule_work = Use Any []"
| "task_sig Flush_work = Use Any []"
| "task_sig Cancel_work_sync = Use Any []"
| "task_sig (Schedule_delayed_work _) = Acq Always DelayedWork"
| "task_sig Cancel_delayed_work_sync = Rel Any DelayedWork"
| "task_sig Timer_setup = Use Any []"
| "task_sig (Mod_timer _) = Acq Always Timer"
| "task_sig Del_timer_sync = Rel Any Timer"

fun ksig_of :: "kop \<Rightarrow> ksig" where
  "ksig_of (Chr c) = chr_sig c"
| "ksig_of (Dev c) = dev_sig c"
| "ksig_of (Mm c) = mem_sig c"
| "ksig_of (Dma c) = dma_sig c"
| "ksig_of (Net c) = net_sig c"
| "ksig_of (Irqc c) = irq_sig c"
| "ksig_of (Task c) = task_sig c"

definition conv_of :: "kop \<Rightarrow> conv" where
  "conv_of c = (case ksig_of c of Acq v _ \<Rightarrow> v | Rel v _ \<Rightarrow> v | Use v _ \<Rightarrow> v | Bad \<Rightarrow> Any)"

fun conv_ok :: "conv \<Rightarrow> int \<Rightarrow> bool" where
  "conv_ok Status r \<longleftrightarrow> r \<le> 0"
| "conv_ok ErrPtr r \<longleftrightarrow> r \<noteq> 0"
| "conv_ok NullPtr r \<longleftrightarrow> 0 \<le> r"
| "conv_ok Any r \<longleftrightarrow> True"
| "conv_ok Always r \<longleftrightarrow> True"

text \<open>The results of a creating call that mean it succeeded.\<close>

fun conv_success :: "conv \<Rightarrow> int \<Rightarrow> bool" where
  "conv_success Status r \<longleftrightarrow> 0 \<le> r"
| "conv_success ErrPtr r \<longleftrightarrow> 0 < r"
| "conv_success NullPtr r \<longleftrightarrow> 0 < r"
| "conv_success Any r \<longleftrightarrow> 0 \<le> r"
| "conv_success Always r \<longleftrightarrow> True"

definition kenv_ok :: "kenv \<Rightarrow> bool" where
  "kenv_ok env \<longleftrightarrow> (\<forall>i c. conv_ok (conv_of c) (env i c))"

text \<open>Two concrete kernels: every call succeeds; and the call \<open>bad\<close> fails with \<open>e\<close>.\<close>

definition kenv_good :: kenv where
  "kenv_good i c = (case conv_of c of ErrPtr \<Rightarrow> 1 | NullPtr \<Rightarrow> 1 | _ \<Rightarrow> 0)"

definition kenv_fail :: "kop \<Rightarrow> int \<Rightarrow> kenv" where
  "kenv_fail bad e i c = (if c = bad then e else kenv_good i c)"

lemma kenv_good_ok: "kenv_ok kenv_good"
  by (simp add: kenv_ok_def kenv_good_def split: conv.splits)

lemma kenv_fail_ok: "conv_ok (conv_of bad) e \<Longrightarrow> kenv_ok (kenv_fail bad e)"
  using kenv_good_ok by (simp add: kenv_ok_def kenv_fail_def)

lemma kenv_okD: "kenv_ok env \<Longrightarrow> conv_ok (conv_of c) (env i c)"
  by (simp add: kenv_ok_def)

text \<open>The conventions as rewrite rules for the guards of the drivers.\<close>

lemma kenv_status:
  assumes "kenv_ok env" and "conv_of c = Status"
  shows "(env i c < 0) = (env i c \<noteq> 0)" and "(0 \<le> env i c) = (env i c = 0)"
    and "\<not> 0 < env i c" and "env i c \<le> 0"
  using kenv_okD[OF assms(1), of c i] assms(2) by auto

lemma kenv_errptr:
  assumes "kenv_ok env" and "conv_of c = ErrPtr"
  shows "(0 < env i c) = (\<not> env i c < 0)" and "env i c \<noteq> 0"
  using kenv_okD[OF assms(1), of c i] assms(2) by auto

lemma kenv_nullptr:
  assumes "kenv_ok env" and "conv_of c = NullPtr"
  shows "(0 < env i c) = (env i c \<noteq> 0)" and "\<not> env i c < 0"
  using kenv_okD[OF assms(1), of c i] assms(2) by auto

lemmas kenv_rules = kenv_status kenv_errptr kenv_nullptr

declare conv_of_def [simp]

section \<open>Replaying a log\<close>

text \<open>One logged call, and a whole log, against the resources held, latest first.\<close>

definition step_res :: "res list \<Rightarrow> kop \<times> int \<Rightarrow> res list option" where
  "step_res H x = (case ksig_of (fst x) of
      Acq v a \<Rightarrow>
        if list_all (\<lambda>b. b \<in> set H) (needs a) \<and> a \<notin> set H
        then Some (if conv_success v (snd x) then a # H else H) else None
    | Rel v a \<Rightarrow>
        if a \<in> set H \<and> list_all (\<lambda>b. a \<notin> set (needs b)) H
        then Some (remove1 a H) else None
    | Use v bs \<Rightarrow> if list_all (\<lambda>b. b \<in> set H) bs then Some H else None
    | Bad \<Rightarrow> None)"

fun replay :: "res list \<Rightarrow> klog \<Rightarrow> res list option" where
  "replay H [] = Some H"
| "replay H (x # xs) = (case step_res H x of None \<Rightarrow> None | Some H' \<Rightarrow> replay H' xs)"

lemma replay_append:
  "replay H (xs @ ys) = (case replay H xs of None \<Rightarrow> None | Some H' \<Rightarrow> replay H' ys)"
  by (induction xs arbitrary: H) (auto split: option.splits)

declare run_kcall [simp] run_if [simp] replay_append [simp] step_res_def [simp]

section \<open>The contract of an init/exit pair\<close>

text \<open>
  \<open>load\<close> either returns 0 with exactly \<open>res_held\<close> held or a negative errno with nothing held,
  whatever the kernel answers; \<open>unload\<close> gives back what a successful \<open>load\<close> holds. Some
  drivers do not look at the result of every call: \<open>lifecycle_on\<close> is the contract they
  meet, under the condition that the calls in \<open>ignored\<close> succeed, and
  \<open>module_lifecycle\<close> is the case without such calls.
\<close>

definition unchecked_ok :: "kop list \<Rightarrow> kenv \<Rightarrow> bool" where
  "unchecked_ok U env \<longleftrightarrow> list_all (\<lambda>c. \<forall>i. conv_success (conv_of c) (env i c)) U"

lemma unchecked_ok_simps [simp]:
  "unchecked_ok [] env"
  "unchecked_ok (c # U) env \<longleftrightarrow> (\<forall>i. conv_success (conv_of c) (env i c)) \<and> unchecked_ok U env"
  by (simp_all add: unchecked_ok_def)

locale lifecycle_on =
  fixes load :: "kenv \<Rightarrow> int kprog"
    and unload :: "kenv \<Rightarrow> unit kprog"
    and res_held :: "res list"
    and ignored :: "kop list"
  assumes load_on: "kenv_ok env \<Longrightarrow> unchecked_ok ignored env \<Longrightarrow> replay [] h = Some [] \<Longrightarrow>
      run_state (load env) h = (r, h') \<Longrightarrow>
      (r = 0 \<and> replay [] h' = Some res_held) \<or> (r < 0 \<and> replay [] h' = Some [])"
    and unload_on: "replay [] h = Some res_held \<Longrightarrow> run_state (unload env) h = (u, h') \<Longrightarrow>
      replay [] h' = Some []"

locale module_lifecycle =
  fixes load :: "kenv \<Rightarrow> int kprog"
    and unload :: "kenv \<Rightarrow> unit kprog"
    and res_held :: "res list"
  assumes load_ok: "kenv_ok env \<Longrightarrow> replay [] h = Some [] \<Longrightarrow>
      run_state (load env) h = (r, h') \<Longrightarrow>
      (r = 0 \<and> replay [] h' = Some res_held) \<or> (r < 0 \<and> replay [] h' = Some [])"
    and unload_ok: "replay [] h = Some res_held \<Longrightarrow> run_state (unload env) h = (u, h') \<Longrightarrow>
      replay [] h' = Some []"

sublocale module_lifecycle \<subseteq> on: lifecycle_on load unload res_held "[]"
  by unfold_locales (use load_ok unload_ok in auto)

text \<open>\<open>insmod; rmmod\<close> repeated: a module whose load failed is not unloaded.\<close>

fun load_cycles :: "(kenv \<Rightarrow> int kprog) \<Rightarrow> (kenv \<Rightarrow> unit kprog) \<Rightarrow> kenv list \<Rightarrow> unit kprog" where
  "load_cycles load unload [] = kret ()"
| "load_cycles load unload (env # envs) = do {
     r \<leftarrow> load env;
     (if r = 0 then unload env else kret ());
     load_cycles load unload envs
   }"

context lifecycle_on
begin

lemma cycle_clean:
  assumes "kenv_ok env" and "unchecked_ok ignored env" and "replay [] h = Some []"
  shows "replay [] (snd (run_state (do { r \<leftarrow> load env; (if r = 0 then unload env else kret ()) }) h))
         = Some []"
proof -
  obtain r h1 where l: "run_state (load env) h = (r, h1)" by (rule prod.exhaust)
  from load_on[OF assms l] show ?thesis
  proof
    assume a: "r = 0 \<and> replay [] h1 = Some res_held"
    have "replay [] (snd (run_state (unload env) h1)) = Some []"
      using a unload_on[of h1 env _ "snd (run_state (unload env) h1)"] by (metis prod.collapse)
    with a l show ?thesis by simp
  next
    assume "r < 0 \<and> replay [] h1 = Some []"
    with l show ?thesis by auto
  qed
qed

lemma cycles_clean:
  "(\<And>env. env \<in> set envs \<Longrightarrow> kenv_ok env \<and> unchecked_ok ignored env) \<Longrightarrow> replay [] h = Some [] \<Longrightarrow>
   replay [] (snd (run_state (load_cycles load unload envs) h)) = Some []"
proof (induction envs arbitrary: h)
  case Nil
  then show ?case by simp
next
  case (Cons env envs)
  let ?one = "do { r \<leftarrow> load env; (if r = 0 then unload env else kret ()) }"
  obtain u h1 where one: "run_state ?one h = (u, h1)" by (rule prod.exhaust)
  have "replay [] h1 = Some []"
    using cycle_clean[of env h] Cons.prems one by (metis list.set_intros(1) snd_conv)
  then have "replay [] (snd (run_state (load_cycles load unload envs) h1)) = Some []"
    using Cons.IH Cons.prems(1) by simp
  moreover have "run_state (load_cycles load unload (env # envs)) h =
      run_state (load_cycles load unload envs) h1"
    using one by (auto split: prod.splits if_splits)
  ultimately show ?case by simp
qed

end

context module_lifecycle
begin

lemma cycles_clean:
  "(\<And>env. env \<in> set envs \<Longrightarrow> kenv_ok env) \<Longrightarrow> replay [] h = Some [] \<Longrightarrow>
   replay [] (snd (run_state (load_cycles load unload envs) h)) = Some []"
  by (rule on.cycles_clean) simp_all

end

end
