(* ===== verification/CharIface.thy ===== *)
theory CharIface
  imports Prelude
begin

text \<open>
  What the character drivers share: NUL-terminated device buffers, and the contracts a
  reader of a device file relies on. \<open>offset_reader\<close> is the contract of a \<open>read\<close> method
  that honours \<open>*off\<close>; from it follows that \<open>cat\<close>, a loop of reads of any positive size
  until end of file, delivers exactly what the device holds. \<open>text_device\<close> adds a \<open>write\<close>
  method that stores a bounded prefix of what the user passed.
\<close>

section \<open>NUL-terminated buffers\<close>

text \<open>An array of \<open>n\<close> bytes whose last one is never overwritten with anything but NUL.\<close>

definition nul_buf :: "nat \<Rightarrow> byte list \<Rightarrow> bool" where
  "nul_buf n kb \<longleftrightarrow> length kb = n \<and> 0 < n \<and> kb ! (n - 1) = 0"

definition text_of :: "byte list \<Rightarrow> byte list" where
  "text_of kb = takeWhile (\<lambda>b. b \<noteq> 0) kb"

lemma nul_buf_zero_in: "nul_buf n kb \<Longrightarrow> 0 \<in> set kb"
  unfolding nul_buf_def by (metis diff_less nth_mem zero_less_one)

lemma nul_buf_strlen [carray]: "nul_buf n kb \<Longrightarrow> c_strlen kb = Some (length (text_of kb))"
  using nul_buf_zero_in by (auto simp: c_strlen_def text_of_def)

lemma nul_buf_string [carray]: "nul_buf n kb \<Longrightarrow> c_string kb = Some (text_of kb)"
  using nul_buf_zero_in by (auto simp: c_string_def text_of_def)

lemma text_of_length: "nul_buf n kb \<Longrightarrow> length (text_of kb) < n"
  using nul_buf_zero_in takeWhile_nz_length by (auto simp: text_of_def nul_buf_def)

lemma nul_buf_replicate: "0 < n \<Longrightarrow> nul_buf n (replicate n 0)"
  by (simp add: nul_buf_def)

lemma nul_buf_store:
  assumes "nul_buf n kb" and "length bs < n"
  obtains kb' where "c_store kb 0 bs = Some kb'" and "nul_buf n kb'"
    and "take (length bs) kb' = bs"
proof
  have len: "length kb = n" using assms(1) by (simp add: nul_buf_def)
  show "c_store kb 0 bs = Some (bs @ drop (length bs) kb)"
    using assms(2) len by (simp add: c_store_def)
  have "\<not> n - 1 < length bs" using assms(2) by simp
  then have "(bs @ drop (length bs) kb) ! (n - 1) = kb ! (n - 1)"
    using assms(2) len by (simp add: nth_append)
  with assms show "nul_buf n (bs @ drop (length bs) kb)"
    by (auto simp: nul_buf_def)
  show "take (length bs) (bs @ drop (length bs) kb) = bs" by simp
qed

lemma nul_buf_terminate:
  assumes "nul_buf n kb" and "m < n"
  obtains kb' where "c_store kb m [0] = Some kb'" and "nul_buf n kb'"
    and "text_of kb' = text_of (take m kb)"
proof
  have len: "length kb = n" using assms(1) by (simp add: nul_buf_def)
  show "c_store kb m [0] = Some (take m kb @ [0] @ drop (Suc m) kb)"
    using assms(2) len by (simp add: c_store_def)
  have "take m kb @ [0] @ drop (Suc m) kb = kb[m := 0]"
    using assms(2) len by (simp add: upd_conv_take_nth_drop)
  then have "(take m kb @ [0] @ drop (Suc m) kb) ! (n - 1) = 0"
    using assms len by (simp add: nul_buf_def nth_list_update del: append.simps)
  with assms len show "nul_buf n (take m kb @ [0] @ drop (Suc m) kb)"
    by (auto simp: nul_buf_def)
  show "text_of (take m kb @ [0] @ drop (Suc m) kb) = text_of (take m kb)"
    by (simp add: text_of_def takeWhile_nz_append_zero)
qed

text \<open>
  The common write path \<open>copy_from_user; buffer[len] = 0\<close> of the drivers that keep room
  for the terminator: it never leaves the array and the buffer ends up holding the text
  of the bytes copied.
\<close>

lemma nul_buf_write:
  assumes "nul_buf n kb" and "length bs < n"
  obtains kb1 kb2 where "c_store kb 0 bs = Some kb1" and "nul_buf n kb1"
    and "c_store kb1 (length bs) [0] = Some kb2" and "nul_buf n kb2"
    and "text_of kb2 = text_of bs"
proof -
  obtain kb1 where kb1: "c_store kb 0 bs = Some kb1" "nul_buf n kb1" "take (length bs) kb1 = bs"
    using nul_buf_store[OF assms] .
  obtain kb2 where "c_store kb1 (length bs) [0] = Some kb2" "nul_buf n kb2"
    "text_of kb2 = text_of (take (length bs) kb1)"
    using nul_buf_terminate[OF kb1(2) assms(2)] .
  with kb1 show ?thesis using that by simp
qed

lemma nul_buf_slice:
  assumes "nul_buf n kb" and "0 \<le> off" and "nat off + m \<le> length (text_of kb)"
  shows "c_slice kb off m = Some (take m (drop (nat off) (text_of kb)))"
proof -
  have "nat off + m \<le> length kb"
    using assms text_of_length[OF assms(1)] by (simp add: nul_buf_def)
  moreover have "take m (drop (nat off) kb) = take m (drop (nat off) (text_of kb))"
    using assms(3) unfolding text_of_def by (intro take_takeWhile_drop) simp
  ultimately show ?thesis using assms(2) by (simp add: c_slice_def)
qed

text \<open>
  The write path of the drivers that keep room for the terminator, as a reference: clamp,
  copy, terminate, print.
\<close>

definition text_write :: "uapi \<Rightarrow> byte list \<Rightarrow> nat \<Rightarrow> nat \<Rightarrow> byte list \<Rightarrow> (int \<times> byte list) option" where
  "text_write K ubuf len cap kb = do {
     let len = min len cap;
     let (left, bs) = copy_from_user K ubuf len;
     kb \<leftarrow> c_store kb 0 bs;
     if left \<noteq> 0 then Some (- EFAULT, kb)
     else do {
       kb \<leftarrow> c_store kb len [0];
       _ \<leftarrow> c_string kb;
       Some (int len, kb)
     }
   }"

lemma text_write_ok:
  assumes "nul_buf n kb" and "copy_from_user K u (min len cap) = (0, bs)"
    and "length bs = min len cap" and "cap < n"
  shows "\<exists>kb'. text_write K u len cap kb = Some (int (min len cap), kb') \<and> nul_buf n kb' \<and>
           text_of kb' = text_of bs"
proof -
  have "length bs < n" using assms(3,4) by simp
  then obtain kb1 kb2 where "c_store kb 0 bs = Some kb1" "c_store kb1 (length bs) [0] = Some kb2"
    and kb2: "nul_buf n kb2" "text_of kb2 = text_of bs"
    using nul_buf_write[OF assms(1)] by metis
  then have "text_write K u len cap kb = Some (int (min len cap), kb2)"
    using assms(2,3) by (simp add: text_write_def Let_def nul_buf_string)
  with kb2 show ?thesis by blast
qed

lemma text_write_fault:
  assumes "nul_buf n kb" and "copy_from_user K u (min len cap) = (Suc k, bs)"
    and "length bs = min len cap" and "cap < n"
  shows "\<exists>kb'. text_write K u len cap kb = Some (- EFAULT, kb') \<and> nul_buf n kb'"
proof -
  have "length bs < n" using assms(3,4) by simp
  then obtain kb1 where "c_store kb 0 bs = Some kb1" "nul_buf n kb1"
    using nul_buf_store[OF assms(1)] by metis
  then show ?thesis using assms(2) by (simp add: text_write_def Let_def)
qed

text \<open>Whatever the user passes, the buffer stays terminated and no access leaves it.\<close>

lemma text_write_good:
  assumes "uapi_ok K" and "nul_buf n kb" and "cap < n"
  shows "\<exists>r kb'. text_write K u len cap kb = Some (r, kb') \<and> nul_buf n kb'"
proof -
  obtain left bs where c: "copy_from_user K u (min len cap) = (left, bs)" by fastforce
  moreover have "length bs = min len cap"
    using cfu_length[OF assms(1), of u "min len cap"] c by simp
  ultimately show ?thesis
    using text_write_ok[OF assms(2)] text_write_fault[OF assms(2)] assms(3) by (cases left) blast+
qed

section \<open>Reading a device file\<close>

text \<open>
  What a \<open>read\<close> method does: the return value, the bytes that reached the user and the
  new file offset; \<open>None\<close> when the method leaves its buffer.
\<close>

type_synonym read_result = "(int \<times> byte list \<times> int) option"

text \<open>
  \<open>cat\<close>: read until the method returns 0; \<open>None\<close> on an error, on undefined behaviour or
  when the fuel is spent.
\<close>

fun cat_loop :: "(int \<Rightarrow> read_result) \<Rightarrow> nat \<Rightarrow> int \<Rightarrow> byte list option" where
  "cat_loop rd 0 off = None"
| "cat_loop rd (Suc fuel) off =
     (case rd off of
        None \<Rightarrow> None
      | Some (r, bs, off') \<Rightarrow>
          if r < 0 then None
          else if r = 0 then Some []
          else map_option ((@) bs) (cat_loop rd fuel off'))"

locale offset_reader =
  fixes content :: "'s \<Rightarrow> byte list"
    and good :: "'s \<Rightarrow> bool"
    and rd :: "uapi \<Rightarrow> nat \<Rightarrow> int \<Rightarrow> 's \<Rightarrow> read_result"
  assumes rd_eof: "good s \<Longrightarrow> 0 \<le> off \<Longrightarrow> length (content s) \<le> nat off \<Longrightarrow>
      rd K len off s = Some (0, [], off)"
    and rd_data: "good s \<Longrightarrow> 0 \<le> off \<Longrightarrow> nat off < length (content s) \<Longrightarrow>
      chunk = take len (drop (nat off) (content s)) \<Longrightarrow>
      copy_to_user K chunk = (0, chunk) \<Longrightarrow>
      rd K len off s = Some (int (length chunk), chunk, off + int (length chunk))"
    and rd_fault: "good s \<Longrightarrow> 0 \<le> off \<Longrightarrow> nat off < length (content s) \<Longrightarrow>
      copy_to_user K (take len (drop (nat off) (content s))) = (Suc k, out) \<Longrightarrow>
      rd K len off s = Some (- EFAULT, out, off)"
begin

lemma rd_defined:
  assumes "uapi_ok K" and "good s" and "0 \<le> off"
  shows "rd K len off s \<noteq> None"
proof (cases "length (content s) \<le> nat off")
  case True
  then show ?thesis using rd_eof assms(2,3) by simp
next
  case False
  let ?c = "take len (drop (nat off) (content s))"
  obtain left out where c: "copy_to_user K ?c = (left, out)" by fastforce
  show ?thesis
  proof (cases left)
    case 0
    with c have "copy_to_user K ?c = (0, ?c)" using ctu_data[OF assms(1), of ?c] by simp
    then show ?thesis using rd_data[OF assms(2,3) _ refl] False by simp
  next
    case (Suc k)
    then show ?thesis using rd_fault[OF assms(2,3)] c False by simp
  qed
qed

lemma cat_from:
  assumes "good s" and "0 < n" and "uapi_nofault K"
  shows "length (content s) - nat off < fuel \<Longrightarrow> 0 \<le> off \<Longrightarrow>
         cat_loop (\<lambda>o'. rd K n o' s) fuel off = Some (drop (nat off) (content s))"
proof (induction fuel arbitrary: off)
  case 0
  then show ?case by simp
next
  case (Suc fuel)
  show ?case
  proof (cases "length (content s) \<le> nat off")
    case True
    then show ?thesis using rd_eof assms(1) Suc.prems(2) by simp
  next
    case False
    let ?c = "take n (drop (nat off) (content s))"
    have "copy_to_user K ?c = (0, ?c)" using assms(3) by (rule nofault_ctu)
    then have r: "rd K n off s = Some (int (length ?c), ?c, off + int (length ?c))"
      using rd_data[OF assms(1) Suc.prems(2) _ refl] False by simp
    obtain l where l: "length ?c = l" by simp
    with False assms(2) have pos: "0 < l" by auto
    have "nat (off + int l) = nat off + l"
      using Suc.prems(2) by (simp add: nat_add_distrib)
    moreover have "length (content s) - nat (off + int l) < fuel"
      using Suc.prems False pos calculation by simp
    ultimately have
      "cat_loop (\<lambda>o'. rd K n o' s) fuel (off + int l) = Some (drop (nat off + l) (content s))"
      using Suc.IH[of "off + int l"] Suc.prems(2) by simp
    moreover have "?c @ drop (nat off + l) (content s) = drop (nat off) (content s)"
      using l by (metis append_eq_conv_conj append_take_drop_id drop_drop add.commute)
    ultimately show ?thesis using r pos unfolding l by simp
  qed
qed

text \<open>Fuel above the number of bytes held is enough, whatever the read size.\<close>

lemma cat_content:
  "good s \<Longrightarrow> 0 < n \<Longrightarrow> uapi_nofault K \<Longrightarrow> length (content s) < fuel \<Longrightarrow>
   cat_loop (\<lambda>o'. rd K n o' s) fuel 0 = Some (content s)"
  using cat_from[of s n K 0 fuel] by simp

end

text \<open>
  The shape the offset-honouring drivers share: end of file at \<open>sz\<close>, otherwise the
  length clamped to what is left, fetched by \<open>fetch\<close> and handed to the user.
\<close>

definition offset_read ::
    "uapi \<Rightarrow> nat \<Rightarrow> int \<Rightarrow> nat \<Rightarrow> (int \<Rightarrow> nat \<Rightarrow> byte list option) \<Rightarrow> read_result" where
  "offset_read K len off sz fetch =
     (if off \<ge> int sz then Some (0, [], off)
      else do {
        let len = (if int len > int sz - off then nat (int sz - off) else len);
        src \<leftarrow> fetch off len;
        let (left, out) = copy_to_user K src;
        if left \<noteq> 0 then Some (- EFAULT, out, off)
        else Some (int len, out, off + int len)
      })"

definition slice_ok :: "byte list \<Rightarrow> (int \<Rightarrow> nat \<Rightarrow> byte list option) \<Rightarrow> bool" where
  "slice_ok c fetch \<longleftrightarrow> (\<forall>off m. 0 \<le> off \<longrightarrow> nat off + m \<le> length c \<longrightarrow>
      fetch off m = Some (take m (drop (nat off) c)))"

lemma offset_read_data:
  assumes "slice_ok c fetch" and "0 \<le> off" and "nat off < length c"
    and "copy_to_user K (take len (drop (nat off) c)) = (left, out)"
  shows "offset_read K len off (length c) fetch =
     (if left \<noteq> 0 then Some (- EFAULT, out, off)
      else Some (int (length (take len (drop (nat off) c))), out,
                 off + int (length (take len (drop (nat off) c)))))"
proof -
  let ?len = "if int len > int (length c) - off then nat (int (length c) - off) else len"
  have len: "?len = min len (length c - nat off)"
    using assms(2,3) by (auto simp: min_def nat_diff_distrib)
  have "fetch off ?len = Some (take ?len (drop (nat off) c))"
    using assms(1,2,3) unfolding len slice_ok_def by simp
  also have "take ?len (drop (nat off) c) = take len (drop (nat off) c)"
    unfolding len by (metis length_drop take_all take_take min.commute min.idem nle_le min_def)
  finally have sl: "fetch off ?len = Some (take len (drop (nat off) c))" .
  have "\<not> off \<ge> int (length c)" using assms(2,3) by linarith
  moreover have "length (take len (drop (nat off) c)) = ?len"
    unfolding len by (simp add: min.commute)
  ultimately show ?thesis
    using assms(4) sl unfolding offset_read_def Let_def by simp
qed

lemma offset_readerI:
  assumes rd: "\<And>s (K::uapi) len off. good s \<Longrightarrow> 0 \<le> off \<Longrightarrow>
      rd K len off s = offset_read K len off (length (content s)) (fetch s)"
    and sl: "\<And>s. good s \<Longrightarrow> slice_ok (content s) (fetch s)"
  shows "offset_reader content good rd"
proof
  fix s :: 'a and off :: int and K :: uapi and len
  assume a: "good s" "0 \<le> off" "length (content s) \<le> nat off"
  then have "int (length (content s)) \<le> off" by linarith
  with a show "rd K len off s = Some (0, [], off)"
    by (simp add: rd offset_read_def)
next
  fix s :: 'a and off :: int and K :: uapi and len chunk
  assume "good s" "0 \<le> off" "nat off < length (content s)"
    "chunk = take len (drop (nat off) (content s))" "copy_to_user K chunk = (0, chunk)"
  then show "rd K len off s = Some (int (length chunk), chunk, off + int (length chunk))"
    using offset_read_data[OF sl] by (simp add: rd)
next
  fix s :: 'a and off :: int and K :: uapi and len k out
  assume "good s" "0 \<le> off" "nat off < length (content s)"
    "copy_to_user K (take len (drop (nat off) (content s))) = (Suc k, out)"
  then show "rd K len off s = Some (- EFAULT, out, off)"
    using offset_read_data[OF sl] by (simp add: rd)
qed

lemma nul_buf_slice_ok: "nul_buf n kb \<Longrightarrow> slice_ok (text_of kb) (c_slice kb)"
  unfolding slice_ok_def using nul_buf_slice by blast

locale text_device = offset_reader +
  fixes wr :: "uapi \<Rightarrow> byte list \<Rightarrow> nat \<Rightarrow> 's \<Rightarrow> (int \<times> 's) option"
    and cap :: nat
    and kept :: "byte list \<Rightarrow> byte list"
  assumes wr_ok: "good s \<Longrightarrow> copy_from_user K u (min len cap) = (0, bs) \<Longrightarrow>
      length bs = min len cap \<Longrightarrow>
      \<exists>s'. wr K u len s = Some (int (min len cap), s') \<and> good s' \<and> content s' = kept bs"
    and wr_fault: "good s \<Longrightarrow> copy_from_user K u (min len cap) = (Suc k, bs) \<Longrightarrow>
      length bs = min len cap \<Longrightarrow>
      \<exists>s'. wr K u len s = Some (- EFAULT, s') \<and> good s'"
begin

text \<open>The invariant survives every write, faulting ones included, and none leaves the buffer.\<close>

lemma wr_inv:
  assumes "uapi_ok K" and "good s"
  shows "\<exists>r s'. wr K u len s = Some (r, s') \<and> good s'"
proof -
  obtain left bs where c: "copy_from_user K u (min len cap) = (left, bs)" by fastforce
  have "length bs = min len cap" using cfu_length[OF assms(1), of u "min len cap"] c by simp
  with c wr_ok[OF assms(2)] wr_fault[OF assms(2)] show ?thesis by (cases left) blast+
qed

text \<open>\<open>echo\<close> then \<open>cat\<close>: the device gives back what it keeps of the bytes written.\<close>

lemma echo_cat:
  assumes "uapi_ok K" and "good s" and "fst (copy_from_user K u (min len cap)) = 0"
    and "0 < n" and "uapi_nofault K'"
  shows "\<exists>s'. wr K u len s = Some (int (min len cap), s') \<and> good s' \<and>
    cat_loop (\<lambda>o'. rd K' n o' s') (Suc (length (content s'))) 0 =
      Some (kept (take (min len cap) u))"
proof -
  obtain bs where c: "copy_from_user K u (min len cap) = (0, bs)"
    using assms(3) by (metis prod.collapse)
  then have bs: "bs = take (min len cap) u" and "length bs = min len cap"
    using cfu_data[OF assms(1,3)] cfu_length[OF assms(1), of u "min len cap"] by simp_all
  with wr_ok[OF assms(2) c] obtain s' where
    s': "wr K u len s = Some (int (min len cap), s')" "good s'" "content s' = kept bs" by blast
  have "cat_loop (\<lambda>o'. rd K' n o' s') (Suc (length (content s'))) 0 = Some (content s')"
    using s'(2) assms(4,5) by (rule cat_content) simp
  with s' bs show ?thesis by (auto simp del: cat_loop.simps)
qed

end

section \<open>Types of results\<close>

definition is_errno :: "int \<Rightarrow> bool" where
  "is_errno r \<longleftrightarrow> - 4095 \<le> r \<and> r < 0"

text \<open>A byte count as \<open>read\<close> may return it for a request of \<open>n\<close> bytes.\<close>

definition count_result :: "nat \<Rightarrow> int \<Rightarrow> byte list \<Rightarrow> bool" where
  "count_result n r out \<longleftrightarrow> is_errno r \<or> (0 \<le> r \<and> r \<le> int n \<and> length out = nat r)"

text \<open>What the contracts say of one call: the type of its result, and its effect without faults.\<close>

lemma count_result_intros:
  "count_result n (- EFAULT) out" "length out \<le> n \<Longrightarrow> count_result n (int (length out)) out"
  by (simp_all add: count_result_def is_errno_def)

context offset_reader
begin

lemma rd_chunk:
  assumes "good s" and "0 \<le> off" and "uapi_nofault K"
  shows "rd K n off s = (let chunk = take n (drop (nat off) (content s))
    in Some (int (length chunk), chunk, off + int (length chunk)))"
proof (cases "length (content s) \<le> nat off")
  case True
  with rd_eof[OF assms(1,2)] show ?thesis by simp
next
  case False
  with rd_data[OF assms(1,2) _ refl nofault_ctu[OF assms(3)]] show ?thesis by (simp add: Let_def)
qed

lemma rd_typed:
  assumes "good s" and "0 \<le> off" and "uapi_ok K"
  shows "\<exists>r out off'. rd K n off s = Some (r, out, off') \<and> count_result n r out \<and> 0 \<le> off'"
proof (cases "length (content s) \<le> nat off")
  case True
  with rd_eof[OF assms(1,2)] assms(2) show ?thesis by (simp add: count_result_def)
next
  case False
  let ?c = "take n (drop (nat off) (content s))"
  obtain left out where c: "copy_to_user K ?c = (left, out)" by (rule prod.exhaust)
  show ?thesis
  proof (cases left)
    case 0
    with c have "copy_to_user K ?c = (0, ?c)" using ctu_data[OF assms(3), of ?c] by simp
    from rd_data[OF assms(1,2) _ refl this] False assms(2) show ?thesis
      by (simp add: count_result_def)
  next
    case (Suc k)
    with rd_fault[OF assms(1,2)] c False assms(2) show ?thesis by (simp add: count_result_intros)
  qed
qed

end

context text_device
begin

lemma wr_kept:
  assumes "good s" and "uapi_ok K" and "fst (copy_from_user K u (min len cap)) = 0"
  shows "\<exists>s'. wr K u len s = Some (int (min len cap), s') \<and> good s' \<and> content s' = kept (take (min len cap) u)"
proof -
  obtain bs where c: "copy_from_user K u (min len cap) = (0, bs)" using assms(3) by (metis prod.collapse)
  then have "bs = take (min len cap) u" "length bs = min len cap"
    using cfu_data[OF assms(2,3)] cfu_length[OF assms(2), of u "min len cap"] by simp_all
  with wr_ok[OF assms(1) c] show ?thesis by blast
qed

lemma wr_typed:
  assumes "good s" and "uapi_ok K"
  shows "\<exists>r s'. wr K u len s = Some (r, s') \<and> (is_errno r \<or> (0 \<le> r \<and> r \<le> int len)) \<and> good s'"
proof -
  obtain left bs where c: "copy_from_user K u (min len cap) = (left, bs)" by (rule prod.exhaust)
  have l: "length bs = min len cap" using cfu_length[OF assms(2), of u "min len cap"] c by simp
  show ?thesis
  proof (cases left)
    case 0
    with wr_ok[OF assms(1) _ l] c obtain s' where "wr K u len s = Some (int (min len cap), s')" "good s'" by blast
    then show ?thesis by simp
  next
    case (Suc k)
    with wr_fault[OF assms(1) _ l] c obtain s' where "wr K u len s = Some (- EFAULT, s')" "good s'" by blast
    then show ?thesis by (simp add: is_errno_def)
  qed
qed

end

end
