(* ===== verification/CharBasic.thy ===== *)
theory CharBasic
  imports Kapi CharIface
begin

text \<open>
  The first character drivers: \<open>3.chardev_register/chardev_register-1.c\<close> and \<open>-2.c\<close>
  (\<open>register_chrdev\<close>), \<open>4.char_cdev_copyfromuser/char_cdev-1.c\<close>, \<open>-2.c\<close> (\<open>cdev_add\<close>,
  device class) and \<open>-3.c\<close> (four minors). Names carry the suffix \<open>reg1\<close>, \<open>reg2\<close>,
  \<open>cdev1\<close>, \<open>cdev2\<close>, \<open>cdev3\<close> of their file. The data state of a driver is its static
  \<open>kernel_buffer\<close>; \<open>init\<close> and \<open>exit\<close> are programs over the kernel-call log.
\<close>

abbreviation BUF_SIZE_100 :: nat where "BUF_SIZE_100 \<equiv> 100"
abbreviation NUM_DEVICES :: nat where "NUM_DEVICES \<equiv> 4"

section \<open>chardev_register-1.c\<close>

text \<open>\<open>init\<close> returns its value and what it leaves in the static \<open>major\<close>.\<close>

definition mychar_init_reg1 :: "kenv \<Rightarrow> (int \<times> int) kprog" where
  "mychar_init_reg1 env = do {
     major \<leftarrow> kcall env (Chr (Register_chrdev 0 ''mychar''));
     if major < 0 then kret (major, major)
     else kret (0, major)
   }"

definition mychar_exit_reg1 :: "int \<Rightarrow> kenv \<Rightarrow> unit kprog" where
  "mychar_exit_reg1 major env = do {
     _ \<leftarrow> kcall env (Chr (Unregister_chrdev major ''mychar''));
     kret ()
   }"

section \<open>chardev_register-2.c\<close>

definition my_write_reg2 :: "uapi \<Rightarrow> byte list \<Rightarrow> nat \<Rightarrow> byte list \<Rightarrow> (int \<times> byte list) option" where
  "my_write_reg2 K ubuf len kernel_buffer = do {
     let len = (if len > BUF_SIZE_100 - 1 then BUF_SIZE_100 - 1 else len);
     let (left, bs) = copy_from_user K ubuf len;
     kernel_buffer \<leftarrow> c_store kernel_buffer 0 bs;
     if left \<noteq> 0 then Some (- EFAULT, kernel_buffer)
     else do {
       kernel_buffer \<leftarrow> c_store kernel_buffer len [0];
       _ \<leftarrow> c_string kernel_buffer;
       Some (int len, kernel_buffer)
     }
   }"

definition my_read_reg2 :: "uapi \<Rightarrow> nat \<Rightarrow> int \<Rightarrow> byte list \<Rightarrow> read_result" where
  "my_read_reg2 K len off kernel_buffer = do {
     data_len \<leftarrow> c_strlen kernel_buffer;
     if off \<ge> int data_len then Some (0, [], off)
     else do {
       let len = (if int len > int data_len - off then nat (int data_len - off) else len);
       src \<leftarrow> c_slice kernel_buffer off len;
       let (left, out) = copy_to_user K src;
       if left \<noteq> 0 then Some (- EFAULT, out, off)
       else Some (int len, out, off + int len)
     }
   }"

definition char_init_reg2 :: "kenv \<Rightarrow> (int \<times> int) kprog" where
  "char_init_reg2 env = do {
     major \<leftarrow> kcall env (Chr (Register_chrdev 0 ''mychar''));
     if major < 0 then kret (major, major)
     else kret (0, major)
   }"

definition char_exit_reg2 :: "int \<Rightarrow> kenv \<Rightarrow> unit kprog" where
  "char_exit_reg2 major env = do {
     _ \<leftarrow> kcall env (Chr (Unregister_chrdev major ''mychar''));
     kret ()
   }"

section \<open>char_cdev-1.c\<close>

definition my_write_cdev1 :: "uapi \<Rightarrow> byte list \<Rightarrow> nat \<Rightarrow> byte list \<Rightarrow> (int \<times> byte list) option" where
  "my_write_cdev1 K ubuf len kernel_buffer = do {
     let len = (if len > BUF_SIZE_100 then BUF_SIZE_100 else len);
     let (left, bs) = copy_from_user K ubuf len;
     kernel_buffer \<leftarrow> c_store kernel_buffer 0 bs;
     if left \<noteq> 0 then Some (- EFAULT, kernel_buffer)
     else do {
       _ \<leftarrow> c_string kernel_buffer;
       Some (int len, kernel_buffer)
     }
   }"

definition my_read_cdev1 :: "uapi \<Rightarrow> nat \<Rightarrow> int \<Rightarrow> byte list \<Rightarrow> read_result" where
  "my_read_cdev1 K len off kernel_buffer = do {
     data_len \<leftarrow> c_strlen kernel_buffer;
     if off \<ge> int data_len then Some (0, [], off)
     else do {
       let len = (if len > data_len then data_len else len);
       src \<leftarrow> c_slice kernel_buffer 0 len;
       let (left, out) = copy_to_user K src;
       if left \<noteq> 0 then Some (- EFAULT, out, off)
       else Some (int len, out, off + int len)
     }
   }"

definition my_init_cdev1 :: "kenv \<Rightarrow> int kprog" where
  "my_init_cdev1 env = do {
     ret \<leftarrow> kcall env (Chr (Alloc_chrdev_region 0 1 ''mychar''));
     if ret < 0 then kret ret
     else do {
       _ \<leftarrow> kcall env (Chr (Cdev_init 0));
       ret \<leftarrow> kcall env (Chr (Cdev_add 0 0 1));
       if ret < 0 then do {
         _ \<leftarrow> kcall env (Chr (Unregister_chrdev_region 1));
         kret ret
       }
       else kret 0
     }
   }"

definition my_exit_cdev1 :: "kenv \<Rightarrow> unit kprog" where
  "my_exit_cdev1 env = do {
     _ \<leftarrow> kcall env (Chr (Cdev_del 0));
     _ \<leftarrow> kcall env (Chr (Unregister_chrdev_region 1));
     kret ()
   }"

section \<open>char_cdev-2.c\<close>

definition my_write_cdev2 :: "uapi \<Rightarrow> byte list \<Rightarrow> nat \<Rightarrow> byte list \<Rightarrow> (int \<times> byte list) option" where
  "my_write_cdev2 K ubuf len kernel_buffer = do {
     let len = (if len > BUF_SIZE_100 then BUF_SIZE_100 else len);
     let (left, bs) = copy_from_user K ubuf len;
     kernel_buffer \<leftarrow> c_store kernel_buffer 0 bs;
     if left \<noteq> 0 then Some (- EFAULT, kernel_buffer)
     else do {
       _ \<leftarrow> c_string kernel_buffer;
       Some (int len, kernel_buffer)
     }
   }"

definition my_read_cdev2 :: "uapi \<Rightarrow> nat \<Rightarrow> int \<Rightarrow> byte list \<Rightarrow> read_result" where
  "my_read_cdev2 K len off kernel_buffer = do {
     data_len \<leftarrow> c_strlen kernel_buffer;
     if off \<ge> int data_len then Some (0, [], off)
     else do {
       let len = (if len > data_len then data_len else len);
       src \<leftarrow> c_slice kernel_buffer 0 len;
       let (left, out) = copy_to_user K src;
       if left \<noteq> 0 then Some (- EFAULT, out, off)
       else Some (int len, out, off + int len)
     }
   }"

text \<open>Every failure returns -1, whatever the kernel reported.\<close>

definition my_init_cdev2 :: "kenv \<Rightarrow> int kprog" where
  "my_init_cdev2 env = do {
     ret \<leftarrow> kcall env (Chr (Alloc_chrdev_region 0 1 ''mycdev_new''));
     if ret < 0 then kret (- 1)
     else do {
       _ \<leftarrow> kcall env (Chr (Cdev_init 0));
       ret \<leftarrow> kcall env (Chr (Cdev_add 0 0 1));
       if ret < 0 then do {
         _ \<leftarrow> kcall env (Chr (Unregister_chrdev_region 1));
         kret (- 1)
       }
       else do {
         my_class \<leftarrow> kcall env (Dev (Class_create ''mycdev_new''));
         if IS_ERR my_class then do {
           _ \<leftarrow> kcall env (Chr (Cdev_del 0));
           _ \<leftarrow> kcall env (Chr (Unregister_chrdev_region 1));
           kret (- 1)
         }
         else do {
           my_device \<leftarrow> kcall env (Dev (Device_create 0 ''mycdev_new''));
           if IS_ERR my_device then do {
             _ \<leftarrow> kcall env (Dev Class_destroy);
             _ \<leftarrow> kcall env (Chr (Cdev_del 0));
             _ \<leftarrow> kcall env (Chr (Unregister_chrdev_region 1));
             kret (- 1)
           }
           else kret 0
         }
       }
     }
   }"

definition my_exit_cdev2 :: "kenv \<Rightarrow> unit kprog" where
  "my_exit_cdev2 env = do {
     _ \<leftarrow> kcall env (Dev (Device_destroy 0));
     _ \<leftarrow> kcall env (Dev Class_destroy);
     _ \<leftarrow> kcall env (Chr (Cdev_del 0));
     _ \<leftarrow> kcall env (Chr (Unregister_chrdev_region 1));
     kret ()
   }"

section \<open>char_cdev-3.c\<close>

text \<open>The state is \<open>kernel_buffer[NUM_DEVICES][BUF_SIZE]\<close>; \<open>minor\<close> is \<open>iminor(file_inode(file))\<close>.\<close>

definition my_write_cdev3 ::
    "nat \<Rightarrow> uapi \<Rightarrow> byte list \<Rightarrow> nat \<Rightarrow> byte list list \<Rightarrow> (int \<times> byte list list) option" where
  "my_write_cdev3 minor K ubuf len kernel_buffer =
     (if \<not> minor < length kernel_buffer then None
      else do {
        let len = (if len \<ge> BUF_SIZE_100 then BUF_SIZE_100 - 1 else len);
        let (left, bs) = copy_from_user K ubuf len;
        row \<leftarrow> c_store (kernel_buffer ! minor) 0 bs;
        if left \<noteq> 0 then Some (- EFAULT, kernel_buffer[minor := row])
        else do {
          row \<leftarrow> c_store row len [0];
          _ \<leftarrow> c_string row;
          Some (int len, kernel_buffer[minor := row])
        }
      })"

definition my_read_cdev3 :: "nat \<Rightarrow> uapi \<Rightarrow> nat \<Rightarrow> int \<Rightarrow> byte list list \<Rightarrow> read_result" where
  "my_read_cdev3 minor K len off kernel_buffer =
     (if \<not> minor < length kernel_buffer then None
      else do {
        data_len \<leftarrow> c_strlen (kernel_buffer ! minor);
        if off \<ge> int data_len then Some (0, [], off)
        else do {
          let len = (if int len > int data_len - off then nat (int data_len - off) else len);
          src \<leftarrow> c_slice (kernel_buffer ! minor) off len;
          let (left, out) = copy_to_user K src;
          if left \<noteq> 0 then Some (- EFAULT, out, off)
          else Some (int len, out, off + int len)
        }
      })"

text \<open>The two numbers \<open>memory_usage\<close> prints: bytes allocated and bytes used.\<close>

definition my_class_attr_show_cdev3 :: "nat \<Rightarrow> byte list list \<Rightarrow> (nat \<times> nat) option" where
  "my_class_attr_show_cdev3 minor kernel_buffer =
     (if \<not> minor < length kernel_buffer then None
      else map_option (\<lambda>memory_used. (BUF_SIZE_100, memory_used))
             (c_strlen (kernel_buffer ! minor)))"

text \<open>\<open>while (--i >= 0) device_destroy(...)\<close>; it leaves \<open>i\<close> at -1.\<close>

primrec destroy_down_cdev3 :: "kenv \<Rightarrow> nat \<Rightarrow> unit kprog" where
  "destroy_down_cdev3 env 0 = kret ()"
| "destroy_down_cdev3 env (Suc i) = do {
     _ \<leftarrow> kcall env (Dev (Device_destroy i));
     destroy_down_cdev3 env i
   }"

definition c_index :: "int list \<Rightarrow> int \<Rightarrow> int option" where
  "c_index arr i = (if 0 \<le> i \<and> nat i < length arr then Some (arr ! nat i) else None)"

text \<open>
  The loop over the minors: \<open>n\<close> of them are left, \<open>i\<close> is the next one. After a failed
  \<open>device_create\<close> the code returns \<open>PTR_ERR(my_device[i])\<close> with the \<open>i\<close> of the cleanup
  loop.
\<close>

primrec create_loop_cdev3 :: "kenv \<Rightarrow> nat \<Rightarrow> nat \<Rightarrow> int list \<Rightarrow> int option kprog" where
  "create_loop_cdev3 env 0 i my_device = kret (Some 0)"
| "create_loop_cdev3 env (Suc n) i my_device = do {
     dev \<leftarrow> kcall env (Dev (Device_create i ''mychar''));
     let my_device = my_device[i := dev];
     if IS_ERR dev then do {
       _ \<leftarrow> destroy_down_cdev3 env i;
       _ \<leftarrow> kcall env (Dev Class_destroy);
       _ \<leftarrow> kcall env (Chr (Cdev_del 0));
       _ \<leftarrow> kcall env (Chr (Unregister_chrdev_region NUM_DEVICES));
       kret (c_index my_device (- 1))
     }
     else do {
       _ \<leftarrow> kcall env (Dev (Device_create_file i));
       create_loop_cdev3 env n (Suc i) my_device
     }
   }"

definition my_init_cdev3 :: "kenv \<Rightarrow> int option kprog" where
  "my_init_cdev3 env = do {
     ret \<leftarrow> kcall env (Chr (Alloc_chrdev_region 0 NUM_DEVICES ''mychar''));
     if ret \<noteq> 0 then kret (Some ret)
     else do {
       _ \<leftarrow> kcall env (Chr (Cdev_init 0));
       ret \<leftarrow> kcall env (Chr (Cdev_add 0 0 NUM_DEVICES));
       if ret \<noteq> 0 then do {
         _ \<leftarrow> kcall env (Chr (Unregister_chrdev_region NUM_DEVICES));
         kret (Some ret)
       }
       else do {
         my_class \<leftarrow> kcall env (Dev (Class_create ''mychar_class''));
         if IS_ERR my_class then do {
           _ \<leftarrow> kcall env (Chr (Cdev_del 0));
           _ \<leftarrow> kcall env (Chr (Unregister_chrdev_region NUM_DEVICES));
           kret (Some my_class)
         }
         else create_loop_cdev3 env NUM_DEVICES 0 (replicate NUM_DEVICES 0)
       }
     }
   }"

primrec destroy_up_cdev3 :: "kenv \<Rightarrow> nat \<Rightarrow> nat \<Rightarrow> unit kprog" where
  "destroy_up_cdev3 env 0 i = kret ()"
| "destroy_up_cdev3 env (Suc n) i = do {
     _ \<leftarrow> kcall env (Dev (Device_remove_file i));
     _ \<leftarrow> kcall env (Dev (Device_destroy i));
     destroy_up_cdev3 env n (Suc i)
   }"

definition my_exit_cdev3 :: "kenv \<Rightarrow> unit kprog" where
  "my_exit_cdev3 env = do {
     _ \<leftarrow> destroy_up_cdev3 env NUM_DEVICES 0;
     _ \<leftarrow> kcall env (Dev Class_destroy);
     _ \<leftarrow> kcall env (Chr (Cdev_del 0));
     _ \<leftarrow> kcall env (Chr (Unregister_chrdev_region NUM_DEVICES));
     kret ()
   }"

section \<open>Lifecycles\<close>

interpretation reg1: module_lifecycle
  "\<lambda>env. do { rm \<leftarrow> mychar_init_reg1 env; kret (fst rm) }" "mychar_exit_reg1 major" "[Chrdev]"
  for major
  by unfold_locales
    (auto simp: mychar_init_reg1_def mychar_exit_reg1_def kenv_rules split: if_splits)

interpretation reg2: module_lifecycle
  "\<lambda>env. do { rm \<leftarrow> char_init_reg2 env; kret (fst rm) }" "char_exit_reg2 major" "[Chrdev]"
  for major
  by unfold_locales
    (auto simp: char_init_reg2_def char_exit_reg2_def kenv_rules split: if_splits)

interpretation cdev1: module_lifecycle my_init_cdev1 my_exit_cdev1 "[Cdev 0, Region]"
  by unfold_locales
    (auto simp: my_init_cdev1_def my_exit_cdev1_def kenv_rules split: if_splits)

interpretation cdev2: module_lifecycle my_init_cdev2 my_exit_cdev2
  "[Device 0, Class, Cdev 0, Region]"
  by unfold_locales
    (auto simp: my_init_cdev2_def my_exit_cdev2_def kenv_rules split: if_splits)

text \<open>\<open>devs_cdev3 i\<close>: the resources held when the first \<open>i\<close> minors exist.\<close>

definition devs_cdev3 :: "nat \<Rightarrow> res list" where
  "devs_cdev3 i = map Device (rev [0..<i]) @ [Class, Cdev 0, Region]"

lemma devs_cdev3_Suc: "devs_cdev3 (Suc i) = Device i # devs_cdev3 i"
  by (simp add: devs_cdev3_def)

lemma devs_cdev3_free: "list_all (\<lambda>b. Device i \<notin> set (needs b)) (devs_cdev3 n)"
  by (auto simp: devs_cdev3_def list_all_iff)

lemma destroy_down_run:
  "replay [] h = Some (devs_cdev3 i) \<Longrightarrow>
   replay [] (snd (run_state (destroy_down_cdev3 env i) h)) = Some (devs_cdev3 0)"
  by (induction i arbitrary: h) (auto simp: devs_cdev3_Suc devs_cdev3_free)

lemma create_loop_run:
  assumes "kenv_ok env"
  shows "replay [] h = Some (devs_cdev3 i) \<Longrightarrow>
    run_state (create_loop_cdev3 env n i my_device) h = (r, h') \<Longrightarrow>
    r = Some 0 \<and> replay [] h' = Some (devs_cdev3 (i + n)) \<or> r = None \<and> replay [] h' = Some []"
proof (induction n arbitrary: i h my_device)
  case 0
  then show ?case by simp
next
  case (Suc n)
  let ?c = "Dev (Device_create i ''mychar'')"
  let ?h1 = "h @ [(?c, env (length h) ?c)]"
  have new: "Device i \<notin> set (devs_cdev3 i)" and cls: "Class \<in> set (devs_cdev3 i)"
    by (auto simp: devs_cdev3_def)
  show ?case
  proof (cases "IS_ERR (env (length h) ?c)")
    case True
    with Suc.prems(1) new cls have "replay [] ?h1 = Some (devs_cdev3 i)" by simp
    then have "replay [] (snd (run_state (destroy_down_cdev3 env i) ?h1)) = Some (devs_cdev3 0)"
      by (rule destroy_down_run)
    with True Suc.prems(2) show ?thesis
      by (auto simp: devs_cdev3_def c_index_def Let_def split: prod.splits)
  next
    case False
    let ?f = "Dev (Device_create_file i)"
    let ?h2 = "?h1 @ [(?f, env (length ?h1) ?f)]"
    have h2: "replay [] ?h2 = Some (devs_cdev3 (Suc i))"
      using False Suc.prems(1) new cls kenv_errptr[OF assms, of ?c "length h"]
      by (simp add: devs_cdev3_Suc)
    have "run_state (create_loop_cdev3 env n (Suc i) (my_device[i := env (length h) ?c])) ?h2 = (r, h')"
      using Suc.prems(2) False by (simp add: Let_def)
    from Suc.IH[OF h2 this] show ?thesis by simp
  qed
qed

lemma init_cdev3_run:
  assumes "kenv_ok env" and "replay [] h = Some []" and "run_state (my_init_cdev3 env) h = (r, h')"
  shows "r = Some 0 \<and> replay [] h' = Some (devs_cdev3 NUM_DEVICES) \<or>
         r \<noteq> Some 0 \<and> replay [] h' = Some []"
proof -
  let ?a = "Chr (Alloc_chrdev_region 0 NUM_DEVICES ''mychar'')"
  let ?i = "Chr (Cdev_init 0)"
  let ?d = "Chr (Cdev_add 0 0 NUM_DEVICES)"
  let ?c = "Dev (Class_create ''mychar_class'')"
  let ?n = "length h"
  let ?h4 = "h @ [(?a, env ?n ?a), (?i, env (Suc ?n) ?i), (?d, env (Suc (Suc ?n)) ?d),
                  (?c, env (Suc (Suc (Suc ?n))) ?c)]"
  show ?thesis
  proof (cases "env ?n ?a = 0 \<and> env (Suc (Suc ?n)) ?d = 0 \<and> \<not> IS_ERR (env (Suc (Suc (Suc ?n))) ?c)")
    case True
    then have "replay [] ?h4 = Some (devs_cdev3 0)"
      using assms(1,2) by (simp add: devs_cdev3_def kenv_rules)
    moreover have "run_state (create_loop_cdev3 env NUM_DEVICES 0 (replicate NUM_DEVICES 0)) ?h4 = (r, h')"
      using True assms(3) by (simp add: my_init_cdev3_def del: create_loop_cdev3.simps)
    ultimately show ?thesis using create_loop_run[OF assms(1)] by fastforce
  next
    case False
    then show ?thesis
      using assms
      by (auto simp: my_init_cdev3_def kenv_rules split: if_splits simp del: create_loop_cdev3.simps)
  qed
qed

section \<open>The data path\<close>

text \<open>
  \<open>chardev_register-2.c\<close> and each minor of \<open>char_cdev-3.c\<close> keep room for the terminator
  and honour the offset: both meet the \<open>text_device\<close> contract.
\<close>

lemma my_write_reg2_text:
  "my_write_reg2 K u len kb = text_write K u len (BUF_SIZE_100 - 1) kb"
  by (simp add: my_write_reg2_def text_write_def min_def)

interpretation reg2_dev: text_device text_of "nul_buf BUF_SIZE_100" my_read_reg2
  my_write_reg2 "BUF_SIZE_100 - 1" text_of
proof (intro text_device.intro offset_readerI text_device_axioms.intro)
  show "my_read_reg2 K len off s = offset_read K len off (length (text_of s)) (c_slice s)"
    if "nul_buf BUF_SIZE_100 s" for s K len off
    using that by (simp add: my_read_reg2_def offset_read_def carray)
qed (auto simp: my_write_reg2_text
      intro!: text_write_ok [where n = BUF_SIZE_100] text_write_fault nul_buf_slice_ok)

text \<open>The minors of \<open>char_cdev-3.c\<close>: all four buffers stay terminated.\<close>

definition good_cdev3 :: "byte list list \<Rightarrow> bool" where
  "good_cdev3 kbs \<longleftrightarrow> length kbs = NUM_DEVICES \<and> (\<forall>kb \<in> set kbs. nul_buf BUF_SIZE_100 kb)"

lemma good_cdev3_row: "good_cdev3 kbs \<Longrightarrow> m < NUM_DEVICES \<Longrightarrow> nul_buf BUF_SIZE_100 (kbs ! m)"
  by (simp add: good_cdev3_def)

lemma good_cdev3_update:
  "good_cdev3 kbs \<Longrightarrow> nul_buf BUF_SIZE_100 kb \<Longrightarrow> good_cdev3 (kbs[m := kb])"
  by (auto simp: good_cdev3_def dest!: subsetD [OF set_update_subset_insert])

lemma my_write_cdev3_text:
  "m < length kbs \<Longrightarrow> my_write_cdev3 m K u len kbs =
   map_option (\<lambda>(r, kb). (r, kbs[m := kb])) (text_write K u len (BUF_SIZE_100 - 1) (kbs ! m))"
proof -
  assume m: "m < length kbs"
  have len: "(if len \<ge> BUF_SIZE_100 then BUF_SIZE_100 - 1 else len) = min len (BUF_SIZE_100 - 1)"
    by auto
  show ?thesis
    using m unfolding my_write_cdev3_def text_write_def len
    by (auto simp: Let_def split: prod.splits Option.bind_splits)
qed

interpretation cdev3_dev: text_device "\<lambda>kbs. text_of (kbs ! m)"
  "\<lambda>kbs. m < NUM_DEVICES \<and> good_cdev3 kbs" "my_read_cdev3 m" "my_write_cdev3 m"
  "BUF_SIZE_100 - 1" text_of
  for m
proof (intro text_device.intro offset_readerI text_device_axioms.intro)
  fix kbs :: "byte list list" and K :: uapi and len off
  assume "m < NUM_DEVICES \<and> good_cdev3 kbs"
  then have "m < length kbs" "nul_buf BUF_SIZE_100 (kbs ! m)"
    by (simp_all add: good_cdev3_def)
  then show "my_read_cdev3 m K len off kbs =
      offset_read K len off (length (text_of (kbs ! m))) (c_slice (kbs ! m))"
    and "slice_ok (text_of (kbs ! m)) (c_slice (kbs ! m))"
    by (simp_all add: my_read_cdev3_def offset_read_def carray nul_buf_slice_ok)
next
  fix kbs :: "byte list list" and K :: uapi and u len bs
  assume g: "m < NUM_DEVICES \<and> good_cdev3 kbs"
    and c: "copy_from_user K u (min len (BUF_SIZE_100 - 1)) = (0, bs)"
    and l: "length bs = min len (BUF_SIZE_100 - 1)"
  then have m: "m < length kbs" and n: "nul_buf BUF_SIZE_100 (kbs ! m)"
    by (simp_all add: good_cdev3_def)
  from text_write_ok[OF n c l] m g show "\<exists>s'. my_write_cdev3 m K u len kbs =
      Some (int (min len (BUF_SIZE_100 - 1)), s') \<and> (m < NUM_DEVICES \<and> good_cdev3 s') \<and>
      text_of (s' ! m) = text_of bs"
    by (auto simp: my_write_cdev3_text good_cdev3_update)
next
  fix kbs :: "byte list list" and K :: uapi and u len bs k
  assume g: "m < NUM_DEVICES \<and> good_cdev3 kbs"
    and c: "copy_from_user K u (min len (BUF_SIZE_100 - 1)) = (Suc k, bs)"
    and l: "length bs = min len (BUF_SIZE_100 - 1)"
  then have m: "m < length kbs" and n: "nul_buf BUF_SIZE_100 (kbs ! m)"
    by (simp_all add: good_cdev3_def)
  from text_write_fault[OF n c l] m g show "\<exists>s'. my_write_cdev3 m K u len kbs =
      Some (- EFAULT, s') \<and> (m < NUM_DEVICES \<and> good_cdev3 s')"
    by (auto simp: my_write_cdev3_text good_cdev3_update)
qed

section \<open>Properties\<close>

text \<open>Writing to \<open>/dev/mychar\<close> of \<open>chardev_register-2.c\<close> and then reading it to the
  end with any buffer size gives back the text of the first 99 bytes written; the write
  reports the number of bytes kept and the buffer stays NUL-terminated.\<close>

theorem reg2_echo_cat:
  assumes "uapi_ok K" and "nul_buf BUF_SIZE_100 kb"
    and "fst (copy_from_user K u (min len 99)) = 0"
    and "0 < n" and "uapi_nofault K'"
  shows "\<exists>kb'. my_write_reg2 K u len kb = Some (int (min len 99), kb') \<and>
           nul_buf BUF_SIZE_100 kb' \<and>
           cat_loop (\<lambda>off. my_read_reg2 K' n off kb') (Suc (length (text_of kb'))) 0 =
             Some (text_of (take (min len 99) u))"
  using reg2_dev.echo_cat[of K kb u len n K'] assms by simp

theorem reg2_echo_cat_witness:
  "\<exists>kb'. my_write_reg2 uapi_plain [104, 105] 2 (replicate 100 0) = Some (2, kb') \<and>
     cat_loop (\<lambda>off. my_read_reg2 uapi_plain 1 off kb') (Suc (length (text_of kb'))) 0 =
       Some [104, 105]"
proof -
  have c: "fst (copy_from_user uapi_plain [104, 105] (min 2 99)) = 0" by (simp add: uapi_plain_def)
  have n: "nul_buf BUF_SIZE_100 (replicate 100 0)" by (simp add: nul_buf_replicate)
  have t: "text_of (take (min 2 99) [104, 105]) = [104, 105]" by (simp add: text_of_def)
  from reg2_echo_cat[OF uapi_plain_ok n c _ uapi_plain_nofault, of 1]
  show ?thesis unfolding t by (auto simp del: cat_loop.simps)
qed

text \<open>Any history of writes, with the user memory each of them saw.\<close>

fun writes_reg2 :: "(uapi \<times> byte list \<times> nat) list \<Rightarrow> byte list \<Rightarrow> byte list option" where
  "writes_reg2 [] kb = Some kb"
| "writes_reg2 ((K, u, len) # ws) kb =
     (case my_write_reg2 K u len kb of None \<Rightarrow> None | Some (r, kb') \<Rightarrow> writes_reg2 ws kb')"

lemma writes_reg2_good:
  "\<forall>w \<in> set ws. uapi_ok (fst w) \<Longrightarrow> nul_buf BUF_SIZE_100 kb \<Longrightarrow>
   \<exists>kb'. writes_reg2 ws kb = Some kb' \<and> nul_buf BUF_SIZE_100 kb'"
proof (induction ws arbitrary: kb)
  case (Cons w ws)
  obtain K u len where w: "w = (K, u, len)" by (cases w)
  with Cons.prems reg2_dev.wr_inv[of K kb u len] obtain r kb' where
    "my_write_reg2 K u len kb = Some (r, kb')" "nul_buf BUF_SIZE_100 kb'" by auto
  with Cons w show ?case by simp
qed simp

text \<open>Memory safety of \<open>chardev_register-2.c\<close>: after any sequence of writes from the
  zeroed buffer at load time, faulting ones included, neither the writes nor a read at any
  offset and of any length leaves the 100 bytes of \<open>kernel_buffer\<close>.\<close>

theorem reg2_memory_safe:
  assumes "\<forall>w \<in> set ws. uapi_ok (fst w)" and "uapi_ok K" and "0 \<le> off"
  shows "\<exists>kb. writes_reg2 ws (replicate BUF_SIZE_100 0) = Some kb \<and> my_read_reg2 K len off kb \<noteq> None"
proof -
  obtain kb where kb: "writes_reg2 ws (replicate BUF_SIZE_100 0) = Some kb" "nul_buf BUF_SIZE_100 kb"
    using writes_reg2_good[OF assms(1) nul_buf_replicate] by auto
  moreover have "my_read_reg2 K len off kb \<noteq> None"
    using reg2_dev.rd_defined[OF assms(2) kb(2) assms(3)] .
  ultimately show ?thesis by blast
qed

theorem reg2_memory_safe_witness:
  "\<exists>kb. writes_reg2 [(uapi_plain, replicate 200 7, 200)] (replicate 100 0) = Some kb \<and>
        my_read_reg2 uapi_plain 4096 3 kb \<noteq> None"
  using reg2_memory_safe[of "[(uapi_plain, replicate 200 7, 200)]" uapi_plain 3 4096]
    uapi_plain_ok by simp

text \<open>The four minors of \<open>char_cdev-3.c\<close> are independent devices: writing minor \<open>m\<close>
  and reading it to the end gives back the text of the first 99 bytes, and the buffers of
  the other minors are unchanged.\<close>

theorem cdev3_minor_isolation:
  assumes "uapi_ok K" and "good_cdev3 kbs" and "m < NUM_DEVICES"
    and "fst (copy_from_user K u (min len 99)) = 0" and "0 < n" and "uapi_nofault K'"
  shows "\<exists>kbs'. my_write_cdev3 m K u len kbs = Some (int (min len 99), kbs') \<and> good_cdev3 kbs' \<and>
           (\<forall>m' \<noteq> m. kbs' ! m' = kbs ! m') \<and>
           cat_loop (\<lambda>off. my_read_cdev3 m K' n off kbs') (Suc (length (text_of (kbs' ! m)))) 0 =
             Some (text_of (take (min len 99) u))"
proof -
  obtain kbs' where w: "my_write_cdev3 m K u len kbs = Some (int (min len 99), kbs')" "good_cdev3 kbs'"
    "cat_loop (\<lambda>off. my_read_cdev3 m K' n off kbs') (Suc (length (text_of (kbs' ! m)))) 0 =
       Some (text_of (take (min len 99) u))"
    using cdev3_dev.echo_cat[of K m kbs u len n K'] assms by auto
  moreover have "\<forall>m' \<noteq> m. kbs' ! m' = kbs ! m'"
    using w(1) assms(2,3) by (auto simp: my_write_cdev3_text good_cdev3_def)
  ultimately show ?thesis by blast
qed

theorem cdev3_minor_isolation_witness:
  "\<exists>kbs'. my_write_cdev3 2 uapi_plain [72, 105] 2 (replicate 4 (replicate 100 0)) = Some (2, kbs') \<and>
     kbs' ! 1 = replicate 100 0 \<and>
     cat_loop (\<lambda>off. my_read_cdev3 2 uapi_plain 64 off kbs') (Suc (length (text_of (kbs' ! 2)))) 0 =
       Some [72, 105]"
proof -
  have g: "good_cdev3 (replicate 4 (replicate 100 0))"
    by (simp add: good_cdev3_def nul_buf_replicate)
  have c: "fst (copy_from_user uapi_plain [72, 105] (min 2 99)) = 0" by (simp add: uapi_plain_def)
  have t: "text_of (take (min 2 99) [72, 105]) = [72, 105]" by (simp add: text_of_def)
  have o: "replicate 4 (replicate 100 0) ! 1 = replicate 100 (0 :: byte)" by simp
  from cdev3_minor_isolation[OF uapi_plain_ok g _ c _ uapi_plain_nofault, of 2 64]
  obtain kbs' where
    w: "my_write_cdev3 2 uapi_plain [72, 105] 2 (replicate 4 (replicate 100 0)) = Some (int (min 2 99), kbs')"
    and i: "\<forall>m' \<noteq> 2. kbs' ! m' = replicate 4 (replicate 100 0) ! m'"
    and r: "cat_loop (\<lambda>off. my_read_cdev3 2 uapi_plain 64 off kbs') (Suc (length (text_of (kbs' ! 2)))) 0 =
       Some [72, 105]"
    unfolding t by (auto simp del: cat_loop.simps)
  from i o have "kbs' ! 1 = replicate 100 0" by (metis one_eq_numeral_iff semiring_norm(85))
  with w r show ?thesis by (auto simp del: cat_loop.simps)
qed

text \<open>\<open>char_cdev-1.c\<close> and \<open>char_cdev-2.c\<close> keep no room for the terminator: 100 or
  more bytes without a NUL fill \<open>kernel_buffer\<close>, and printing it with \<open>%s\<close>
  leaves the array, in both drivers.\<close>

theorem cdev12_write_overread:
  assumes "uapi_ok K" and "length kb = BUF_SIZE_100" and "BUF_SIZE_100 \<le> len"
    and "fst (copy_from_user K u BUF_SIZE_100) = 0" and "0 \<notin> set (take BUF_SIZE_100 u)"
  shows "my_write_cdev1 K u len kb = None" and "my_write_cdev2 K u len kb = None"
proof -
  have len: "(if len > BUF_SIZE_100 then BUF_SIZE_100 else len) = BUF_SIZE_100"
    using assms(3) by simp
  have c: "copy_from_user K u BUF_SIZE_100 = (0, take BUF_SIZE_100 u)"
    using assms(4) cfu_data[OF assms(1,4)] by (metis prod.collapse)
  have "length (take BUF_SIZE_100 u) = BUF_SIZE_100"
    using cfu_length[OF assms(1), of u BUF_SIZE_100] c by simp
  then have "c_store kb 0 (take BUF_SIZE_100 u) = Some (take BUF_SIZE_100 u)"
    using assms(2) by (simp add: c_store_def)
  then show "my_write_cdev1 K u len kb = None" and "my_write_cdev2 K u len kb = None"
    using c assms(5) unfolding my_write_cdev1_def my_write_cdev2_def len
    by (simp_all add: c_string_def)
qed

theorem cdev12_write_overread_witness:
  "my_write_cdev1 uapi_plain (replicate 100 65) 100 (replicate 100 0) = None \<and>
   my_write_cdev2 uapi_plain (replicate 128 65) 128 (replicate 100 0) = None"
  using cdev12_write_overread(1)[OF uapi_plain_ok, of "replicate 100 0" 100 "replicate 100 65"]
    cdev12_write_overread(2)[OF uapi_plain_ok, of "replicate 100 0" 128 "replicate 128 65"]
  by (simp add: uapi_plain_def)

lemma my_read_cdev2_eq: "my_read_cdev2 = my_read_cdev1"
  by (simp add: fun_eq_iff my_read_cdev1_def my_read_cdev2_def)

text \<open>The \<open>read\<close> of \<open>char_cdev-1.c\<close> and \<open>-2.c\<close> uses \<open>*off\<close> only to detect the end:
  at any offset inside the text it delivers the start of the buffer again, so reading to
  the end with a buffer smaller than the text repeats its beginning.\<close>

theorem cdev12_read_restarts:
  assumes "nul_buf BUF_SIZE_100 kb" and "uapi_nofault K" and "0 \<le> off"
    and "off < int (length (text_of kb))"
  shows "my_read_cdev1 K len off kb =
           Some (int (min len (length (text_of kb))), take len (text_of kb),
                 off + int (min len (length (text_of kb)))) \<and>
         my_read_cdev2 K len off kb = my_read_cdev1 K len off kb"
proof -
  have "c_slice kb 0 (min len (length (text_of kb))) =
      Some (take (min len (length (text_of kb))) (text_of kb))"
    using nul_buf_slice[OF assms(1), of 0 "min len (length (text_of kb))"] by simp
  moreover have "(if len > length (text_of kb) then length (text_of kb) else len) =
      min len (length (text_of kb))" by auto
  moreover have "take (min len (length (text_of kb))) (text_of kb) = take len (text_of kb)"
    by (simp add: min_def)
  ultimately show ?thesis
    using assms by (simp add: my_read_cdev1_def my_read_cdev2_eq nul_buf_strlen nofault_ctu
        min.commute Let_def)
qed

theorem cdev12_read_restarts_witness:
  "my_read_cdev1 uapi_plain 2 2 ([97, 98, 99, 100] @ replicate 96 0) = Some (2, [97, 98], 4)"
  using cdev12_read_restarts[of "[97, 98, 99, 100] @ replicate 96 0" uapi_plain 2 2]
    uapi_plain_nofault
  by (simp add: nul_buf_def text_of_def nth_append)

text \<open>C35. The \<open>init\<close> of \<open>char_cdev-3.c\<close>: whatever the kernel answers, it either returns 0
  with the region, the cdev, the class and all four devices held, or gives back everything
  it took.\<close>

theorem cdev3_init_all_or_nothing:
  assumes "kenv_ok env" and "run_state (my_init_cdev3 env) [] = (r, h)"
  shows "(r = Some 0 \<and> replay [] h = Some (devs_cdev3 NUM_DEVICES)) \<or>
         (r \<noteq> Some 0 \<and> replay [] h = Some [])"
  using init_cdev3_run[OF assms(1) _ assms(2)] by simp

theorem cdev3_init_all_or_nothing_witness:
  "replay [] (snd (run_state (my_init_cdev3 (kenv_fail (Dev (Device_create 2 ''mychar'')) (- 12))) [])) =
   Some []"
proof -
  let ?env = "kenv_fail (Dev (Device_create 2 ''mychar'')) (- 12)"
  have ok: "kenv_ok ?env" by (rule kenv_fail_ok) simp
  have "fst (run_state (my_init_cdev3 ?env) []) = None" by code_simp
  with cdev3_init_all_or_nothing[OF ok surjective_pairing] show ?thesis by (metis option.distinct(1))
qed

text \<open>The value \<open>char_cdev-3.c\<close> returns when a \<open>device_create\<close> fails is read at index
  -1 of \<open>my_device\<close>: the cleanup loop has run \<open>i\<close> below 0.\<close>

theorem cdev3_init_bad_return:
  assumes "e < 0" and "i < NUM_DEVICES"
  shows "fst (run_state (my_init_cdev3 (kenv_fail (Dev (Device_create i ''mychar'')) e)) []) = None"
proof -
  have "i = 0 \<or> i = 1 \<or> i = 2 \<or> i = 3" using assms(2) by auto
  with assms(1) show ?thesis
    by (elim disjE)
      (simp_all add: my_init_cdev3_def kenv_fail_def kenv_good_def c_index_def Let_def
        eval_nat_numeral)
qed

theorem cdev3_init_bad_return_witness:
  "fst (run_state (my_init_cdev3 (kenv_fail (Dev (Device_create 0 ''mychar'')) (- 12))) []) = None"
  by (rule cdev3_init_bad_return) simp_all

end
