(* ===== verification/CharDevices.thy ===== *)
theory CharDevices
  imports Kapi CharIface
begin

text \<open>
  \<open>5.char_cdev_container+file\<close> (suffix \<open>cont\<close>): four devices in an array of structs, found
  from the inode by \<open>container_of\<close> and kept in \<open>file->private_data\<close>; and
  \<open>6.char_cdev_ioctl\<close> (suffix \<open>ioctl\<close>): a configuration record set and read by \<open>ioctl\<close>,
  with its user program.
\<close>

section \<open>An array of devices\<close>

abbreviation MINOR_DEVICES :: nat where "MINOR_DEVICES \<equiv> 4"

record my_device =
  buffer :: "byte list"
  data_size :: int
  dev_id :: int

text \<open>
  Addresses relative to \<open>devices\<close>: the structs lie \<open>stride\<close> bytes apart, a positive number
  that depends on the kernel's \<open>struct cdev\<close>, which is the first member.
\<close>

definition cdev_addr :: "int \<Rightarrow> nat \<Rightarrow> int" where
  "cdev_addr stride i = int i * stride"

definition container_of_cdev :: "int \<Rightarrow> int" where
  "container_of_cdev p = p - 0"

text \<open>The element a \<open>struct my_device *\<close> points to; \<open>None\<close> for any other address.\<close>

definition deref_dev :: "int \<Rightarrow> int \<Rightarrow> my_device list \<Rightarrow> nat option" where
  "deref_dev stride p devices =
     (if 0 \<le> p \<and> p mod stride = 0 \<and> nat (p div stride) < length devices
      then Some (nat (p div stride)) else None)"

text \<open>The value returned and \<open>file->private_data\<close>; the message reads \<open>dev->id\<close>.\<close>

definition my_open_cont :: "int \<Rightarrow> int \<Rightarrow> my_device list \<Rightarrow> (int \<times> int) option" where
  "my_open_cont stride i_cdev devices = do {
     let dev = container_of_cdev i_cdev;
     _ \<leftarrow> deref_dev stride dev devices;
     Some (0, dev)
   }"

definition my_release_cont :: "int \<Rightarrow> int \<Rightarrow> my_device list \<Rightarrow> int option" where
  "my_release_cont stride private_data devices = do {
     _ \<leftarrow> deref_dev stride private_data devices;
     Some 0
   }"

definition my_write_cont ::
    "int \<Rightarrow> int \<Rightarrow> uapi \<Rightarrow> byte list \<Rightarrow> nat \<Rightarrow> my_device list \<Rightarrow> (int \<times> my_device list) option" where
  "my_write_cont stride private_data K ubuf len devices = do {
     i \<leftarrow> deref_dev stride private_data devices;
     let dev = devices ! i;
     let len = (if len > length (buffer dev) then length (buffer dev) else len);
     let (left, bs) = copy_from_user K ubuf len;
     buf \<leftarrow> c_store (buffer dev) 0 bs;
     if left \<noteq> 0 then Some (- EFAULT, devices[i := dev\<lparr>buffer := buf\<rparr>])
     else Some (int len, devices[i := dev\<lparr>buffer := buf, data_size := int len\<rparr>])
   }"

definition my_read_cont ::
    "int \<Rightarrow> int \<Rightarrow> uapi \<Rightarrow> nat \<Rightarrow> int \<Rightarrow> my_device list \<Rightarrow> read_result" where
  "my_read_cont stride private_data K len off devices = do {
     i \<leftarrow> deref_dev stride private_data devices;
     let dev = devices ! i;
     if off \<ge> data_size dev then Some (0, [], off)
     else do {
       let len = (if int len > data_size dev - off then nat (data_size dev - off) else len);
       src \<leftarrow> c_slice (buffer dev) off len;
       let (left, out) = copy_to_user K src;
       if left \<noteq> 0 then Some (- EFAULT, out, off)
       else Some (int len, out, off + int len)
     }
   }"

text \<open>The loops of \<open>init\<close> and \<open>exit\<close>: \<open>n\<close> devices are left, \<open>i\<close> is the next one.\<close>

primrec setup_loop_cont :: "kenv \<Rightarrow> nat \<Rightarrow> nat \<Rightarrow> my_device list \<Rightarrow> my_device list kprog" where
  "setup_loop_cont env 0 i devices = kret devices"
| "setup_loop_cont env (Suc n) i devices = do {
     let devices = devices[i := (devices ! i)\<lparr>dev_id := int i\<rparr>];
     _ \<leftarrow> kcall env (Chr (Cdev_init i));
     _ \<leftarrow> kcall env (Chr (Cdev_add i i 1));
     _ \<leftarrow> kcall env (Dev (Device_create i ''mychar''));
     setup_loop_cont env n (Suc i) devices
   }"

definition my_init_cont :: "kenv \<Rightarrow> my_device list \<Rightarrow> (int \<times> my_device list) kprog" where
  "my_init_cont env devices = do {
     _ \<leftarrow> kcall env (Chr (Alloc_chrdev_region 0 MINOR_DEVICES ''mychar''));
     _ \<leftarrow> kcall env (Dev (Class_create ''mychar''));
     devices \<leftarrow> setup_loop_cont env MINOR_DEVICES 0 devices;
     kret (0, devices)
   }"

primrec teardown_loop_cont :: "kenv \<Rightarrow> nat \<Rightarrow> nat \<Rightarrow> unit kprog" where
  "teardown_loop_cont env 0 i = kret ()"
| "teardown_loop_cont env (Suc n) i = do {
     _ \<leftarrow> kcall env (Dev (Device_destroy i));
     _ \<leftarrow> kcall env (Chr (Cdev_del i));
     teardown_loop_cont env n (Suc i)
   }"

definition my_exit_cont :: "kenv \<Rightarrow> unit kprog" where
  "my_exit_cont env = do {
     _ \<leftarrow> teardown_loop_cont env MINOR_DEVICES 0;
     _ \<leftarrow> kcall env (Dev Class_destroy);
     _ \<leftarrow> kcall env (Chr (Unregister_chrdev_region MINOR_DEVICES));
     kret ()
   }"

text \<open>The static array at load time.\<close>

definition devices_zero :: "my_device list" where
  "devices_zero = replicate MINOR_DEVICES \<lparr>buffer = replicate 100 0, data_size = 0, dev_id = 0\<rparr>"

subsection \<open>Invariant and contracts\<close>

definition good_dev :: "my_device \<Rightarrow> bool" where
  "good_dev d \<longleftrightarrow> length (buffer d) = 100 \<and> 0 \<le> data_size d \<and> data_size d \<le> 100"

definition good_cont :: "my_device list \<Rightarrow> bool" where
  "good_cont ds \<longleftrightarrow> length ds = MINOR_DEVICES \<and> (\<forall>d \<in> set ds. good_dev d)"

definition stored :: "my_device \<Rightarrow> byte list" where
  "stored d = take (nat (data_size d)) (buffer d)"

lemma deref_cdev [simp]:
  "0 < stride \<Longrightarrow> deref_dev stride (cdev_addr stride m) ds = (if m < length ds then Some m else None)"
  by (simp add: deref_dev_def cdev_addr_def)

lemma good_cont_row: "good_cont ds \<Longrightarrow> m < MINOR_DEVICES \<Longrightarrow> good_dev (ds ! m)"
  by (simp add: good_cont_def)

lemma good_cont_update: "good_cont ds \<Longrightarrow> good_dev d \<Longrightarrow> good_cont (ds[m := d])"
  by (auto simp: good_cont_def dest!: subsetD [OF set_update_subset_insert])

lemma good_cont_zero: "good_cont devices_zero"
  by (auto simp: good_cont_def devices_zero_def good_dev_def)

lemma stored_length: "good_dev d \<Longrightarrow> length (stored d) = nat (data_size d)"
  by (auto simp: stored_def good_dev_def)

lemma stored_slice: "good_dev d \<Longrightarrow> slice_ok (stored d) (c_slice (buffer d))"
  by (auto simp: slice_ok_def stored_def good_dev_def c_slice_def drop_take min_def)

lemma my_read_cont_offset:
  assumes "0 < stride" and "m < MINOR_DEVICES" and "good_cont ds"
  shows "my_read_cont stride (cdev_addr stride m) K len off ds =
         offset_read K len off (length (stored (ds ! m))) (c_slice (buffer (ds ! m)))"
proof -
  have g: "good_dev (ds ! m)" using good_cont_row assms by simp
  then have sz: "int (length (stored (ds ! m))) = data_size (ds ! m)"
    by (simp add: stored_length good_dev_def)
  have "m < length ds" using assms by (simp add: good_cont_def)
  then show ?thesis using assms(1) unfolding offset_read_def Let_def sz
    by (simp add: my_read_cont_def Let_def)
qed

interpretation cont_dev: text_device "\<lambda>ds. stored (ds ! m)"
  "\<lambda>ds. 0 < stride \<and> m < MINOR_DEVICES \<and> good_cont ds" "my_read_cont stride (cdev_addr stride m)"
  "my_write_cont stride (cdev_addr stride m)" 100 "\<lambda>bs. bs"
  for m stride
proof (intro text_device.intro offset_readerI text_device_axioms.intro)
  fix ds :: "my_device list" and K :: uapi and len off
  assume "0 < stride \<and> m < MINOR_DEVICES \<and> good_cont ds"
  then show "my_read_cont stride (cdev_addr stride m) K len off ds =
      offset_read K len off (length (stored (ds ! m))) (c_slice (buffer (ds ! m)))"
    and "slice_ok (stored (ds ! m)) (c_slice (buffer (ds ! m)))"
    by (simp_all add: my_read_cont_offset stored_slice good_cont_row)
next
  fix ds :: "my_device list" and K :: uapi and u len bs
  assume g: "0 < stride \<and> m < MINOR_DEVICES \<and> good_cont ds"
    and c: "copy_from_user K u (min len 100) = (0, bs)" and l: "length bs = min len 100"
  then have d: "good_dev (ds ! m)" and m: "m < length ds"
    by (simp_all add: good_cont_row good_cont_def)
  let ?d = "(ds ! m)\<lparr>buffer := bs @ drop (length bs) (buffer (ds ! m)), data_size := int (min len 100)\<rparr>"
  have lb: "length (buffer (ds ! m)) = 100" using d by (simp add: good_dev_def)
  have "my_write_cont stride (cdev_addr stride m) K u len ds =
      Some (int (min len 100), ds[m := ?d])"
    using g m c l
    by (cases "100 < len") (simp_all add: my_write_cont_def Let_def lb c_store_def min_def)
  moreover have "good_dev ?d" and "stored ?d = bs"
    using d l by (simp_all add: good_dev_def stored_def)
  ultimately show "\<exists>s'. my_write_cont stride (cdev_addr stride m) K u len ds =
      Some (int (min len 100), s') \<and> (0 < stride \<and> m < MINOR_DEVICES \<and> good_cont s') \<and>
      stored (s' ! m) = bs"
    using g m good_cont_update by auto
next
  fix ds :: "my_device list" and K :: uapi and u len bs k
  assume g: "0 < stride \<and> m < MINOR_DEVICES \<and> good_cont ds"
    and c: "copy_from_user K u (min len 100) = (Suc k, bs)" and l: "length bs = min len 100"
  then have d: "good_dev (ds ! m)" and m: "m < length ds"
    by (simp_all add: good_cont_row good_cont_def)
  let ?d = "(ds ! m)\<lparr>buffer := bs @ drop (length bs) (buffer (ds ! m))\<rparr>"
  have lb: "length (buffer (ds ! m)) = 100" using d by (simp add: good_dev_def)
  have "my_write_cont stride (cdev_addr stride m) K u len ds = Some (- EFAULT, ds[m := ?d])"
    using g m c l
    by (cases "100 < len") (simp_all add: my_write_cont_def Let_def lb c_store_def min_def)
  moreover have "good_dev ?d" using d l by (simp add: good_dev_def)
  ultimately show "\<exists>s'. my_write_cont stride (cdev_addr stride m) K u len ds =
      Some (- EFAULT, s') \<and> (0 < stride \<and> m < MINOR_DEVICES \<and> good_cont s')"
    using g good_cont_update by auto
qed

text \<open>The resources of the first \<open>i\<close> devices.\<close>

fun devs_cont :: "nat \<Rightarrow> res list" where
  "devs_cont 0 = [Class, Region]"
| "devs_cont (Suc i) = Device i # Cdev i # devs_cont i"

lemma devs_cont_set:
  "set (devs_cont i) = {Class, Region} \<union> Device ` {..<i} \<union> Cdev ` {..<i}"
  by (induction i) (auto simp: lessThan_Suc)

text \<open>Everything the loop of \<open>init\<close> asks for and does not check.\<close>

definition ignored_cont :: "kop list" where
  "ignored_cont = Chr (Alloc_chrdev_region 0 MINOR_DEVICES ''mychar'') # Dev (Class_create ''mychar'') #
     concat (map (\<lambda>i. [Chr (Cdev_add i i 1), Dev (Device_create i ''mychar'')]) [0..<MINOR_DEVICES])"

interpretation cont: lifecycle_on "\<lambda>env. do { rd \<leftarrow> my_init_cont env devices_zero; kret (fst rd) }"
  my_exit_cont "devs_cont MINOR_DEVICES" ignored_cont
  by unfold_locales
    (auto simp: my_init_cont_def my_exit_cont_def ignored_cont_def kenv_rules eval_nat_numeral
      Let_def split: if_splits)

section \<open>A configuration by ioctl\<close>

text \<open>\<open>struct my_cfg\<close> and its 40 bytes; \<open>name\<close> has 32 of them.\<close>

record my_cfg =
  cfg_id :: "32 word"
  cfg_speed :: "32 word"
  cfg_name :: "byte list"

definition cfg_bytes :: "my_cfg \<Rightarrow> byte list" where
  "cfg_bytes c = le32 (cfg_id c) @ le32 (cfg_speed c) @ cfg_name c"

definition bytes_cfg :: "byte list \<Rightarrow> my_cfg" where
  "bytes_cfg bs = \<lparr>cfg_id = of_le32 (take 4 bs), cfg_speed = of_le32 (take 4 (drop 4 bs)),
     cfg_name = drop 8 bs\<rparr>"

abbreviation CFG_SIZE :: nat where "CFG_SIZE \<equiv> 40"

definition my_read_ioctl :: "nat \<Rightarrow> int" where
  "my_read_ioctl len = 0"

definition my_write_ioctl :: "nat \<Rightarrow> int" where
  "my_write_ioctl len = int len"

text \<open>
  The command codes come from the kernel's \<open>_IOW\<close> and \<open>_IOR\<close>: parameters. The result is
  the value returned, what reached the user, and the global \<open>my_cfg\<close>; both commands print
  the name as a string.
\<close>

definition my_ioctl :: "32 word \<Rightarrow> 32 word \<Rightarrow> uapi \<Rightarrow> 32 word \<Rightarrow> byte list \<Rightarrow> my_cfg \<Rightarrow>
    (int \<times> byte list \<times> my_cfg) option" where
  "my_ioctl SET_VALUE GET_VALUE K cmd arg cfg =
     (if cmd = SET_VALUE then
        (let (left, bs) = copy_from_user K arg CFG_SIZE; cfg = bytes_cfg bs
         in if left \<noteq> 0 then Some (- EFAULT, [], cfg)
            else do { _ \<leftarrow> c_string (cfg_name cfg); Some (0, [], cfg) })
      else if cmd = GET_VALUE then
        (let (left, out) = copy_to_user K (cfg_bytes cfg)
         in if left \<noteq> 0 then Some (- EFAULT, out, cfg)
            else do { _ \<leftarrow> c_string (cfg_name cfg); Some (0, out, cfg) })
      else Some (- EINVAL, [], cfg))"

text \<open>\<open>init\<close>, which does not look at what \<open>device_create\<close> returns.\<close>

definition my_init_ioctl :: "kenv \<Rightarrow> int kprog" where
  "my_init_ioctl env = do {
     ret \<leftarrow> kcall env (Chr (Alloc_chrdev_region 0 1 ''mychar''));
     if ret \<noteq> 0 then kret ret
     else do {
       _ \<leftarrow> kcall env (Chr (Cdev_init 0));
       ret \<leftarrow> kcall env (Chr (Cdev_add 0 0 1));
       if ret \<noteq> 0 then do {
         _ \<leftarrow> kcall env (Chr (Unregister_chrdev_region 1));
         kret ret
       }
       else do {
         my_class \<leftarrow> kcall env (Dev (Class_create ''mychar_class''));
         if IS_ERR my_class then do {
           _ \<leftarrow> kcall env (Chr (Cdev_del 0));
           _ \<leftarrow> kcall env (Chr (Unregister_chrdev_region 1));
           kret my_class
         }
         else do {
           _ \<leftarrow> kcall env (Dev (Device_create 0 ''mychar0''));
           kret 0
         }
       }
     }
   }"

definition my_exit_ioctl :: "kenv \<Rightarrow> unit kprog" where
  "my_exit_ioctl env = do {
     _ \<leftarrow> kcall env (Dev (Device_destroy 0));
     _ \<leftarrow> kcall env (Dev Class_destroy);
     _ \<leftarrow> kcall env (Chr (Cdev_del 0));
     _ \<leftarrow> kcall env (Chr (Unregister_chrdev_region 1));
     kret ()
   }"

interpretation ioctl: lifecycle_on my_init_ioctl my_exit_ioctl "[Device 0, Class, Cdev 0, Region]"
  "[Dev (Device_create 0 ''mychar0'')]"
  by unfold_locales
    (auto simp: my_init_ioctl_def my_exit_ioctl_def kenv_rules split: if_splits)

subsection \<open>The user program\<close>

definition user_cfg :: my_cfg where
  "user_cfg = \<lparr>cfg_id = 7, cfg_speed = 100,
     cfg_name = bytes_of ''My Name is siraj'' @ replicate 16 0\<rparr>"

text \<open>
  \<open>main\<close>: the exit code, the line printed (id, speed, name) and the driver's record. The
  results of both ioctls are ignored; what \<open>GET_VALUE\<close> did not copy stays as it was.
\<close>

definition main_ioctl :: "32 word \<Rightarrow> 32 word \<Rightarrow> uapi \<Rightarrow> int \<Rightarrow> my_cfg \<Rightarrow>
    (int \<times> (int \<times> int \<times> byte list) option \<times> my_cfg) option" where
  "main_ioctl SET_VALUE GET_VALUE K fd cfg =
     (if fd < 0 then Some (- 1, None, cfg)
      else do {
        let mem = cfg_bytes user_cfg;
        (ret, out, cfg) \<leftarrow> my_ioctl SET_VALUE GET_VALUE K SET_VALUE mem cfg;
        (ret, out, cfg) \<leftarrow> my_ioctl SET_VALUE GET_VALUE K GET_VALUE mem cfg;
        let mem = bytes_cfg (out @ drop (length out) mem);
        name \<leftarrow> c_string (cfg_name mem);
        Some (0, Some (sint (cfg_id mem), sint (cfg_speed mem), name), cfg)
      })"

lemma cfg_bytes_length: "length (cfg_name c) = 32 \<Longrightarrow> length (cfg_bytes c) = CFG_SIZE"
  by (simp add: cfg_bytes_def)

lemma bytes_cfg_cfg_bytes: "bytes_cfg (cfg_bytes c) = c"
  by (simp add: bytes_cfg_def cfg_bytes_def carray)

lemma ioctl_set_get:
  assumes "uapi_nofault K" and "fst (copy_from_user K (cfg_bytes c) CFG_SIZE) = 0"
    and "length (cfg_name c) = 32" and "0 \<in> set (cfg_name c)" and "SET \<noteq> GET"
  shows "my_ioctl SET GET K SET (cfg_bytes c) old = Some (0, [], c)"
    and "my_ioctl SET GET K GET arg c = Some (0, cfg_bytes c, c)"
proof -
  obtain left bs where c: "copy_from_user K (cfg_bytes c) CFG_SIZE = (left, bs)" by fastforce
  with assms have "left = 0" "bs = cfg_bytes c"
    using cfu_data[OF uapi_nofault_ok[OF assms(1)] assms(2)] cfg_bytes_length[of c] by simp_all
  with c assms(4) show "my_ioctl SET GET K SET (cfg_bytes c) old = Some (0, [], c)"
    by (simp add: my_ioctl_def bytes_cfg_cfg_bytes c_string_def)
  show "my_ioctl SET GET K GET arg c = Some (0, cfg_bytes c, c)"
    using assms by (simp add: my_ioctl_def nofault_ctu c_string_def)
qed

section \<open>Properties\<close>

text \<open>\<open>5.char_cdev_container+file\<close>: opening minor \<open>m\<close> finds the struct of that minor from
  its cdev; what is then written through \<open>file->private_data\<close> (up to 100 bytes, NUL bytes
  included) is what reading to the end through the same file delivers, and the other
  devices keep their contents.\<close>

theorem cont_open_write_read:
  assumes "0 < stride" and "m < MINOR_DEVICES" and "good_cont ds"
    and "uapi_ok K" and "fst (copy_from_user K u (min len 100)) = 0" and "0 < n" and "uapi_nofault K'"
  shows "\<exists>p ds'. my_open_cont stride (cdev_addr stride m) ds = Some (0, p) \<and>
     my_write_cont stride p K u len ds = Some (int (min len 100), ds') \<and> good_cont ds' \<and>
     (\<forall>m' \<noteq> m. ds' ! m' = ds ! m') \<and>
     cat_loop (\<lambda>off. my_read_cont stride p K' n off ds') (Suc (length (stored (ds' ! m)))) 0 =
       Some (take (min len 100) u) \<and>
     my_release_cont stride p ds' = Some 0"
proof -
  let ?p = "cdev_addr stride m"
  have l: "m < length ds" using assms(2,3) by (simp add: good_cont_def)
  obtain ds' where w: "my_write_cont stride ?p K u len ds = Some (int (min len 100), ds')" "good_cont ds'"
    "cat_loop (\<lambda>off. my_read_cont stride ?p K' n off ds') (Suc (length (stored (ds' ! m)))) 0 =
       Some (take (min len 100) u)"
    using cont_dev.echo_cat[of K stride m ds u len n K'] assms by auto
  have o: "my_open_cont stride ?p ds = Some (0, ?p)"
    using assms(1) l by (simp add: my_open_cont_def container_of_cdev_def)
  have i: "\<forall>m' \<noteq> m. ds' ! m' = ds ! m'"
    using w(1) assms(1) l
    by (auto simp: my_write_cont_def Let_def split: prod.splits Option.bind_splits if_splits)
  have r: "my_release_cont stride ?p ds' = Some 0"
    using w(2) assms(1,2) by (simp add: my_release_cont_def good_cont_def)
  from w o i r show ?thesis by blast
qed

theorem cont_open_write_read_witness:
  "\<exists>p ds'. my_open_cont 216 432 devices_zero = Some (0, p) \<and>
     my_write_cont 216 p uapi_plain [1, 0, 2] 3 devices_zero = Some (3, ds') \<and> ds' ! 3 = devices_zero ! 3"
proof -
  have c: "fst (copy_from_user uapi_plain [1, 0, 2] (min 3 100)) = 0" by (simp add: uapi_plain_def)
  from cont_open_write_read[OF _ _ good_cont_zero uapi_plain_ok c _ uapi_plain_nofault, of 216 2 1]
  show ?thesis by (fastforce simp: cdev_addr_def simp del: cat_loop.simps)
qed

text \<open>The \<open>init\<close> of \<open>5.char_cdev_container+file\<close> checks nothing and returns 0 whatever
  happens; if the class could not be created it goes on to create devices in it.\<close>

theorem cont_init_unchecked:
  assumes "\<And>i. env i (Dev (Class_create ''mychar'')) < 0"
  shows "fst (fst (run_state (my_init_cont env ds) [])) = 0 \<and>
         replay [] (snd (run_state (my_init_cont env ds) [])) = None"
proof -
  have "\<not> env 1 (Dev (Class_create ''mychar'')) > 0" using assms[of 1] by simp
  then show ?thesis
    by (simp add: my_init_cont_def eval_nat_numeral Let_def split: if_splits)
qed

theorem cont_init_unchecked_witness:
  "replay [] (snd (run_state (my_init_cont (kenv_fail (Dev (Class_create ''mychar'')) (- 12))
     devices_zero) [])) = None"
  using cont_init_unchecked[of "kenv_fail (Dev (Class_create ''mychar'')) (- 12)" devices_zero]
  by (simp add: kenv_fail_def)

text \<open>C36. \<open>6.char_cdev_ioctl\<close>: a configuration with a terminated name that is set and read
  back is the same 40 bytes, and the user program of the repository prints the id, speed
  and name it set.\<close>

theorem ioctl_set_get_roundtrip:
  assumes "uapi_nofault K" and "SET \<noteq> GET"
    and "\<And>c. length (cfg_name c) = 32 \<Longrightarrow> fst (copy_from_user K (cfg_bytes c) CFG_SIZE) = 0"
  shows "main_ioctl SET GET K 3 old = Some (0, Some (7, 100, bytes_of ''My Name is siraj''), user_cfg) \<and>
     (length (cfg_name c) = 32 \<and> 0 \<in> set (cfg_name c) \<longrightarrow>
       my_ioctl SET GET K SET (cfg_bytes c) old = Some (0, [], c) \<and>
       my_ioctl SET GET K GET arg c = Some (0, cfg_bytes c, c))"
proof
  have u: "length (cfg_name user_cfg) = 32" "0 \<in> set (cfg_name user_cfg)"
    by (simp_all add: user_cfg_def bytes_of_def)
  note sg = ioctl_set_get[OF assms(1) assms(3)[OF u(1)] u assms(2)]
  have "c_string (cfg_name user_cfg) = Some (bytes_of ''My Name is siraj'')"
    by (simp add: user_cfg_def c_string_def bytes_of_def)
  then show "main_ioctl SET GET K 3 old = Some (0, Some (7, 100, bytes_of ''My Name is siraj''), user_cfg)"
    by (simp add: main_ioctl_def sg bytes_cfg_cfg_bytes Let_def) (simp add: user_cfg_def)
  show "length (cfg_name c) = 32 \<and> 0 \<in> set (cfg_name c) \<longrightarrow>
      my_ioctl SET GET K SET (cfg_bytes c) old = Some (0, [], c) \<and>
      my_ioctl SET GET K GET arg c = Some (0, cfg_bytes c, c)"
    using ioctl_set_get[OF assms(1) assms(3) _ _ assms(2)] by blast
qed

theorem ioctl_set_get_roundtrip_witness:
  "main_ioctl 0x40284101 0x80284102 uapi_plain 3 user_cfg =
     Some (0, Some (7, 100, bytes_of ''My Name is siraj''), user_cfg)"
proof -
  have c: "fst (copy_from_user uapi_plain (cfg_bytes c) CFG_SIZE) = 0"
    if "length (cfg_name c) = 32" for c
    using cfg_bytes_length[OF that] by (simp add: uapi_plain_def)
  have ne: "(0x40284101 :: 32 word) \<noteq> 0x80284102" by simp
  from ioctl_set_get_roundtrip[OF uapi_plain_nofault ne c] show ?thesis by blast
qed

text \<open>\<open>6.char_cdev_ioctl\<close> prints the name the user passed without making sure it ends:
  a name of 32 bytes without a NUL makes \<open>SET_VALUE\<close> read past the record; an unknown
  command changes nothing and returns \<open>-EINVAL\<close>.\<close>

theorem ioctl_unterminated_name:
  assumes "uapi_ok K" and "fst (copy_from_user K u CFG_SIZE) = 0"
    and "0 \<notin> set (drop 8 (take CFG_SIZE u))" and "cmd \<noteq> SET" and "cmd \<noteq> GET"
  shows "my_ioctl SET GET K SET u old = None \<and> my_ioctl SET GET K cmd u old = Some (- EINVAL, [], old)"
proof -
  have "copy_from_user K u CFG_SIZE = (0, take CFG_SIZE u)"
    using assms(2) cfu_data[OF assms(1,2)] by (metis prod.collapse)
  with assms(3-5) show ?thesis by (simp add: my_ioctl_def bytes_cfg_def c_string_def)
qed

theorem ioctl_unterminated_name_witness:
  "my_ioctl 1 2 uapi_plain 1 (replicate 40 65) old = None"
  using ioctl_unterminated_name[OF uapi_plain_ok, of "replicate 40 65" 3 1 2 old]
  by (simp add: uapi_plain_def)

end
