(* ===== verification/WaitQueue.thy ===== *)
theory WaitQueue
  imports Kapi CharIface
begin

text \<open>
  The drivers that hand one message from a writer to a reader: \<open>7.char_cdev_waiting_queue\<close>,
  \<open>8.char_cdev_poll_select_epoll\<close>, \<open>9.char_cdev_wake_up_interruptible_nr\<close> and
  \<open>10.Blocking_Read_Driver\<close> (suffixes \<open>wq7\<close> to \<open>wq10\<close>). Their state is the buffer and the
  flag \<open>data_available\<close>. The contract \<open>mailbox\<close> holds for all four when calls do not
  overlap; for driver 7 the calls also run as threads under an arbitrary schedule.

  A wait on the queue either ends because the flag is set or with \<open>-ERESTARTSYS\<close> on a
  signal: its result is an argument of the sequential \<open>read\<close> models.
\<close>

record wq_dev =
  wq_buffer :: "byte list"
  data_available :: int

section \<open>Driver 7\<close>

definition my_read_wq7 ::
    "int \<Rightarrow> uapi \<Rightarrow> nat \<Rightarrow> wq_dev \<Rightarrow> (int \<times> byte list \<times> wq_dev) option" where
  "my_read_wq7 ret K len dev =
     (if ret \<noteq> 0 then Some (ret, [], dev)
      else do {
        data_len \<leftarrow> c_strlen (wq_buffer dev);
        let len = (if len > data_len then data_len else len);
        src \<leftarrow> c_slice (wq_buffer dev) 0 len;
        let (left, out) = copy_to_user K src;
        if left \<noteq> 0 then Some (- EFAULT, out, dev)
        else Some (int len, out, dev\<lparr>data_available := 0\<rparr>)
      })"

definition my_write_wq7 :: "uapi \<Rightarrow> byte list \<Rightarrow> nat \<Rightarrow> wq_dev \<Rightarrow> (int \<times> wq_dev) option" where
  "my_write_wq7 K ubuf len dev = do {
     let len = (if len > 100 - 1 then 100 - 1 else len);
     let (left, bs) = copy_from_user K ubuf len;
     buf \<leftarrow> c_store (wq_buffer dev) 0 bs;
     if left \<noteq> 0 then Some (- EFAULT, dev\<lparr>wq_buffer := buf\<rparr>)
     else do {
       buf \<leftarrow> c_store buf len [0];
       Some (int len, dev\<lparr>wq_buffer := buf, data_available := 1\<rparr>)
     }
   }"

text \<open>Nothing in \<open>init\<close> is checked.\<close>

definition my_init_wq7 :: "kenv \<Rightarrow> int kprog" where
  "my_init_wq7 env = do {
     _ \<leftarrow> kcall env (Chr (Alloc_chrdev_region 0 1 ''mychar''));
     _ \<leftarrow> kcall env (Chr (Cdev_init 0));
     _ \<leftarrow> kcall env (Chr (Cdev_add 0 0 1));
     _ \<leftarrow> kcall env (Dev (Class_create ''mychar''));
     _ \<leftarrow> kcall env (Dev (Device_create 0 ''mychar0''));
     kret 0
   }"

definition my_exit_wq7 :: "kenv \<Rightarrow> unit kprog" where
  "my_exit_wq7 env = do {
     _ \<leftarrow> kcall env (Dev (Device_destroy 0));
     _ \<leftarrow> kcall env (Dev Class_destroy);
     _ \<leftarrow> kcall env (Chr (Cdev_del 0));
     _ \<leftarrow> kcall env (Chr (Unregister_chrdev_region 1));
     kret ()
   }"

section \<open>Drivers 8 and 9: poll\<close>

definition my_read_wq8 :: "uapi \<Rightarrow> nat \<Rightarrow> wq_dev \<Rightarrow> (int \<times> byte list \<times> wq_dev) option" where
  "my_read_wq8 K len dev =
     (if data_available dev = 0 then Some (0, [], dev)
      else do {
        data_len \<leftarrow> c_strlen (wq_buffer dev);
        let len = (if len > data_len then data_len else len);
        src \<leftarrow> c_slice (wq_buffer dev) 0 len;
        let (left, out) = copy_to_user K src;
        if left \<noteq> 0 then Some (- EFAULT, out, dev)
        else Some (int len, out, dev\<lparr>data_available := 0\<rparr>)
      })"

definition my_write_wq8 :: "uapi \<Rightarrow> byte list \<Rightarrow> nat \<Rightarrow> wq_dev \<Rightarrow> (int \<times> wq_dev) option" where
  "my_write_wq8 K ubuf len dev = do {
     let len = (if len > 100 - 1 then 100 - 1 else len);
     let (left, bs) = copy_from_user K ubuf len;
     buf \<leftarrow> c_store (wq_buffer dev) 0 bs;
     if left \<noteq> 0 then Some (- EFAULT, dev\<lparr>wq_buffer := buf\<rparr>)
     else do {
       buf \<leftarrow> c_store buf len [0];
       _ \<leftarrow> c_string buf;
       Some (int len, dev\<lparr>wq_buffer := buf, data_available := 1\<rparr>)
     }
   }"

abbreviation POLLIN :: "32 word" where "POLLIN \<equiv> 1"
abbreviation POLLRDNORM :: "32 word" where "POLLRDNORM \<equiv> 64"

definition my_poll_wq8 :: "wq_dev \<Rightarrow> 32 word" where
  "my_poll_wq8 dev = (if data_available dev \<noteq> 0 then or POLLIN POLLRDNORM else 0)"

definition my_init_wq8 :: "kenv \<Rightarrow> int kprog" where
  "my_init_wq8 env = do {
     _ \<leftarrow> kcall env (Chr (Alloc_chrdev_region 0 1 ''mychar''));
     _ \<leftarrow> kcall env (Chr (Cdev_init 0));
     _ \<leftarrow> kcall env (Chr (Cdev_add 0 0 1));
     _ \<leftarrow> kcall env (Dev (Class_create ''mychar''));
     _ \<leftarrow> kcall env (Dev (Device_create 0 ''mychar0''));
     kret 0
   }"

definition my_exit_wq8 :: "kenv \<Rightarrow> unit kprog" where
  "my_exit_wq8 env = do {
     _ \<leftarrow> kcall env (Dev (Device_destroy 0));
     _ \<leftarrow> kcall env (Dev Class_destroy);
     _ \<leftarrow> kcall env (Chr (Cdev_del 0));
     _ \<leftarrow> kcall env (Chr (Unregister_chrdev_region 1));
     kret ()
   }"

definition my_read_wq9 :: "uapi \<Rightarrow> nat \<Rightarrow> wq_dev \<Rightarrow> (int \<times> byte list \<times> wq_dev) option" where
  "my_read_wq9 K len dev =
     (if data_available dev = 0 then Some (0, [], dev)
      else do {
        data_len \<leftarrow> c_strlen (wq_buffer dev);
        let len = (if len > data_len then data_len else len);
        src \<leftarrow> c_slice (wq_buffer dev) 0 len;
        let (left, out) = copy_to_user K src;
        if left \<noteq> 0 then Some (- EFAULT, out, dev)
        else Some (int len, out, dev\<lparr>data_available := 0\<rparr>)
      })"

definition my_write_wq9 :: "uapi \<Rightarrow> byte list \<Rightarrow> nat \<Rightarrow> wq_dev \<Rightarrow> (int \<times> wq_dev) option" where
  "my_write_wq9 K ubuf len dev = do {
     let len = (if len > 100 - 1 then 100 - 1 else len);
     let (left, bs) = copy_from_user K ubuf len;
     buf \<leftarrow> c_store (wq_buffer dev) 0 bs;
     if left \<noteq> 0 then Some (- EFAULT, dev\<lparr>wq_buffer := buf\<rparr>)
     else do {
       buf \<leftarrow> c_store buf len [0];
       _ \<leftarrow> c_string buf;
       Some (int len, dev\<lparr>wq_buffer := buf, data_available := 1\<rparr>)
     }
   }"

definition my_poll_wq9 :: "wq_dev \<Rightarrow> 32 word" where
  "my_poll_wq9 dev = (if data_available dev \<noteq> 0 then or POLLIN POLLRDNORM else 0)"

definition my_init_wq9 :: "kenv \<Rightarrow> int kprog" where
  "my_init_wq9 env = do {
     _ \<leftarrow> kcall env (Chr (Alloc_chrdev_region 0 1 ''mychar''));
     _ \<leftarrow> kcall env (Chr (Cdev_init 0));
     _ \<leftarrow> kcall env (Chr (Cdev_add 0 0 1));
     _ \<leftarrow> kcall env (Dev (Class_create ''mychar''));
     _ \<leftarrow> kcall env (Dev (Device_create 0 ''mychar''));
     kret 0
   }"

definition my_exit_wq9 :: "kenv \<Rightarrow> unit kprog" where
  "my_exit_wq9 env = do {
     _ \<leftarrow> kcall env (Dev (Device_destroy 0));
     _ \<leftarrow> kcall env (Dev Class_destroy);
     _ \<leftarrow> kcall env (Chr (Cdev_del 0));
     _ \<leftarrow> kcall env (Chr (Unregister_chrdev_region 1));
     kret ()
   }"

text \<open>
  The user programs of 8 and 9: \<open>open\<close>, \<open>poll\<close>, one \<open>read\<close> of 100 bytes (\<open>r\<close> is what it
  returned, \<open>out\<close> what it stored), and the buffer printed as a string. \<open>stack\<close> is what the
  uninitialised \<open>buf[100]\<close> held. The result is the exit code and the text printed.
\<close>

definition main_poll :: "int \<Rightarrow> byte list \<Rightarrow> byte list \<Rightarrow> (int \<times> byte list) option" where
  "main_poll fd stack out =
     (if fd < 0 then Some (- 1, [])
      else do {
        buf \<leftarrow> c_store stack 0 out;
        text \<leftarrow> c_string buf;
        Some (0, text)
      })"

definition main_poll_wq9 :: "int \<Rightarrow> byte list \<Rightarrow> byte list \<Rightarrow> (int \<times> byte list) option" where
  "main_poll_wq9 fd stack out =
     (if fd < 0 then Some (- 1, [])
      else do {
        buf \<leftarrow> c_store stack 0 out;
        text \<leftarrow> c_string buf;
        Some (0, text)
      })"

lemma main_poll_wq9_eq [simp]: "main_poll_wq9 = main_poll"
  by (intro ext) (simp add: main_poll_def main_poll_wq9_def)

section \<open>Driver 10\<close>

text \<open>The result of the wait is not looked at.\<close>

definition my_read_wq10 ::
    "int \<Rightarrow> uapi \<Rightarrow> nat \<Rightarrow> wq_dev \<Rightarrow> (int \<times> byte list \<times> wq_dev) option" where
  "my_read_wq10 wait_result K len dev = do {
     data_len \<leftarrow> c_strlen (wq_buffer dev);
     let bytes = min len data_len;
     src \<leftarrow> c_slice (wq_buffer dev) 0 bytes;
     let (left, out) = copy_to_user K src;
     if left \<noteq> 0 then Some (- EFAULT, out, dev)
     else Some (int bytes, out, dev\<lparr>data_available := 0\<rparr>)
   }"

definition my_write_wq10 :: "uapi \<Rightarrow> byte list \<Rightarrow> nat \<Rightarrow> wq_dev \<Rightarrow> (int \<times> wq_dev) option" where
  "my_write_wq10 K ubuf len dev = do {
     let bytes = min len (100 - 1);
     let (left, bs) = copy_from_user K ubuf bytes;
     buf \<leftarrow> c_store (wq_buffer dev) 0 bs;
     if left \<noteq> 0 then Some (- EFAULT, dev\<lparr>wq_buffer := buf\<rparr>)
     else do {
       buf \<leftarrow> c_store buf bytes [0];
       _ \<leftarrow> c_string buf;
       Some (int len, dev\<lparr>wq_buffer := buf, data_available := 1\<rparr>)
     }
   }"

definition my_init_wq10 :: "kenv \<Rightarrow> int kprog" where
  "my_init_wq10 env = do {
     ret \<leftarrow> kcall env (Chr (Alloc_chrdev_region 0 1 ''mychar''));
     if ret \<noteq> 0 then kret ret
     else do {
       _ \<leftarrow> kcall env (Chr (Cdev_init 0));
       ret \<leftarrow> kcall env (Chr (Cdev_add 0 0 1));
       if ret \<noteq> 0 then do {
         _ \<leftarrow> kcall env (Chr (Unregister_chrdev_region 1));
         kret ret
       }
       else do {
         my_class \<leftarrow> kcall env (Dev (Class_create ''mychar''));
         if IS_ERR my_class then do {
           _ \<leftarrow> kcall env (Chr (Cdev_del 0));
           _ \<leftarrow> kcall env (Chr (Unregister_chrdev_region 1));
           kret my_class
         }
         else do {
           _ \<leftarrow> kcall env (Dev (Device_create 0 ''mychar''));
           kret 0
         }
       }
     }
   }"

definition my_exit_wq10 :: "kenv \<Rightarrow> unit kprog" where
  "my_exit_wq10 env = do {
     _ \<leftarrow> kcall env (Dev (Device_destroy 0));
     _ \<leftarrow> kcall env (Dev Class_destroy);
     _ \<leftarrow> kcall env (Chr (Cdev_del 0));
     _ \<leftarrow> kcall env (Chr (Unregister_chrdev_region 1));
     kret ()
   }"

definition node_res :: "res list" where
  "node_res = [Device 0, Class, Cdev 0, Region]"

text \<open>The calls that \<open>init\<close> of 7, 8 and 9 makes without looking at the result.\<close>

definition ignored_wq :: "string \<Rightarrow> kop list" where
  "ignored_wq node = [Chr (Alloc_chrdev_region 0 1 ''mychar''), Chr (Cdev_add 0 0 1),
     Dev (Class_create ''mychar''), Dev (Device_create 0 node)]"

interpretation wq7: lifecycle_on my_init_wq7 my_exit_wq7 node_res "ignored_wq ''mychar0''"
  by unfold_locales
    (auto simp: my_init_wq7_def my_exit_wq7_def node_res_def ignored_wq_def kenv_rules split: if_splits)

interpretation wq8: lifecycle_on my_init_wq8 my_exit_wq8 node_res "ignored_wq ''mychar0''"
  by unfold_locales
    (auto simp: my_init_wq8_def my_exit_wq8_def node_res_def ignored_wq_def kenv_rules split: if_splits)

interpretation wq9: lifecycle_on my_init_wq9 my_exit_wq9 node_res "ignored_wq ''mychar''"
  by unfold_locales
    (auto simp: my_init_wq9_def my_exit_wq9_def node_res_def ignored_wq_def kenv_rules split: if_splits)

interpretation wq10: lifecycle_on my_init_wq10 my_exit_wq10 node_res "[Dev (Device_create 0 ''mychar'')]"
  by unfold_locales
    (auto simp: my_init_wq10_def my_exit_wq10_def node_res_def kenv_rules split: if_splits)

section \<open>The contract of the four drivers\<close>

definition good_wq :: "wq_dev \<Rightarrow> bool" where
  "good_wq dev \<longleftrightarrow> nul_buf 100 (wq_buffer dev)"

text \<open>\<open>msg dev\<close>: the message waiting, if any.\<close>

definition wq_msg :: "wq_dev \<Rightarrow> byte list option" where
  "wq_msg dev = (if data_available dev \<noteq> 0 then Some (text_of (wq_buffer dev)) else None)"

locale mailbox =
  fixes wr :: "uapi \<Rightarrow> byte list \<Rightarrow> nat \<Rightarrow> wq_dev \<Rightarrow> (int \<times> wq_dev) option"
    and rd :: "uapi \<Rightarrow> nat \<Rightarrow> wq_dev \<Rightarrow> (int \<times> byte list \<times> wq_dev) option"
    and wr_ret :: "nat \<Rightarrow> nat"
  assumes wr_ok: "good_wq s \<Longrightarrow> copy_from_user K u (min len 99) = (0, bs) \<Longrightarrow> length bs = min len 99 \<Longrightarrow>
      \<exists>s'. wr K u len s = Some (int (wr_ret len), s') \<and> good_wq s' \<and> wq_msg s' = Some (text_of bs)"
    and wr_fault: "good_wq s \<Longrightarrow> copy_from_user K u (min len 99) = (Suc k, bs) \<Longrightarrow>
      length bs = min len 99 \<Longrightarrow>
      \<exists>s'. wr K u len s = Some (- EFAULT, s') \<and> good_wq s' \<and> data_available s' = data_available s"
    and rd_ok: "good_wq s \<Longrightarrow> wq_msg s = Some m \<Longrightarrow> copy_to_user K (take len m) = (0, take len m) \<Longrightarrow>
      rd K len s = Some (int (min len (length m)), take len m, s\<lparr>data_available := 0\<rparr>)"
    and rd_fault: "good_wq s \<Longrightarrow> wq_msg s = Some m \<Longrightarrow> copy_to_user K (take len m) = (Suc k, out) \<Longrightarrow>
      rd K len s = Some (- EFAULT, out, s)"
begin

lemma wr_defined:
  assumes "uapi_ok K" and "good_wq s"
  shows "\<exists>r s'. wr K u len s = Some (r, s') \<and> good_wq s'"
proof -
  obtain left bs where c: "copy_from_user K u (min len 99) = (left, bs)" by fastforce
  have "length bs = min len 99" using cfu_length[OF assms(1), of u "min len 99"] c by simp
  with c wr_ok[OF assms(2)] wr_fault[OF assms(2)] show ?thesis by (cases left) blast+
qed

text \<open>A message written is what the next read returns; reading it empties the mailbox.\<close>

lemma write_read:
  assumes "uapi_ok K" and "good_wq s" and "fst (copy_from_user K u (min len 99)) = 0"
    and "uapi_nofault K'"
  shows "\<exists>s' s''. wr K u len s = Some (int (wr_ret len), s') \<and> good_wq s' \<and>
    rd K' n s' = Some (int (min n (length (text_of (take (min len 99) u)))),
                       take n (text_of (take (min len 99) u)), s'') \<and>
    good_wq s'' \<and> wq_msg s'' = None"
proof -
  have c: "copy_from_user K u (min len 99) = (0, take (min len 99) u)"
    using assms(3) cfu_data[OF assms(1,3)] by (metis prod.collapse)
  then have "length (take (min len 99) u) = min len 99"
    using cfu_length[OF assms(1), of u "min len 99"] by simp
  then obtain s' where s': "wr K u len s = Some (int (wr_ret len), s')" "good_wq s'"
    "wq_msg s' = Some (text_of (take (min len 99) u))"
    using wr_ok[OF assms(2) c] by blast
  have "rd K' n s' = Some (int (min n (length (text_of (take (min len 99) u)))),
      take n (text_of (take (min len 99) u)), s'\<lparr>data_available := 0\<rparr>)"
    using rd_ok[OF s'(2,3)] nofault_ctu[OF assms(4)] by simp
  with s' show ?thesis by (auto simp: good_wq_def wq_msg_def)
qed

text \<open>Only the last of several writes is ever read.\<close>

lemma last_write_wins:
  assumes "uapi_ok K" and "good_wq s" and "uapi_ok K2"
    and "fst (copy_from_user K2 u2 (min len2 99)) = 0" and "uapi_nofault K'"
  shows "\<exists>r s1 s2 s3. wr K u len s = Some (r, s1) \<and> wr K2 u2 len2 s1 = Some (int (wr_ret len2), s2) \<and>
    rd K' n s2 = Some (int (min n (length (text_of (take (min len2 99) u2)))),
                       take n (text_of (take (min len2 99) u2)), s3) \<and> wq_msg s3 = None"
  using wr_defined[OF assms(1,2)] write_read[OF assms(3) _ assms(4,5)] by metis

end

text \<open>The four drivers against one reference, which satisfies the contract.\<close>

definition wq_write :: "(nat \<Rightarrow> nat) \<Rightarrow> uapi \<Rightarrow> byte list \<Rightarrow> nat \<Rightarrow> wq_dev \<Rightarrow> (int \<times> wq_dev) option" where
  "wq_write rv K u len dev = do {
     let (left, bs) = copy_from_user K u (min len 99);
     buf \<leftarrow> c_store (wq_buffer dev) 0 bs;
     if left \<noteq> 0 then Some (- EFAULT, dev\<lparr>wq_buffer := buf\<rparr>)
     else do {
       buf \<leftarrow> c_store buf (min len 99) [0];
       Some (int (rv len), dev\<lparr>wq_buffer := buf, data_available := 1\<rparr>)
     }
   }"

definition wq_read :: "uapi \<Rightarrow> nat \<Rightarrow> wq_dev \<Rightarrow> (int \<times> byte list \<times> wq_dev) option" where
  "wq_read K len dev = do {
     n \<leftarrow> c_strlen (wq_buffer dev);
     src \<leftarrow> c_slice (wq_buffer dev) 0 (min len n);
     let (left, out) = copy_to_user K src;
     if left \<noteq> 0 then Some (- EFAULT, out, dev)
     else Some (int (min len n), out, dev\<lparr>data_available := 0\<rparr>)
   }"

lemma wq_read_slice:
  "good_wq dev \<Longrightarrow> c_slice (wq_buffer dev) 0 (min n (length (text_of (wq_buffer dev)))) =
     Some (take n (text_of (wq_buffer dev)))"
  using nul_buf_slice[of 100 "wq_buffer dev" 0 "min n (length (text_of (wq_buffer dev)))"]
  by (simp add: good_wq_def min_def)

lemma mailbox_reference:
  assumes w: "\<And>K u len s. wr K u len s = wq_write rv K u len s"
    and r: "\<And>K len s. data_available s \<noteq> 0 \<Longrightarrow> rd K len s = wq_read K len s"
  shows "mailbox wr rd rv"
proof
  fix s and K :: uapi and u len bs
  assume g: "good_wq s" and c: "copy_from_user K u (min len 99) = (0, bs)" and l: "length bs = min len 99"
  have "length bs < 100" using l by simp
  then obtain b1 b2 where "c_store (wq_buffer s) 0 bs = Some b1" "c_store b1 (length bs) [0] = Some b2"
    "nul_buf 100 b2" "text_of b2 = text_of bs"
    using nul_buf_write[of 100 "wq_buffer s" bs] g by (metis good_wq_def)
  with c l show "\<exists>s'. wr K u len s = Some (int (rv len), s') \<and> good_wq s' \<and> wq_msg s' = Some (text_of bs)"
    by (simp add: w wq_write_def good_wq_def wq_msg_def)
next
  fix s and K :: uapi and u len k bs
  assume g: "good_wq s" and c: "copy_from_user K u (min len 99) = (Suc k, bs)" and l: "length bs = min len 99"
  have "length bs < 100" using l by simp
  then obtain b1 where "c_store (wq_buffer s) 0 bs = Some b1" "nul_buf 100 b1"
    using nul_buf_store[of 100 "wq_buffer s" bs] g by (metis good_wq_def)
  with c show "\<exists>s'. wr K u len s = Some (- EFAULT, s') \<and> good_wq s' \<and> data_available s' = data_available s"
    by (simp add: w wq_write_def good_wq_def)
next
  fix s m and K :: uapi and len
  assume "good_wq s" "wq_msg s = Some m" "copy_to_user K (take len m) = (0, take len m)"
  then show "rd K len s = Some (int (min len (length m)), take len m, s\<lparr>data_available := 0\<rparr>)"
    using wq_read_slice[of s len]
    by (auto simp: r wq_read_def wq_msg_def good_wq_def nul_buf_strlen split: if_splits)
next
  fix s m and K :: uapi and len k out
  assume "good_wq s" "wq_msg s = Some m" "copy_to_user K (take len m) = (Suc k, out)"
  then show "rd K len s = Some (- EFAULT, out, s)"
    using wq_read_slice[of s len]
    by (auto simp: r wq_read_def wq_msg_def good_wq_def nul_buf_strlen split: if_splits)
qed

lemma c_store_zero_string: "c_store buf n [0] = Some b \<Longrightarrow> \<exists>t. c_string b = Some t"
  by (auto simp: c_store_def c_string_def split: if_splits)

lemma if_gt_min: "(if n > m then m else n) = min n (m :: nat)"
  by (simp add: min_def)

lemma wq_write_eqs:
  "my_write_wq7 K u len dev = wq_write (\<lambda>n. min n 99) K u len dev"
  "my_write_wq8 K u len dev = wq_write (\<lambda>n. min n 99) K u len dev"
  "my_write_wq9 K u len dev = wq_write (\<lambda>n. min n 99) K u len dev"
  "my_write_wq10 K u len dev = wq_write (\<lambda>n. n) K u len dev"
  unfolding my_write_wq7_def my_write_wq8_def my_write_wq9_def my_write_wq10_def wq_write_def if_gt_min
  by (auto simp: Let_def split: prod.splits Option.bind_splits dest: c_store_zero_string)

lemma wq_read_eqs:
  "my_read_wq7 0 K len dev = wq_read K len dev"
  "data_available dev \<noteq> 0 \<Longrightarrow> my_read_wq8 K len dev = wq_read K len dev"
  "data_available dev \<noteq> 0 \<Longrightarrow> my_read_wq9 K len dev = wq_read K len dev"
  "my_read_wq10 ret K len dev = wq_read K len dev"
  unfolding my_read_wq7_def my_read_wq8_def my_read_wq9_def my_read_wq10_def wq_read_def if_gt_min
  by (simp_all add: Let_def)

interpretation mb7: mailbox my_write_wq7 "my_read_wq7 0" "\<lambda>n. min n 99"
  by (rule mailbox_reference) (simp_all add: wq_write_eqs wq_read_eqs)

interpretation mb8: mailbox my_write_wq8 my_read_wq8 "\<lambda>n. min n 99"
  by (rule mailbox_reference) (simp_all add: wq_write_eqs wq_read_eqs)

interpretation mb9: mailbox my_write_wq9 my_read_wq9 "\<lambda>n. min n 99"
  by (rule mailbox_reference) (simp_all add: wq_write_eqs wq_read_eqs)

interpretation mb10: mailbox my_write_wq10 "my_read_wq10 ret" "\<lambda>n. n" for ret
  by (rule mailbox_reference) (simp_all add: wq_write_eqs wq_read_eqs)

section \<open>Driver 7 under a scheduler\<close>

text \<open>
  Where a reader is: in the wait, at \<open>strlen\<close>, at the copy of \<open>n\<close> bytes, at the store to the
  flag, or back in user space with a result. A writer: at the copy, at the terminator, at
  the store to the flag, or back.
\<close>

datatype rpc = R_wait | R_strlen | R_copy nat | R_clear nat | R_done int
datatype wpc = W_copy | W_term nat | W_flag nat | W_done int

record reader =
  r_pc :: rpc
  r_len :: nat
  r_out :: "byte list"

record writer =
  w_pc :: wpc
  w_buf :: "byte list"
  w_len :: nat

record wq_sys =
  sys_dev :: wq_dev
  readers :: "reader list"
  writers :: "writer list"

text \<open>One step of a thread. A reader still waiting when the flag is 0 stays asleep.\<close>

definition reader_step :: "uapi \<Rightarrow> reader \<Rightarrow> wq_dev \<Rightarrow> (reader \<times> wq_dev) option" where
  "reader_step K r dev = (case r_pc r of
      R_wait \<Rightarrow> Some (if data_available dev \<noteq> 0 then r\<lparr>r_pc := R_strlen\<rparr> else r, dev)
    | R_strlen \<Rightarrow> do {
        data_len \<leftarrow> c_strlen (wq_buffer dev);
        let len = (if r_len r > data_len then data_len else r_len r);
        Some (r\<lparr>r_pc := R_copy len\<rparr>, dev)
      }
    | R_copy len \<Rightarrow> do {
        src \<leftarrow> c_slice (wq_buffer dev) 0 len;
        let (left, out) = copy_to_user K src;
        Some (r\<lparr>r_pc := (if left \<noteq> 0 then R_done (- EFAULT) else R_clear len), r_out := out\<rparr>, dev)
      }
    | R_clear len \<Rightarrow> Some (r\<lparr>r_pc := R_done (int len)\<rparr>, dev\<lparr>data_available := 0\<rparr>)
    | R_done ret \<Rightarrow> Some (r, dev))"

definition writer_step :: "uapi \<Rightarrow> writer \<Rightarrow> wq_dev \<Rightarrow> (writer \<times> wq_dev) option" where
  "writer_step K w dev = (case w_pc w of
      W_copy \<Rightarrow> do {
        let len = (if w_len w > 100 - 1 then 100 - 1 else w_len w);
        let (left, bs) = copy_from_user K (w_buf w) len;
        buf \<leftarrow> c_store (wq_buffer dev) 0 bs;
        Some (w\<lparr>w_pc := (if left \<noteq> 0 then W_done (- EFAULT) else W_term len)\<rparr>, dev\<lparr>wq_buffer := buf\<rparr>)
      }
    | W_term len \<Rightarrow> do {
        buf \<leftarrow> c_store (wq_buffer dev) len [0];
        Some (w\<lparr>w_pc := W_flag len\<rparr>, dev\<lparr>wq_buffer := buf\<rparr>)
      }
    | W_flag len \<Rightarrow> Some (w\<lparr>w_pc := W_done (int len)\<rparr>, dev\<lparr>data_available := 1\<rparr>)
    | W_done ret \<Rightarrow> Some (w, dev))"

text \<open>The scheduler runs a thread, or a signal hits a reader that waits.\<close>

datatype wq_event = Run_reader nat | Run_writer nat | Signal nat

fun wq_step :: "uapi \<Rightarrow> wq_event \<Rightarrow> wq_sys \<Rightarrow> wq_sys option" where
  "wq_step K (Run_reader i) s =
     (if i < length (readers s)
      then map_option (\<lambda>(r, dev). s\<lparr>sys_dev := dev, readers := (readers s)[i := r]\<rparr>)
             (reader_step K (readers s ! i) (sys_dev s))
      else Some s)"
| "wq_step K (Run_writer i) s =
     (if i < length (writers s)
      then map_option (\<lambda>(w, dev). s\<lparr>sys_dev := dev, writers := (writers s)[i := w]\<rparr>)
             (writer_step K (writers s ! i) (sys_dev s))
      else Some s)"
| "wq_step K (Signal i) s =
     (if i < length (readers s) \<and> r_pc (readers s ! i) = R_wait
      then Some (s\<lparr>readers := (readers s)[i := (readers s ! i)\<lparr>r_pc := R_done (- ERESTARTSYS)\<rparr>]\<rparr>)
      else Some s)"

fun wq_run :: "uapi \<Rightarrow> wq_event list \<Rightarrow> wq_sys \<Rightarrow> wq_sys option" where
  "wq_run K [] s = Some s"
| "wq_run K (ev # evs) s = Option.bind (wq_step K ev s) (wq_run K evs)"

text \<open>Any number of readers and writers entering their calls on an empty device.\<close>

definition wq_start :: "nat list \<Rightarrow> (byte list \<times> nat) list \<Rightarrow> wq_sys" where
  "wq_start rs ws = \<lparr>sys_dev = \<lparr>wq_buffer = replicate 100 0, data_available = 0\<rparr>,
     readers = map (\<lambda>n. \<lparr>r_pc = R_wait, r_len = n, r_out = []\<rparr>) rs,
     writers = map (\<lambda>(u, n). \<lparr>w_pc = W_copy, w_buf = u, w_len = n\<rparr>) ws\<rparr>"

text \<open>What every schedule keeps: a terminated buffer and lengths inside it.\<close>

definition ok_reader :: "reader \<Rightarrow> bool" where
  "ok_reader r \<longleftrightarrow> (case r_pc r of R_copy n \<Rightarrow> n < 100 \<and> n \<le> r_len r
     | R_clear n \<Rightarrow> n < 100 | _ \<Rightarrow> True)"

definition ok_writer :: "writer \<Rightarrow> bool" where
  "ok_writer w \<longleftrightarrow> (case w_pc w of W_term n \<Rightarrow> n < 100 | W_flag n \<Rightarrow> n < 100 | _ \<Rightarrow> True)"

definition ok_sys :: "wq_sys \<Rightarrow> bool" where
  "ok_sys s \<longleftrightarrow> good_wq (sys_dev s) \<and> (\<forall>r \<in> set (readers s). ok_reader r) \<and>
     (\<forall>w \<in> set (writers s). ok_writer w)"

lemma reader_step_ok:
  assumes "good_wq dev" and "ok_reader r"
  shows "\<exists>r' dev'. reader_step K r dev = Some (r', dev') \<and> good_wq dev' \<and> ok_reader r'"
proof (cases "r_pc r")
  case R_strlen
  have "length (text_of (wq_buffer dev)) < 100" using assms(1) text_of_length by (simp add: good_wq_def)
  with R_strlen assms show ?thesis
    by (auto simp: reader_step_def ok_reader_def good_wq_def nul_buf_strlen Let_def)
next
  case (R_copy n)
  with assms show ?thesis
    by (auto simp: reader_step_def ok_reader_def good_wq_def nul_buf_def c_slice_def Let_def
        split: prod.splits)
qed (use assms in \<open>auto simp: reader_step_def ok_reader_def good_wq_def\<close>)

lemma writer_step_ok:
  assumes "uapi_ok K" and "good_wq dev" and "ok_writer w"
  shows "\<exists>w' dev'. writer_step K w dev = Some (w', dev') \<and> good_wq dev' \<and> ok_writer w'"
proof (cases "w_pc w")
  case W_copy
  let ?n = "if w_len w > 100 - 1 then 100 - 1 else w_len w"
  obtain left bs where c: "copy_from_user K (w_buf w) ?n = (left, bs)" by fastforce
  have "length bs < 100" using cfu_length[OF assms(1), of "w_buf w" ?n] c by (simp split: if_splits)
  then obtain b where "c_store (wq_buffer dev) 0 bs = Some b" "nul_buf 100 b"
    using nul_buf_store[of 100 "wq_buffer dev" bs] assms(2) by (metis good_wq_def)
  with W_copy c show ?thesis
    unfolding writer_step_def Let_def by (auto simp: ok_writer_def good_wq_def)
next
  case (W_term n)
  then have "n < 100" using assms(3) by (simp add: ok_writer_def)
  then obtain b where "c_store (wq_buffer dev) n [0] = Some b" "nul_buf 100 b"
    using nul_buf_terminate[of 100 "wq_buffer dev" n] assms(2) by (metis good_wq_def)
  with W_term \<open>n < 100\<close> show ?thesis by (auto simp: writer_step_def ok_writer_def good_wq_def)
qed (use assms in \<open>auto simp: writer_step_def ok_writer_def good_wq_def\<close>)

lemma all_update: "\<forall>x \<in> set xs. P x \<Longrightarrow> P y \<Longrightarrow> \<forall>x \<in> set (xs[i := y]). P x"
  using set_update_subset_insert[of xs i y] by blast

lemma wq_step_ok:
  assumes "uapi_ok K" and s: "ok_sys s"
  shows "\<exists>s'. wq_step K ev s = Some s' \<and> ok_sys s'"
proof (cases ev)
  case (Run_reader i)
  show ?thesis
  proof (cases "i < length (readers s)")
    case True
    then have g: "good_wq (sys_dev s)" and r: "ok_reader (readers s ! i)"
      using s by (simp_all add: ok_sys_def)
    obtain r dev where st: "reader_step K (readers s ! i) (sys_dev s) = Some (r, dev)"
      "good_wq dev" "ok_reader r" using reader_step_ok[OF g r] by blast
    have "\<forall>r \<in> set ((readers s)[i := r]). ok_reader r"
      by (rule all_update) (use s st(3) in \<open>simp_all add: ok_sys_def\<close>)
    then have "ok_sys (s\<lparr>sys_dev := dev, readers := (readers s)[i := r]\<rparr>)"
      using s st(2) unfolding ok_sys_def by simp
    with st(1) True show ?thesis unfolding Run_reader by simp
  qed (simp add: Run_reader s)
next
  case (Run_writer i)
  show ?thesis
  proof (cases "i < length (writers s)")
    case True
    then have g: "good_wq (sys_dev s)" and w: "ok_writer (writers s ! i)"
      using s by (simp_all add: ok_sys_def)
    obtain w dev where st: "writer_step K (writers s ! i) (sys_dev s) = Some (w, dev)"
      "good_wq dev" "ok_writer w" using writer_step_ok[OF assms(1) g w] by blast
    have "\<forall>w \<in> set ((writers s)[i := w]). ok_writer w"
      by (rule all_update) (use s st(3) in \<open>simp_all add: ok_sys_def\<close>)
    then have "ok_sys (s\<lparr>sys_dev := dev, writers := (writers s)[i := w]\<rparr>)"
      using s st(2) unfolding ok_sys_def by simp
    with st(1) True show ?thesis unfolding Run_writer by simp
  qed (simp add: Run_writer s)
next
  case (Signal i)
  let ?r = "(readers s ! i)\<lparr>r_pc := R_done (- ERESTARTSYS)\<rparr>"
  have "\<forall>r \<in> set ((readers s)[i := ?r]). ok_reader r"
    by (rule all_update) (use s in \<open>simp_all add: ok_sys_def ok_reader_def\<close>)
  then have "ok_sys (s\<lparr>readers := (readers s)[i := ?r]\<rparr>)" using s unfolding ok_sys_def by simp
  with s show ?thesis unfolding Signal by simp
qed

lemma wq_run_ok: "uapi_ok K \<Longrightarrow> ok_sys s \<Longrightarrow> \<exists>s'. wq_run K evs s = Some s' \<and> ok_sys s'"
proof (induction evs arbitrary: s)
  case (Cons ev evs)
  obtain s1 where "wq_step K ev s = Some s1" "ok_sys s1" using wq_step_ok[OF Cons.prems] by blast
  with Cons.IH[OF Cons.prems(1), of s1] show ?case by simp
qed simp

lemma ok_sys_start: "ok_sys (wq_start rs ws)"
  by (auto simp: ok_sys_def wq_start_def good_wq_def nul_buf_replicate ok_reader_def ok_writer_def)


section \<open>Properties\<close>

text \<open>C9. Memory safety of driver 7 under concurrency: whatever number of readers and writers
  run, in whatever order their steps and signals come, no step leaves the 100 bytes of the
  buffer, which stays NUL-terminated.\<close>

theorem wq7_every_schedule_safe:
  assumes "uapi_ok K"
  shows "\<exists>s. wq_run K evs (wq_start rs ws) = Some s \<and> good_wq (sys_dev s)"
  using wq_run_ok[OF assms ok_sys_start[of rs ws], of evs] by (auto simp: ok_sys_def)

theorem wq7_every_schedule_safe_witness:
  "\<exists>s. wq_run uapi_plain [Run_writer 0, Run_reader 0, Run_writer 0, Run_writer 1]
     (wq_start [10] [(replicate 300 65, 300), ([66], 1)]) = Some s \<and> good_wq (sys_dev s)"
  by (rule wq7_every_schedule_safe[OF uapi_plain_ok])



text \<open>Driver 7 hands a message over neither exactly once nor at least once: with two
  readers one written message can be delivered twice, and a message written between a
  reader's copy and its store to the flag is delivered to nobody although its writer was
  told it was accepted.\<close>

theorem wq7_duplicate_and_lost:
  "(\<exists>evs s. wq_run uapi_plain evs (wq_start [10, 10] [([65], 1)]) = Some s \<and>
      map r_pc (readers s) = [R_done 1, R_done 1] \<and> map r_out (readers s) = [[65], [65]]) \<and>
   (\<exists>evs s. wq_run uapi_plain evs (wq_start [10] [([65], 1), ([66], 1)]) = Some s \<and>
      map w_pc (writers s) = [W_done 1, W_done 1] \<and> map r_out (readers s) = [[65]] \<and>
      wq_msg (sys_dev s) = None)"
proof
  let ?w = "replicate 3 (Run_writer 0)"
  let ?dup = "?w @ concat (replicate 4 [Run_reader 0, Run_reader 1])"
  have "map_option (\<lambda>s. (map r_pc (readers s), map r_out (readers s)))
      (wq_run uapi_plain ?dup (wq_start [10, 10] [([65], 1)])) =
      Some ([R_done 1, R_done 1], [[65], [65]])" by code_simp
  then show "\<exists>evs s. wq_run uapi_plain evs (wq_start [10, 10] [([65], 1)]) = Some s \<and>
      map r_pc (readers s) = [R_done 1, R_done 1] \<and> map r_out (readers s) = [[65], [65]]"
    unfolding map_option_eq_Some prod.inject by (rule exI)
  let ?lost = "?w @ replicate 3 (Run_reader 0) @ replicate 3 (Run_writer 1) @ [Run_reader 0]"
  have "map_option (\<lambda>s. (map w_pc (writers s), map r_out (readers s), wq_msg (sys_dev s)))
      (wq_run uapi_plain ?lost (wq_start [10] [([65], 1), ([66], 1)])) =
      Some ([W_done 1, W_done 1], [[65]], None)" by code_simp
  then show "\<exists>evs s. wq_run uapi_plain evs (wq_start [10] [([65], 1), ([66], 1)]) = Some s \<and>
      map w_pc (writers s) = [W_done 1, W_done 1] \<and> map r_out (readers s) = [[65]] \<and>
      wq_msg (sys_dev s) = None" unfolding map_option_eq_Some prod.inject by (rule exI)
qed

text \<open>The four drivers: \<open>write\<close>, \<open>read\<close> after a wait that was not interrupted, and the value
  \<open>write\<close> returns for a length.\<close>

definition mailbox_drivers ::
    "((uapi \<Rightarrow> byte list \<Rightarrow> nat \<Rightarrow> wq_dev \<Rightarrow> (int \<times> wq_dev) option) \<times>
      (uapi \<Rightarrow> nat \<Rightarrow> wq_dev \<Rightarrow> (int \<times> byte list \<times> wq_dev) option) \<times> (nat \<Rightarrow> nat)) list" where
  "mailbox_drivers = [(my_write_wq7, my_read_wq7 0, \<lambda>n. min n 99), (my_write_wq8, my_read_wq8, \<lambda>n. min n 99),
     (my_write_wq9, my_read_wq9, \<lambda>n. min n 99), (my_write_wq10, my_read_wq10 0, \<lambda>n. n)]"

text \<open>C14. In drivers 7 to 10, when calls do not overlap, a message survives any earlier write
  and is what the next read returns, cut to 99 bytes, to its first NUL and to the length
  asked for; after that there is no message until the next write.\<close>

theorem mailbox_write_then_read:
  assumes "(wr, rd, ret) \<in> set mailbox_drivers" and "uapi_ok K" and "good_wq dev" and "uapi_ok K2"
    and "fst (copy_from_user K2 u2 (min len2 99)) = 0" and "uapi_nofault K'"
  shows "\<exists>r dev1 dev2 dev3. wr K u len dev = Some (r, dev1) \<and>
     wr K2 u2 len2 dev1 = Some (int (ret len2), dev2) \<and>
     rd K' n dev2 = Some (int (min n (length (text_of (take (min len2 99) u2)))),
                          take n (text_of (take (min len2 99) u2)), dev3) \<and> wq_msg dev3 = None"
proof -
  have "mailbox wr rd ret"
    using assms(1) mb7.mailbox_axioms mb8.mailbox_axioms mb9.mailbox_axioms mb10.mailbox_axioms
    by (auto simp: mailbox_drivers_def)
  then show ?thesis by (rule mailbox.last_write_wins[OF _ assms(2-6)])
qed

theorem mailbox_write_then_read_witness:
  "\<exists>dev2 dev3. my_write_wq8 uapi_plain [104, 105] 2 \<lparr>wq_buffer = replicate 100 0, data_available = 0\<rparr> =
       Some (2, dev2) \<and> wq_msg dev3 = None"
proof -
  let ?d = "\<lparr>wq_buffer = replicate 100 0, data_available = 0\<rparr>"
  have m: "(my_write_wq8, my_read_wq8, \<lambda>n. min n 99) \<in> set mailbox_drivers"
    by (simp add: mailbox_drivers_def)
  have g: "good_wq ?d" using nul_buf_replicate[of 100] by (simp add: good_wq_def)
  have c: "fst (copy_from_user uapi_plain [104, 105] (min 2 99)) = 0" by (simp add: uapi_plain_def)
  from mailbox_write_then_read[OF m uapi_plain_ok g uapi_plain_ok c uapi_plain_nofault,
      of "[104, 105]" 2 10]
  obtain dev3 where d3: "wq_msg dev3 = None" by blast
  have "map_option fst (my_write_wq8 uapi_plain [104, 105] 2 ?d) = Some 2" by code_simp
  with d3 show ?thesis by (cases "my_write_wq8 uapi_plain [104, 105] 2 ?d") auto
qed

text \<open>Driver 10 ignores how its wait ended and what it stored: a reader woken by a signal
  when no message is there gets the previous one again instead of an error, and a write of
  more than 99 bytes reports all of them as written.\<close>

theorem wq10_interrupted_read:
  assumes "good_wq dev" and "data_available dev = 0" and "uapi_nofault K"
    and "copy_from_user K u 99 = (0, bs)" and "length bs = 99" and "99 < len"
  shows "my_read_wq10 (- ERESTARTSYS) K n dev =
           Some (int (min n (length (text_of (wq_buffer dev)))), take n (text_of (wq_buffer dev)), dev) \<and>
         my_read_wq7 (- ERESTARTSYS) K n dev = Some (- ERESTARTSYS, [], dev) \<and>
         (\<exists>dev'. my_write_wq10 K u len dev = Some (int len, dev') \<and> wq_msg dev' = Some (text_of bs))"
proof (intro conjI)
  show "my_read_wq10 (- ERESTARTSYS) K n dev =
      Some (int (min n (length (text_of (wq_buffer dev)))), take n (text_of (wq_buffer dev)), dev)"
    using assms(1,2) wq_read_slice[OF assms(1), of n] nofault_ctu[OF assms(3)]
    by (simp add: wq_read_eqs wq_read_def good_wq_def nul_buf_strlen)
  show "my_read_wq7 (- ERESTARTSYS) K n dev = Some (- ERESTARTSYS, [], dev)"
    by (simp add: my_read_wq7_def)
  have m: "min len 99 = 99" using assms(6) by simp
  show "\<exists>dev'. my_write_wq10 K u len dev = Some (int len, dev') \<and> wq_msg dev' = Some (text_of bs)"
    using mb10.wr_ok[OF assms(1), of K u len bs] assms(4,5) unfolding m by blast
qed

theorem wq10_interrupted_read_witness:
  "my_read_wq10 (- ERESTARTSYS) uapi_plain 10
     \<lparr>wq_buffer = [65, 66] @ replicate 98 0, data_available = 0\<rparr> =
   Some (2, [65, 66], \<lparr>wq_buffer = [65, 66] @ replicate 98 0, data_available = 0\<rparr>)"
proof -
  let ?d = "\<lparr>wq_buffer = [65, 66] @ replicate 98 0, data_available = 0\<rparr>"
  have g: "good_wq ?d" by (simp add: good_wq_def nul_buf_def nth_append)
  have c: "copy_from_user uapi_plain (replicate 200 7) 99 = (0, replicate 99 7)"
    by (simp add: uapi_plain_def)
  have t: "text_of (wq_buffer ?d) = [65, 66]" by (simp add: text_of_def)
  from wq10_interrupted_read[OF g _ uapi_plain_nofault c, of 200 10] show ?thesis
    unfolding t by simp
qed

text \<open>Poll in drivers 8 and 9 reports a message exactly when there is one, and then \<open>read\<close>
  delivers it; the user programs print what they read without terminating it, which goes
  past the 100 bytes of \<open>buf\<close> unless the stack happened to hold a NUL.\<close>

theorem poll_ready_then_print:
  assumes "good_wq dev" and "uapi_nofault K" and "my_poll_wq8 dev \<noteq> 0"
  shows "\<exists>out. my_read_wq8 K 100 dev = Some (int (length out), out, dev\<lparr>data_available := 0\<rparr>) \<and>
     my_read_wq9 K 100 dev = my_read_wq8 K 100 dev \<and> my_poll_wq9 dev = my_poll_wq8 dev \<and>
     wq_msg dev = Some out \<and>
     main_poll 3 (replicate 100 0) out = Some (0, out) \<and> main_poll_wq9 = main_poll \<and>
     (length stack = 100 \<and> 0 \<notin> set stack \<longrightarrow> main_poll 3 stack out = None)"
proof -
  let ?out = "text_of (wq_buffer dev)"
  have a: "data_available dev \<noteq> 0" using assms(3) by (auto simp: my_poll_wq8_def)
  then have m: "wq_msg dev = Some ?out" by (simp add: wq_msg_def)
  have l: "length ?out < 100" using assms(1) text_of_length by (simp add: good_wq_def)
  have nz: "0 \<notin> set ?out" unfolding text_of_def by (auto dest: set_takeWhileD)
  then have tw: "takeWhile (\<lambda>b. b \<noteq> 0) ?out = ?out" by (metis (mono_tags, lifting) takeWhile_eq_all_conv)
  have r: "my_read_wq8 K 100 dev = Some (int (length ?out), ?out, dev\<lparr>data_available := 0\<rparr>)"
    using mb8.rd_ok[OF assms(1) m, of K 100] nofault_ctu[OF assms(2)] l by simp
  have r9: "my_read_wq9 K 100 dev = my_read_wq8 K 100 dev" using a by (simp add: wq_read_eqs)
  have "100 - length ?out = Suc (99 - length ?out)" using l by simp
  then have "replicate (100 - length ?out) (0::byte) = 0 # replicate (99 - length ?out) 0" by simp
  then have p: "main_poll 3 (replicate 100 0) ?out = Some (0, ?out)"
    using l tw takeWhile_nz_append_zero[of ?out] by (simp add: main_poll_def c_store_def c_string_def)
  have "main_poll 3 stack ?out = None" if "length stack = 100" "0 \<notin> set stack"
    using that l nz by (auto simp: main_poll_def c_store_def c_string_def dest: in_set_dropD)
  with r r9 m p show ?thesis by (auto simp: my_poll_wq8_def my_poll_wq9_def)
qed

theorem poll_ready_then_print_witness:
  "main_poll 3 (replicate 100 0) [65] = Some (0, [65]) \<and> main_poll 3 (replicate 100 7) [65] = None"
proof -
  let ?d = "\<lparr>wq_buffer = [65] @ replicate 99 0, data_available = 1\<rparr>"
  have g: "good_wq ?d" by (simp add: good_wq_def nul_buf_def nth_append)
  have m: "wq_msg ?d = Some [65]" by (simp add: wq_msg_def text_of_def)
  have p: "my_poll_wq8 ?d \<noteq> 0" by (simp add: my_poll_wq8_def)
  from poll_ready_then_print[OF g uapi_plain_nofault p, of "replicate 100 7"] m show ?thesis by simp
qed

end
