(* ===== verification/Deferred.thy ===== *)
theory Deferred
  imports Kapi
begin

text \<open>
  Work done outside the caller: kernel threads (\<open>11.Kernel_Thread\<close>), work items
  (\<open>12.Workqueue\<close>: \<open>workqueue.c\<close>, \<open>Binding_custom_workqueue.c\<close>) and timers
  (\<open>13.kernel_Timer/kernel_timer_periodic.c\<close>). What they have in common is a loop that
  runs until somebody asks it to stop: \<open>until_stop\<close>. The periodic timer and the
  custom work queue run against their \<open>exit\<close> function as step relations.
\<close>

section \<open>Loops that poll a stop flag\<close>

text \<open>
  \<open>while (!stop) body\<close>, where the \<open>i\<close>-th test reads \<open>stop i\<close>: another thread decides when it
  becomes true. The result is \<open>None\<close> when the loop never ends.
\<close>

partial_function (option) until_stop :: "(nat \<Rightarrow> bool) \<Rightarrow> ('s \<Rightarrow> 's) \<Rightarrow> nat \<Rightarrow> 's \<Rightarrow> 's option" where
  "until_stop stop body i s = (if stop i then Some s else until_stop stop body (Suc i) (body s))"

lemma until_stop_first:
  "stop (i + n) \<Longrightarrow> (\<And>k. k < n \<Longrightarrow> \<not> stop (i + k)) \<Longrightarrow>
   until_stop stop body i s = Some ((body ^^ n) s)"
proof (induction n arbitrary: i s)
  case 0
  then show ?case by (subst until_stop.simps) simp
next
  case (Suc n)
  have "\<not> stop i" using Suc.prems(2)[of 0] by simp
  moreover have "until_stop stop body (Suc i) (body s) = Some ((body ^^ n) (body s))"
  proof (rule Suc.IH)
    show "stop (Suc i + n)" using Suc.prems(1) by simp
    show "\<not> stop (Suc i + k)" if "k < n" for k using Suc.prems(2)[of "Suc k"] that by simp
  qed
  ultimately show ?case by (subst until_stop.simps) (simp add: funpow_swap1)
qed

text \<open>The loop ends exactly when the stop is requested at some test.\<close>

lemma until_stop_ends: "\<exists>n. stop n \<Longrightarrow> until_stop stop body 0 s = Some ((body ^^ (LEAST n. stop n)) s)"
  using until_stop_first[of stop 0 "LEAST n. stop n" body s]
  by (metis LeastI_ex add_0 not_less_Least)

lemma until_stop_Some:
  assumes "until_stop stop body i s = Some s'"
  shows "\<exists>n \<ge> i. stop n"
proof (rule until_stop.raw_induct[where P = "\<lambda>stop body i s y. \<exists>n \<ge> i. stop n", OF _ assms])
  fix loop :: "(nat \<Rightarrow> bool) \<Rightarrow> ('s \<Rightarrow> 's) \<Rightarrow> nat \<Rightarrow> 's \<Rightarrow> 's option" and stop body i s y
  assume rec: "\<And>stop body i s y. loop stop body i s = Some y \<Longrightarrow> \<exists>n \<ge> i. stop n"
    and run: "(if stop i then Some s else loop stop body (Suc i) (body s)) = Some y"
  show "\<exists>n \<ge> i. stop n"
  proof (cases "stop i")
    case False
    then have "\<exists>n \<ge> Suc i. stop n" using rec run by simp
    then show ?thesis by (auto intro: Suc_leD)
  qed auto
qed

section \<open>Kernel threads (11)\<close>

text \<open>The thread function: its result and how often it printed, \<open>count\<close> being an \<open>int\<close>.\<close>

definition thread_function_1 :: "(nat \<Rightarrow> bool) \<Rightarrow> (int \<times> 32 word) option" where
  "thread_function_1 should_stop =
     map_option (\<lambda>count. (0, count)) (until_stop should_stop (\<lambda>count. count + 1) 0 0)"

definition my_init_kth :: "kenv \<Rightarrow> int kprog" where
  "my_init_kth env = do {
     my_thread1 \<leftarrow> kcall env (Task (Kthread_run ''my_kthread-1''));
     if IS_ERR my_thread1 then kret my_thread1
     else do {
       my_thread2 \<leftarrow> kcall env (Task (Kthread_create ''my_kthread-2''));
       if \<not> IS_ERR my_thread2 then do {
         _ \<leftarrow> kcall env (Task (Kthread_bind ''my_kthread-2'' 1));
         _ \<leftarrow> kcall env (Task (Wake_up_process ''my_kthread-2''));
         _ \<leftarrow> kcall env (Task (Deref_task ''my_kthread-1''));
         _ \<leftarrow> kcall env (Task (Deref_task ''my_kthread-2''));
         kret 0
       }
       else do {
         _ \<leftarrow> kcall env (Task (Kthread_stop ''my_kthread-1''));
         kret my_thread2
       }
     }
   }"

text \<open>The message of \<open>exit\<close> reads \<open>pid\<close> of both tasks after they were stopped.\<close>

definition my_exit_kth :: "kenv \<Rightarrow> unit kprog" where
  "my_exit_kth env = do {
     _ \<leftarrow> kcall env (Task (Kthread_stop ''my_kthread-1''));
     _ \<leftarrow> kcall env (Task (Kthread_stop ''my_kthread-2''));
     _ \<leftarrow> kcall env (Task (Deref_task ''my_kthread-1''));
     _ \<leftarrow> kcall env (Task (Deref_task ''my_kthread-2''));
     kret ()
   }"

section \<open>Work items (12)\<close>

text \<open>\<open>workqueue.c\<close>: the numbers the handler prints; \<open>init\<close> and \<open>exit\<close>.\<close>

fun work_loop_wq :: "nat \<Rightarrow> int \<Rightarrow> int list" where
  "work_loop_wq 0 i = []"
| "work_loop_wq (Suc n) i = (if i < 10 then i # work_loop_wq n (i + 1) else [])"

definition work_handler_wq :: "int list" where
  "work_handler_wq = work_loop_wq 11 0"

definition my_init_wq :: "kenv \<Rightarrow> int kprog" where
  "my_init_wq env = do {
     _ \<leftarrow> kcall env (Task Schedule_work);
     kret 0
   }"

definition my_exit_wq :: "kenv \<Rightarrow> unit kprog" where
  "my_exit_wq env = do {
     _ \<leftarrow> kcall env (Task Flush_work);
     kret ()
   }"

text \<open>\<open>Binding_custom_workqueue.c\<close>: \<open>init\<close> yields its value and the static \<open>my_wq\<close>.\<close>

definition my_init_cwq :: "kenv \<Rightarrow> (int \<times> int) kprog" where
  "my_init_cwq env = do {
     my_wq \<leftarrow> kcall env (Task Create_workqueue);
     if my_wq = 0 then kret (- ENOMEM, my_wq)
     else do {
       _ \<leftarrow> kcall env (Task (Queue_work_on 1));
       kret (0, my_wq)
     }
   }"

definition my_exit_cwq :: "int \<Rightarrow> kenv \<Rightarrow> unit kprog" where
  "my_exit_cwq my_wq env = do {
     _ \<leftarrow> kcall env (Task Flush_work);
     if my_wq \<noteq> 0 then do {
       _ \<leftarrow> kcall env (Task Destroy_workqueue);
       kret ()
     }
     else kret ()
   }"

interpretation wq: module_lifecycle my_init_wq my_exit_wq "[]"
  by unfold_locales (auto simp: my_init_wq_def my_exit_wq_def kenv_rules)

interpretation cwq: module_lifecycle "\<lambda>env. do { rw \<leftarrow> my_init_cwq env; kret (fst rw) }"
  "my_exit_cwq 1" "[Workqueue]"
  by unfold_locales (auto simp: my_init_cwq_def my_exit_cwq_def kenv_rules split: if_splits)

text \<open>
  The handler of \<open>Binding_custom_workqueue.c\<close> on its worker thread against \<open>exit\<close>: the
  handler is queued, about to read the flag, about to print, or has returned; \<open>exit\<close> has
  not begun, has raised the flag, has returned from \<open>flush_work\<close>, or has finished.
\<close>

datatype work_pc = Queued | At_test | At_print | Finished
datatype exit_pc = Loaded | Flagged | Flushed | Unloaded

text \<open>The phases of an \<open>exit\<close> in the order it goes through them.\<close>

fun exit_rank :: "exit_pc \<Rightarrow> nat" where
  "exit_rank Loaded = 0" | "exit_rank Flagged = 1" | "exit_rank Flushed = 2" | "exit_rank Unloaded = 3"

instantiation exit_pc :: linorder
begin

definition less_eq_exit_pc :: "exit_pc \<Rightarrow> exit_pc \<Rightarrow> bool" where
  "less_eq_exit_pc a b \<longleftrightarrow> exit_rank a \<le> exit_rank b"

definition less_exit_pc :: "exit_pc \<Rightarrow> exit_pc \<Rightarrow> bool" where
  "less_exit_pc a b \<longleftrightarrow> exit_rank a < exit_rank b"

instance
proof
  fix a b :: exit_pc
  assume "a \<le> b" and "b \<le> a"
  then show "a = b" by (cases a; cases b) (simp_all add: less_eq_exit_pc_def)
qed (auto simp: less_eq_exit_pc_def less_exit_pc_def)

end

lemma Flagged_le [simp]: "Flagged \<le> e \<longleftrightarrow> e \<noteq> Loaded"
  by (cases e) (simp_all add: less_eq_exit_pc_def)

record cwq_sys =
  work_at :: work_pc
  exit_at :: exit_pc
  stop_work_flag :: int

inductive cwq_step :: "cwq_sys \<Rightarrow> cwq_sys \<Rightarrow> bool" where
  Begin: "work_at s = Queued \<Longrightarrow> cwq_step s (s\<lparr>work_at := At_test\<rparr>)"
| Test_stop: "work_at s = At_test \<Longrightarrow> stop_work_flag s = 1 \<Longrightarrow> cwq_step s (s\<lparr>work_at := Finished\<rparr>)"
| Test_go: "work_at s = At_test \<Longrightarrow> stop_work_flag s \<noteq> 1 \<Longrightarrow> cwq_step s (s\<lparr>work_at := At_print\<rparr>)"
| Print_sleep: "work_at s = At_print \<Longrightarrow> cwq_step s (s\<lparr>work_at := At_test\<rparr>)"
| Raise: "exit_at s = Loaded \<Longrightarrow> cwq_step s (s\<lparr>stop_work_flag := 1, exit_at := Flagged\<rparr>)"
| Flush: "exit_at s = Flagged \<Longrightarrow> work_at s = Finished \<Longrightarrow> cwq_step s (s\<lparr>exit_at := Flushed\<rparr>)"
| Destroy: "exit_at s = Flushed \<Longrightarrow> cwq_step s (s\<lparr>exit_at := Unloaded\<rparr>)"

definition cwq_start :: cwq_sys where
  "cwq_start = \<lparr>work_at = Queued, exit_at = Loaded, stop_work_flag = 0\<rparr>"

text \<open>Steps left once the flag is raised.\<close>

fun cwq_rank :: "cwq_sys \<Rightarrow> nat" where
  "cwq_rank s = (case work_at s of Queued \<Rightarrow> 2 | At_print \<Rightarrow> 2 | At_test \<Rightarrow> 1 | Finished \<Rightarrow> 0) +
     (case exit_at s of Loaded \<Rightarrow> 3 | Flagged \<Rightarrow> 2 | Flushed \<Rightarrow> 1 | Unloaded \<Rightarrow> 0)"

definition cwq_inv :: "cwq_sys \<Rightarrow> bool" where
  "cwq_inv s \<longleftrightarrow> (exit_at s \<noteq> Loaded \<longleftrightarrow> stop_work_flag s = 1) \<and>
     (exit_at s \<in> {Flushed, Unloaded} \<longrightarrow> work_at s = Finished)"

lemma cwq_inv_step: "cwq_step s s' \<Longrightarrow> cwq_inv s \<Longrightarrow> cwq_inv s'"
  by (induction rule: cwq_step.induct) (auto simp: cwq_inv_def)

lemma cwq_inv_start: "cwq_inv cwq_start"
  by (simp add: cwq_inv_def cwq_start_def)

lemma cwq_inv_reach: "cwq_step\<^sup>*\<^sup>* cwq_start s \<Longrightarrow> cwq_inv s"
  by (erule invariant_reach) (auto intro: cwq_inv_step cwq_inv_start)

lemma cwq_exit_advances: "cwq_step s s' \<Longrightarrow> exit_at s \<le> exit_at s'"
  by (induction rule: cwq_step.induct) (simp_all add: less_eq_exit_pc_def)

lemma cwq_rank_step: "cwq_step s s' \<Longrightarrow> cwq_inv s \<Longrightarrow> exit_at s \<noteq> Loaded \<Longrightarrow> cwq_rank s' < cwq_rank s"
  by (induction rule: cwq_step.induct) (auto simp: cwq_inv_def)

lemma cwq_progress: "cwq_inv s \<Longrightarrow> exit_at s \<noteq> Unloaded \<Longrightarrow> \<exists>s'. cwq_step s s'"
  by (cases "work_at s"; cases "exit_at s"; cases "stop_work_flag s = 1")
    (auto intro: cwq_step.intros)

lemma cwq_stop_run:
  "(cwq_step ^^ n) s s' \<Longrightarrow> cwq_inv s \<Longrightarrow> exit_at s \<noteq> Loaded \<Longrightarrow>
   n + cwq_rank s' \<le> cwq_rank s \<and> cwq_inv s' \<and> exit_at s' \<noteq> Loaded"
proof (induction n arbitrary: s')
  case (Suc n)
  then obtain t where t: "(cwq_step ^^ n) s t" "cwq_step t s'" by auto
  with Suc have i: "n + cwq_rank t \<le> cwq_rank s" "cwq_inv t" "exit_at t \<noteq> Loaded" by auto
  have "exit_at s' \<noteq> Loaded" using cwq_exit_advances[OF t(2)] i(3) Flagged_le order_trans by metis
  with i cwq_rank_step[OF t(2) i(2,3)] cwq_inv_step[OF t(2) i(2)] show ?case by linarith
qed simp

section \<open>The periodic timer (13)\<close>

text \<open>
  The callback is not running, has printed and is about to read \<open>stop_flag\<close>, or is about
  to re-arm. \<open>del_timer_sync\<close> waits for a running callback and removes a pending timer.
  \<open>ticks\<close> counts the callbacks that began, \<open>ticks_at_stop\<close> those begun when \<open>exit\<close> set the
  flag.
\<close>

datatype cb_pc = Idle | Ticked | Rearming

record timer_sys =
  pending :: bool
  callback_at :: cb_pc
  stop_flag :: int
  t_exit_at :: exit_pc
  ticks :: nat
  ticks_at_stop :: nat

inductive timer_step :: "timer_sys \<Rightarrow> timer_sys \<Rightarrow> bool" where
  Expire: "pending s \<Longrightarrow> callback_at s = Idle \<Longrightarrow>
    timer_step s (s\<lparr>pending := False, callback_at := Ticked, ticks := ticks s + 1\<rparr>)"
| Return: "callback_at s = Ticked \<Longrightarrow> stop_flag s \<noteq> 0 \<Longrightarrow> timer_step s (s\<lparr>callback_at := Idle\<rparr>)"
| Go_on: "callback_at s = Ticked \<Longrightarrow> stop_flag s = 0 \<Longrightarrow> timer_step s (s\<lparr>callback_at := Rearming\<rparr>)"
| Rearm: "callback_at s = Rearming \<Longrightarrow> timer_step s (s\<lparr>pending := True, callback_at := Idle\<rparr>)"
| Set_stop: "t_exit_at s = Loaded \<Longrightarrow>
    timer_step s (s\<lparr>stop_flag := 1, t_exit_at := Flagged, ticks_at_stop := ticks s\<rparr>)"
| Delete: "t_exit_at s = Flagged \<Longrightarrow> callback_at s = Idle \<Longrightarrow>
    timer_step s (s\<lparr>pending := False, t_exit_at := Unloaded\<rparr>)"

text \<open>\<open>init\<close> and \<open>exit\<close> of the periodic timer, with the value of \<open>interval_ms\<close>.\<close>

definition my_init_ptimer :: "nat \<Rightarrow> kenv \<Rightarrow> int kprog" where
  "my_init_ptimer interval_ms env = do {
     _ \<leftarrow> kcall env (Task Timer_setup);
     _ \<leftarrow> kcall env (Task (Mod_timer interval_ms));
     kret 0
   }"

definition my_exit_ptimer :: "kenv \<Rightarrow> unit kprog" where
  "my_exit_ptimer env = do {
     _ \<leftarrow> kcall env (Task Del_timer_sync);
     kret ()
   }"

interpretation ptimer: module_lifecycle "my_init_ptimer interval_ms" my_exit_ptimer "[Timer]" for interval_ms
  by unfold_locales (auto simp: my_init_ptimer_def my_exit_ptimer_def)

text \<open>After \<open>init\<close>: flag cleared, timer armed.\<close>

definition timer_start :: timer_sys where
  "timer_start = \<lparr>pending = True, callback_at = Idle, stop_flag = 0, t_exit_at = Loaded,
     ticks = 0, ticks_at_stop = 0\<rparr>"

definition timer_inv :: "timer_sys \<Rightarrow> bool" where
  "timer_inv s \<longleftrightarrow> (pending s \<longrightarrow> callback_at s = Idle) \<and>
     (case t_exit_at s of
        Loaded \<Rightarrow> stop_flag s = 0 \<and> (pending s \<or> callback_at s \<noteq> Idle)
      | Flagged \<Rightarrow> stop_flag s = 1 \<and> ticks s + (if pending s \<or> callback_at s = Rearming then 1 else 0) \<le>
                   ticks_at_stop s + 1
      | Flushed \<Rightarrow> False
      | Unloaded \<Rightarrow> \<not> pending s \<and> callback_at s = Idle \<and> ticks s \<le> ticks_at_stop s + 1)"

lemma timer_inv_step: "timer_step s s' \<Longrightarrow> timer_inv s \<Longrightarrow> timer_inv s'"
  by (induction rule: timer_step.induct) (auto simp: timer_inv_def split: exit_pc.splits if_splits)

lemma timer_inv_start: "timer_inv timer_start"
  by (simp add: timer_inv_def timer_start_def)

lemma timer_inv_reach: "timer_step\<^sup>*\<^sup>* timer_start s \<Longrightarrow> timer_inv s"
  by (erule invariant_reach) (auto intro: timer_inv_step timer_inv_start)

lemma timer_exit_advances: "timer_step s s' \<Longrightarrow> t_exit_at s \<le> t_exit_at s'"
  by (induction rule: timer_step.induct) (simp_all add: less_eq_exit_pc_def)

inductive_simps timer_step_simps: "timer_step s s'"

section \<open>One-shot callbacks (12 delayed work, 13 timer)\<close>

text \<open>
  \<open>kernel_timer.c\<close> and \<open>delayed_workqueue.c\<close> arm one callback in \<open>init\<close>; their \<open>exit\<close>
  (\<open>del_timer_sync\<close>, \<open>cancel_delayed_work_sync\<close>) waits for a callback that runs and
  takes back one that has not begun. The source comments out the \<open>module_init\<close> and
  \<open>module_exit\<close> lines of \<open>kernel_timer.c\<close>; the model is of its functions as they would be
  registered.
\<close>

definition my_init_dwork :: "kenv \<Rightarrow> int kprog" where
  "my_init_dwork env = do {
     _ \<leftarrow> kcall env (Task (Schedule_delayed_work 5000));
     kret 0
   }"

definition my_exit_dwork :: "kenv \<Rightarrow> unit kprog" where
  "my_exit_dwork env = do {
     _ \<leftarrow> kcall env (Task Cancel_delayed_work_sync);
     kret ()
   }"

definition my_init_timer :: "kenv \<Rightarrow> int kprog" where
  "my_init_timer env = do {
     _ \<leftarrow> kcall env (Task Timer_setup);
     _ \<leftarrow> kcall env (Task (Mod_timer 5000));
     kret 0
   }"

definition my_exit_timer :: "kenv \<Rightarrow> unit kprog" where
  "my_exit_timer env = do {
     _ \<leftarrow> kcall env (Task Del_timer_sync);
     kret ()
   }"

interpretation dwork: module_lifecycle my_init_dwork my_exit_dwork "[DelayedWork]"
  by unfold_locales (auto simp: my_init_dwork_def my_exit_dwork_def)

interpretation oneshot: module_lifecycle my_init_timer my_exit_timer "[Timer]"
  by unfold_locales (auto simp: my_init_timer_def my_exit_timer_def)

record oneshot_sys =
  armed :: bool
  running :: bool
  fired :: nat
  o_exit_at :: exit_pc

inductive oneshot_step :: "oneshot_sys \<Rightarrow> oneshot_sys \<Rightarrow> bool" where
  Fire: "armed s \<Longrightarrow> oneshot_step s (s\<lparr>armed := False, running := True, fired := fired s + 1\<rparr>)"
| Done: "running s \<Longrightarrow> oneshot_step s (s\<lparr>running := False\<rparr>)"
| Cancel: "o_exit_at s = Loaded \<Longrightarrow> \<not> running s \<Longrightarrow>
    oneshot_step s (s\<lparr>armed := False, o_exit_at := Unloaded\<rparr>)"

inductive_cases oneshot_stepE: "oneshot_step s s'"

definition oneshot_start :: oneshot_sys where
  "oneshot_start = \<lparr>armed = True, running = False, fired = 0, o_exit_at = Loaded\<rparr>"

definition oneshot_inv :: "oneshot_sys \<Rightarrow> bool" where
  "oneshot_inv s \<longleftrightarrow> fired s + (if armed s then 1 else 0) \<le> 1 \<and>
     (o_exit_at s \<noteq> Loaded \<longrightarrow> \<not> armed s \<and> \<not> running s)"

lemma oneshot_inv_step: "oneshot_step s s' \<Longrightarrow> oneshot_inv s \<Longrightarrow> oneshot_inv s'"
  by (erule oneshot_stepE) (auto simp: oneshot_inv_def split: if_splits)

lemma oneshot_inv_start: "oneshot_inv oneshot_start"
  by (simp add: oneshot_inv_def oneshot_start_def)

text \<open>The callback runs at most once, and not at all any more once \<open>exit\<close> has returned.\<close>

lemma oneshot_at_most_once:
  assumes "oneshot_step\<^sup>*\<^sup>* oneshot_start s"
  shows "fired s \<le> 1" and "o_exit_at s = Unloaded \<Longrightarrow> \<not> oneshot_step s s'"
proof -
  have "oneshot_inv s"
    using assms oneshot_inv_start by (rule invariant_reach) (rule oneshot_inv_step)
  then show "fired s \<le> 1" and "o_exit_at s = Unloaded \<Longrightarrow> \<not> oneshot_step s s'"
    by (auto simp: oneshot_inv_def elim!: oneshot_stepE split: if_splits)
qed

section \<open>Properties\<close>

text \<open>C34. The thread function of 11 returns exactly when it is asked to stop: with the first
  request seen at test \<open>n\<close> it returns 0 after printing \<open>n\<close> times (the counter wraps at
  \<open>2 ^ 32\<close>), and without any request it never returns.\<close>

theorem kthread_runs_until_stopped:
  "(stop n \<and> (\<forall>m < n. \<not> stop m) \<longrightarrow> thread_function_1 stop = Some (0, of_nat n)) \<and>
   ((\<forall>m. \<not> stop m) \<longrightarrow> thread_function_1 stop = None)"
proof (intro conjI impI)
  assume "stop n \<and> (\<forall>m < n. \<not> stop m)"
  then have "until_stop stop (\<lambda>count. count + 1) 0 (0 :: 32 word) = Some (((\<lambda>c. c + 1) ^^ n) 0)"
    using until_stop_first[of stop 0 n "\<lambda>c. c + 1" 0] by simp
  moreover have "((\<lambda>c. c + 1) ^^ n) (0 :: 32 word) = of_nat n"
    by (induction n) (simp_all add: add.commute)
  ultimately show "thread_function_1 stop = Some (0, of_nat n)" by (simp add: thread_function_1_def)
next
  assume "\<forall>m. \<not> stop m"
  then have "until_stop stop (\<lambda>count. count + 1) 0 (0 :: 32 word) = None"
    using until_stop_Some[of stop "\<lambda>c. c + 1" 0 "0 :: 32 word"]
    by (cases "until_stop stop (\<lambda>count. count + 1) 0 (0 :: 32 word)") auto
  then show "thread_function_1 stop = None" by (simp add: thread_function_1_def)
qed

theorem kthread_runs_until_stopped_witness:
  "thread_function_1 (\<lambda>n. 5 \<le> n) = Some (0, 5) \<and> thread_function_1 (\<lambda>n. False) = None"
  using kthread_runs_until_stopped[of "\<lambda>n. 5 \<le> n" 5] kthread_runs_until_stopped[of "\<lambda>n. False" 0]
  by simp

text \<open>The \<open>init\<close> of 11 either holds both threads or, on a failure of either creation,
  none; but its \<open>exit\<close> reads the task structures after \<open>kthread_stop\<close> gave them up.\<close>

theorem kthread_exit_uses_stopped_tasks:
  assumes "kenv_ok env" and "run_state (my_init_kth env) [] = (r, h)"
  shows "(r = 0 \<and> replay [] h = Some [Thread ''my_kthread-2'', Thread ''my_kthread-1''] \<and>
          replay [] (snd (run_state (my_exit_kth env) h)) = None) \<or>
         (r < 0 \<and> replay [] h = Some [])"
  using assms by (auto simp: my_init_kth_def my_exit_kth_def kenv_rules split: if_splits)

theorem kthread_exit_uses_stopped_tasks_witness:
  "replay [] (snd (run_state (do { _ \<leftarrow> my_init_kth kenv_good; my_exit_kth kenv_good }) [])) = None"
proof -
  have "fst (run_state (my_init_kth kenv_good) []) = 0" by code_simp
  then obtain h where r: "run_state (my_init_kth kenv_good) [] = (0, h)" by (metis prod.collapse)
  from kthread_exit_uses_stopped_tasks[OF kenv_good_ok r] show ?thesis by (simp add: r)
qed

text \<open>C33. Unloading the custom work queue module of 12 is safe and ends: in every
  interleaving the queue is destroyed only after the handler returned, and once \<open>exit\<close> has
  raised the flag, at most four more steps of handler and \<open>exit\<close> together finish it, with
  a step always possible until then; \<open>exit\<close> never goes back to an earlier phase.\<close>

theorem cwq_unload_ends:
  assumes "cwq_step\<^sup>*\<^sup>* cwq_start s"
  shows "(exit_at s = Unloaded \<longrightarrow> work_at s = Finished) \<and>
    (exit_at s \<noteq> Unloaded \<longrightarrow> (\<exists>s'. cwq_step s s')) \<and>
    (exit_at s = Flagged \<longrightarrow> (\<forall>n s'. (cwq_step ^^ n) s s' \<longrightarrow> n \<le> 4)) \<and>
    (\<forall>s'. cwq_step s s' \<longrightarrow> exit_at s \<le> exit_at s')"
proof -
  have i: "cwq_inv s" using cwq_inv_reach[OF assms] .
  have "n \<le> 4" if "exit_at s = Flagged" "(cwq_step ^^ n) s s'" for n s'
    using cwq_stop_run[OF that(2) i] that(1) by (auto split: work_pc.splits)
  with i cwq_progress[OF i] cwq_exit_advances show ?thesis by (auto simp: cwq_inv_def)
qed

theorem cwq_unload_ends_witness:
  "\<exists>s. exit_at s = Flagged \<and> (\<forall>n s'. (cwq_step ^^ n) s s' \<longrightarrow> n \<le> 4)"
proof -
  let ?s = "cwq_start\<lparr>stop_work_flag := 1, exit_at := Flagged\<rparr>"
  have "cwq_step cwq_start ?s" by (rule cwq_step.Raise) (simp add: cwq_start_def)
  then have "cwq_step\<^sup>*\<^sup>* cwq_start ?s" by (rule r_into_rtranclp)
  from cwq_unload_ends[OF this] have "exit_at ?s = Flagged \<and> (\<forall>n s'. (cwq_step ^^ n) ?s s' \<longrightarrow> n \<le> 4)"
    by simp
  then show ?thesis by blast
qed

text \<open>C32. The periodic timer of 13 keeps running until \<open>exit\<close> begins and is quiet when it
  has ended: while the module is loaded the timer is pending or its callback runs, at most
  one callback begins after the stop flag was set, and once \<open>exit\<close> returned nothing is
  pending, no callback runs and nothing can happen any more.\<close>

theorem timer_periodic_shutdown:
  assumes "timer_step\<^sup>*\<^sup>* timer_start s"
  shows "(t_exit_at s = Loaded \<longrightarrow> pending s \<or> callback_at s \<noteq> Idle) \<and>
    (t_exit_at s \<noteq> Loaded \<longrightarrow> ticks s \<le> ticks_at_stop s + 1) \<and>
    (t_exit_at s = Unloaded \<longrightarrow> \<not> pending s \<and> callback_at s = Idle \<and> (\<forall>s'. \<not> timer_step s s'))"
proof -
  have "timer_inv s" using timer_inv_reach[OF assms] .
  then show ?thesis
    by (cases "t_exit_at s") (auto simp: timer_inv_def timer_step_simps split: if_splits)
qed

theorem timer_periodic_shutdown_witness:
  "\<exists>s. t_exit_at s = Unloaded \<and> \<not> pending s \<and> (\<forall>s'. \<not> timer_step s s')"
proof -
  let ?a = "timer_start\<lparr>stop_flag := 1, t_exit_at := Flagged, ticks_at_stop := ticks timer_start\<rparr>"
  let ?b = "?a\<lparr>pending := False, t_exit_at := Unloaded\<rparr>"
  have "timer_step timer_start ?a" by (rule timer_step.Set_stop) (simp add: timer_start_def)
  moreover have "timer_step ?a ?b" by (rule timer_step.Delete) (simp_all add: timer_start_def)
  ultimately have "timer_step\<^sup>*\<^sup>* timer_start ?b" by (meson rtranclp.intros)
  from timer_periodic_shutdown[OF this]
  have "t_exit_at ?b = Unloaded \<and> \<not> pending ?b \<and> (\<forall>s'. \<not> timer_step ?b s')" by simp
  then show ?thesis by blast
qed

end
