(* ===== verification/GpioIrq.thy ===== *)
theory GpioIrq
  imports Kapi CharIface
begin

text \<open>
  The button drivers: \<open>14.Interrupt_Handling\<close> (suffix \<open>btn\<close>), \<open>15.PlatformDriver_DT\<close>
  (\<open>dt\<close>, with the debounced handler), \<open>16.Threaded_IRQ\<close> (\<open>tirq\<close>), \<open>17.Workqueue_IRQ\<close>
  (\<open>wirq\<close>) and \<open>18.Kthread_IRQ\<close> (\<open>kirq\<close>). Probes and removes are programs over the
  kernel-call log; managed (\<open>devm\<close>) resources belong to the kernel. The handlers of 17 and
  18 run as step relations against the bottom half and \<open>remove\<close>.
\<close>

section \<open>14: a blocking read of button presses\<close>

text \<open>\<open>BUTTON_PRESSED\<close>, a newline and the NUL: 16 bytes.\<close>

definition button_text :: "byte list" where
  "button_text = bytes_of ''BUTTON_PRESSED'' @ [10, 0]"

definition gpio_irq_handler_btn :: "int \<Rightarrow> int" where
  "gpio_irq_handler_btn pressed = 1"

text \<open>
  \<open>read\<close> with the result of its wait, which it ignores: the value returned, the bytes stored
  through \<open>buf\<close>, and \<open>pressed\<close>.
\<close>

definition dev_read_btn :: "int \<Rightarrow> uapi \<Rightarrow> nat \<Rightarrow> int \<Rightarrow> int \<times> byte list \<times> int" where
  "dev_read_btn wait_result K len pressed =
     (let pressed = 0; (left, out) = copy_to_user K button_text
      in if left \<noteq> 0 then (- EFAULT, out, pressed) else (16, out, pressed))"

definition gpio_init_btn :: "nat \<Rightarrow> kenv \<Rightarrow> (int \<times> int) kprog" where
  "gpio_init_btn gpio_num env = do {
     ret \<leftarrow> kcall env (Irqc (Gpio_request gpio_num));
     if ret \<noteq> 0 then kret (ret, 0)
     else do {
       _ \<leftarrow> kcall env (Irqc (Gpio_direction_input gpio_num));
       irq_number \<leftarrow> kcall env (Irqc (Gpio_to_irq (int gpio_num)));
       ret \<leftarrow> kcall env (Irqc (Request_irq irq_number));
       if ret \<noteq> 0 then do {
         _ \<leftarrow> kcall env (Irqc (Gpio_free gpio_num));
         kret (ret, irq_number)
       }
       else do {
         _ \<leftarrow> kcall env (Chr (Register_chrdev 240 ''gpio_irq_drv''));
         kret (0, irq_number)
       }
     }
   }"

definition gpio_exit_btn :: "nat \<Rightarrow> int \<Rightarrow> kenv \<Rightarrow> unit kprog" where
  "gpio_exit_btn gpio_num irq_number env = do {
     _ \<leftarrow> kcall env (Irqc (Free_irq irq_number));
     _ \<leftarrow> kcall env (Irqc (Gpio_free gpio_num));
     _ \<leftarrow> kcall env (Chr (Unregister_chrdev 240 ''gpio_irq_drv''));
     kret ()
   }"

interpretation btn: lifecycle_on "\<lambda>env. do { ri \<leftarrow> gpio_init_btn gpio_num env; kret (fst ri) }"
  "gpio_exit_btn gpio_num irq" "[Chrdev, Irq, Gpio]" "[Chr (Register_chrdev 240 ''gpio_irq_drv'')]"
  for gpio_num irq
  by unfold_locales
    (auto simp: gpio_init_btn_def gpio_exit_btn_def kenv_rules split: if_splits)

section \<open>15: debouncing\<close>

type_synonym jiffies = "64 word"

text \<open>\<open>time_after(a, b)\<close>: \<open>(long)(b - a) < 0\<close>.\<close>

definition time_after :: "jiffies \<Rightarrow> jiffies \<Rightarrow> bool" where
  "time_after a b \<longleftrightarrow> sint (b - a) < 0"

text \<open>The handler: whether it reported the press, and \<open>last_jiffies\<close>. \<open>HZ\<close> is a kernel option.\<close>

definition button_irq_dt :: "nat \<Rightarrow> jiffies \<Rightarrow> jiffies \<Rightarrow> bool \<times> jiffies" where
  "button_irq_dt HZ now last_jiffies =
     (if time_after now (last_jiffies + of_nat (HZ div 2)) then (True, now) else (False, last_jiffies))"

fun presses_dt :: "nat \<Rightarrow> jiffies list \<Rightarrow> jiffies \<Rightarrow> bool list" where
  "presses_dt HZ [] last_jiffies = []"
| "presses_dt HZ (now # ts) last_jiffies =
     (case button_irq_dt HZ now last_jiffies of (hit, l) \<Rightarrow> hit # presses_dt HZ ts l)"

text \<open>The intended filter on unbounded time.\<close>

fun debounce_spec :: "nat \<Rightarrow> nat list \<Rightarrow> nat \<Rightarrow> bool list" where
  "debounce_spec gap [] prev = []"
| "debounce_spec gap (t # ts) prev =
     (if prev + gap < t then True # debounce_spec gap ts t else False # debounce_spec gap ts prev)"

text \<open>\<open>probe\<close>: the value returned and \<open>mydev->gpio\<close>, \<open>mydev->irq\<close>.\<close>

definition my_probe_dt :: "kenv \<Rightarrow> (int \<times> int \<times> int) kprog" where
  "my_probe_dt env = do {
     mydev \<leftarrow> kcall env (Mm (Devm_kzalloc ''mydev''));
     if mydev = 0 then kret (- ENOMEM, 0, 0)
     else do {
       gpio \<leftarrow> kcall env (Irqc (Of_get_named_gpio ''button-gpio''));
       valid \<leftarrow> kcall env (Irqc (Gpio_is_valid gpio));
       if valid = 0 then kret (- EINVAL, gpio, 0)
       else do {
         ret \<leftarrow> kcall env (Irqc (Devm_gpio_request_one gpio));
         if ret \<noteq> 0 then kret (ret, gpio, 0)
         else do {
           irq \<leftarrow> kcall env (Irqc (Gpio_to_irq gpio));
           ret \<leftarrow> kcall env (Irqc (Devm_request_irq irq));
           if ret \<noteq> 0 then kret (ret, gpio, irq)
           else do {
             _ \<leftarrow> kcall env (Dev Platform_set_drvdata);
             kret (0, gpio, irq)
           }
         }
       }
     }
   }"

definition my_remove_dt :: "kenv \<Rightarrow> unit kprog" where
  "my_remove_dt env = kret ()"

section \<open>16: a threaded handler\<close>

definition top_irq_tirq :: irqreturn_t where
  "top_irq_tirq = IRQ_WAKE_THREAD"

definition thread_irq_tirq :: irqreturn_t where
  "thread_irq_tirq = IRQ_HANDLED"

definition my_probe_tirq :: "kenv \<Rightarrow> (int \<times> int \<times> int) kprog" where
  "my_probe_tirq env = do {
     mydev \<leftarrow> kcall env (Mm (Devm_kzalloc ''mydev''));
     if mydev = 0 then kret (- ENOMEM, 0, 0)
     else do {
       gpio \<leftarrow> kcall env (Irqc (Of_get_named_gpio ''button-gpio''));
       valid \<leftarrow> kcall env (Irqc (Gpio_is_valid gpio));
       if valid = 0 then kret (- EINVAL, gpio, 0)
       else do {
         ret \<leftarrow> kcall env (Irqc (Devm_gpio_request_one gpio));
         if ret \<noteq> 0 then kret (ret, gpio, 0)
         else do {
           irq \<leftarrow> kcall env (Irqc (Gpio_to_irq gpio));
           ret \<leftarrow> kcall env (Irqc (Devm_request_threaded_irq irq));
           if ret \<noteq> 0 then kret (ret, gpio, irq)
           else do {
             _ \<leftarrow> kcall env (Dev Platform_set_drvdata);
             kret (0, gpio, irq)
           }
         }
       }
     }
   }"

definition my_remove_tirq :: "kenv \<Rightarrow> unit kprog" where
  "my_remove_tirq env = kret ()"

section \<open>17: a work item scheduled by the handler\<close>

definition my_probe_wirq :: "kenv \<Rightarrow> (int \<times> int \<times> int) kprog" where
  "my_probe_wirq env = do {
     mydev \<leftarrow> kcall env (Mm (Devm_kzalloc ''mydev''));
     if mydev = 0 then kret (- ENOMEM, 0, 0)
     else do {
       gpio \<leftarrow> kcall env (Irqc (Of_get_named_gpio ''button-gpio''));
       valid \<leftarrow> kcall env (Irqc (Gpio_is_valid gpio));
       if valid = 0 then kret (- EINVAL, gpio, 0)
       else do {
         ret \<leftarrow> kcall env (Irqc (Devm_gpio_request_one gpio));
         if ret \<noteq> 0 then kret (ret, gpio, 0)
         else do {
           irq \<leftarrow> kcall env (Irqc (Gpio_to_irq gpio));
           ret \<leftarrow> kcall env (Irqc (Devm_request_irq irq));
           if ret \<noteq> 0 then kret (ret, gpio, irq)
           else do {
             _ \<leftarrow> kcall env (Dev Platform_set_drvdata);
             kret (0, gpio, irq)
           }
         }
       }
     }
   }"

definition my_remove_wirq :: "kenv \<Rightarrow> unit kprog" where
  "my_remove_wirq env = do {
     _ \<leftarrow> kcall env (Task Cancel_work_sync);
     kret ()
   }"

text \<open>
  The work item and the removal of the device. \<open>remove\<close> cancels the work; after it has
  returned the kernel releases the managed resources in the reverse order of their
  acquisition: the interrupt, the GPIO, then \<open>mydev\<close>, which holds the work item and is read
  when the work ends.
\<close>

datatype unbind_pc = Bound | Cancelled | Irq_released | Mem_released

record work_sys =
  work_pending :: bool
  work_running :: bool
  unbind_at :: unbind_pc

inductive work_step :: "bool \<Rightarrow> work_sys \<Rightarrow> work_sys \<Rightarrow> bool" for late where
  Button: "unbind_at s = Bound \<or> (late \<and> unbind_at s = Cancelled) \<Longrightarrow>
    work_step late s (s\<lparr>work_pending := True\<rparr>)"
| Work_begin: "work_pending s \<Longrightarrow> \<not> work_running s \<Longrightarrow>
    work_step late s (s\<lparr>work_pending := False, work_running := True\<rparr>)"
| Work_end: "work_running s \<Longrightarrow> work_step late s (s\<lparr>work_running := False\<rparr>)"
| Cancel: "unbind_at s = Bound \<Longrightarrow> \<not> work_running s \<Longrightarrow>
    work_step late s (s\<lparr>work_pending := False, unbind_at := Cancelled\<rparr>)"
| Release_irq: "unbind_at s = Cancelled \<Longrightarrow> work_step late s (s\<lparr>unbind_at := Irq_released\<rparr>)"
| Release_mem: "unbind_at s = Irq_released \<Longrightarrow> work_step late s (s\<lparr>unbind_at := Mem_released\<rparr>)"

definition work_start :: work_sys where
  "work_start = \<lparr>work_pending = False, work_running = False, unbind_at = Bound\<rparr>"

section \<open>18: a kernel thread woken by the handler\<close>

definition my_probe_kirq :: "kenv \<Rightarrow> (int \<times> int) kprog" where
  "my_probe_kirq env = do {
     mydev \<leftarrow> kcall env (Mm (Devm_kzalloc ''mydev''));
     if mydev = 0 then kret (- ENOMEM, 0)
     else do {
       gpio \<leftarrow> kcall env (Irqc (Of_get_named_gpio ''button-gpio''));
       valid \<leftarrow> kcall env (Irqc (Gpio_is_valid gpio));
       if valid = 0 then kret (- EINVAL, 0)
       else do {
         ret \<leftarrow> kcall env (Irqc (Devm_gpio_request_one gpio));
         if ret \<noteq> 0 then kret (ret, 0)
         else do {
           irq \<leftarrow> kcall env (Irqc (Gpio_to_irq gpio));
           ret \<leftarrow> kcall env (Irqc (Devm_request_irq irq));
           if ret \<noteq> 0 then kret (ret, 0)
           else do {
             thread \<leftarrow> kcall env (Task (Kthread_run ''button_thread''));
             if IS_ERR thread then kret (thread, thread)
             else do {
               _ \<leftarrow> kcall env (Dev Platform_set_drvdata);
               kret (0, thread)
             }
           }
         }
       }
     }
   }"

definition my_remove_kirq :: "int \<Rightarrow> kenv \<Rightarrow> unit kprog" where
  "my_remove_kirq thread env =
     (if thread \<noteq> 0 then do { _ \<leftarrow> kcall env (Task (Kthread_stop ''button_thread'')); kret () }
      else kret ())"

interpretation dt: module_lifecycle "\<lambda>env. do { r \<leftarrow> my_probe_dt env; kret (fst r) }" my_remove_dt "[]"
  by unfold_locales (auto simp: my_probe_dt_def my_remove_dt_def kenv_rules split: if_splits)

interpretation tirq: module_lifecycle "\<lambda>env. do { r \<leftarrow> my_probe_tirq env; kret (fst r) }" my_remove_tirq "[]"
  by unfold_locales (auto simp: my_probe_tirq_def my_remove_tirq_def kenv_rules split: if_splits)

interpretation wirq: module_lifecycle "\<lambda>env. do { r \<leftarrow> my_probe_wirq env; kret (fst r) }" my_remove_wirq "[]"
  by unfold_locales (auto simp: my_probe_wirq_def my_remove_wirq_def kenv_rules split: if_splits)

interpretation kirq: module_lifecycle "\<lambda>env. do { r \<leftarrow> my_probe_kirq env; kret (fst r) }"
  "my_remove_kirq 1" "[Thread ''button_thread'']"
  by unfold_locales (auto simp: my_probe_kirq_def my_remove_kirq_def kenv_rules split: if_splits)

text \<open>
  The loop of \<open>thread_fn\<close>: the test of the \<open>while\<close>, the wait, the test after it, the store to
  \<open>data_ready\<close>, the processing, and having returned. \<open>unserved\<close> is true from an interrupt
  until a processing that starts after it.
\<close>

datatype kirq_pc = K_while | K_wait | K_test | K_clear | K_busy | K_exit

record kirq_sys =
  thread_at :: kirq_pc
  data_ready :: bool
  should_stop :: bool
  unserved :: bool

inductive kirq_own :: "kirq_sys \<Rightarrow> kirq_sys \<Rightarrow> bool" where
  While_go: "thread_at s = K_while \<Longrightarrow> \<not> should_stop s \<Longrightarrow> kirq_own s (s\<lparr>thread_at := K_wait\<rparr>)"
| While_end: "thread_at s = K_while \<Longrightarrow> should_stop s \<Longrightarrow> kirq_own s (s\<lparr>thread_at := K_exit\<rparr>)"
| Wait: "thread_at s = K_wait \<Longrightarrow> data_ready s \<or> should_stop s \<Longrightarrow> kirq_own s (s\<lparr>thread_at := K_test\<rparr>)"
| Break: "thread_at s = K_test \<Longrightarrow> should_stop s \<Longrightarrow> kirq_own s (s\<lparr>thread_at := K_exit\<rparr>)"
| Keep: "thread_at s = K_test \<Longrightarrow> \<not> should_stop s \<Longrightarrow> kirq_own s (s\<lparr>thread_at := K_clear\<rparr>)"
| Clear: "thread_at s = K_clear \<Longrightarrow>
    kirq_own s (s\<lparr>data_ready := False, unserved := False, thread_at := K_busy\<rparr>)"
| Process: "thread_at s = K_busy \<Longrightarrow> kirq_own s (s\<lparr>thread_at := K_while\<rparr>)"

inductive kirq_env :: "kirq_sys \<Rightarrow> kirq_sys \<Rightarrow> bool" where
  Isr: "kirq_env s (s\<lparr>data_ready := True, unserved := True\<rparr>)"
| Stop: "kirq_env s (s\<lparr>should_stop := True\<rparr>)"

definition kirq_start :: kirq_sys where
  "kirq_start = \<lparr>thread_at = K_while, data_ready = False, should_stop = False, unserved = False\<rparr>"

fun kirq_rank :: "kirq_pc \<Rightarrow> nat" where
  "kirq_rank K_clear = 3"
| "kirq_rank K_wait = 2"
| "kirq_rank K_busy = 2"
| "kirq_rank K_while = 1"
| "kirq_rank K_test = 1"
| "kirq_rank K_exit = 0"

section \<open>Invariants\<close>

lemma time_after_of_nat:
  assumes "\<bar>int a - int b\<bar> < 2 ^ 63"
  shows "time_after (of_nat a) (of_nat b) \<longleftrightarrow> b < a"
proof -
  have "of_nat b - of_nat a = (of_int (int b - int a) :: jiffies)" by simp
  then have "sint (of_nat b - of_nat a :: jiffies) = signed_take_bit 63 (int b - int a)"
    by (simp only: signed_of_int) simp
  also have "\<dots> = int b - int a" using assms by (intro signed_take_bit_int_eq_self) auto
  finally show ?thesis by (simp add: time_after_def)
qed

lemma presses_refine:
  assumes "HZ div 2 < 2 ^ 62"
  shows "sorted (prev # ts) \<Longrightarrow> (\<forall>t \<in> set ts. t < prev + 2 ^ 62) \<Longrightarrow>
   presses_dt HZ (map of_nat ts) (of_nat prev) = debounce_spec (HZ div 2) ts prev"
proof (induction ts arbitrary: prev)
  case (Cons t ts)
  have h: "int (HZ div 2) < 2 ^ 62" using assms by (metis of_nat_less_iff of_nat_numeral of_nat_power)
  have t: "prev \<le> t" "t < prev + 2 ^ 62" using Cons.prems by simp_all
  have "int t < int prev + 2 ^ 62" using t(2) by (metis of_nat_add of_nat_less_iff of_nat_numeral of_nat_power)
  then have "\<bar>int t - int (prev + HZ div 2)\<bar> < 2 ^ 63" using t(1) h by simp
  from time_after_of_nat[OF this]
  have hit: "time_after (of_nat t) (of_nat prev + of_nat (HZ div 2)) \<longleftrightarrow> prev + HZ div 2 < t"
    by simp
  have "presses_dt HZ (map of_nat ts) (of_nat t) = debounce_spec (HZ div 2) ts t"
    using Cons.prems t(1) by (intro Cons.IH) fastforce+
  moreover have "presses_dt HZ (map of_nat ts) (of_nat prev) = debounce_spec (HZ div 2) ts prev"
    using Cons.prems by (intro Cons.IH) auto
  ultimately show ?case by (simp add: button_irq_dt_def hit)
qed simp

lemma work_inv_step:
  "work_step False s s' \<Longrightarrow>
   (unbind_at s \<noteq> Bound \<longrightarrow> \<not> work_pending s \<and> \<not> work_running s) \<Longrightarrow>
   (unbind_at s' \<noteq> Bound \<longrightarrow> \<not> work_pending s' \<and> \<not> work_running s')"
  by (induction rule: work_step.induct) auto

definition kirq_inv :: "kirq_sys \<Rightarrow> bool" where
  "kirq_inv s \<longleftrightarrow> (unserved s \<longrightarrow> data_ready s) \<and>
     (thread_at s = K_test \<or> thread_at s = K_clear \<longrightarrow> data_ready s \<or> should_stop s)"

lemma kirq_inv_step: "kirq_own s s' \<or> kirq_env s s' \<Longrightarrow> kirq_inv s \<Longrightarrow> kirq_inv s'"
  by (auto elim!: kirq_own.cases kirq_env.cases simp: kirq_inv_def)

lemma kirq_inv_start: "kirq_inv kirq_start"
  by (simp add: kirq_inv_def kirq_start_def)

lemma kirq_inv_reach: "(\<lambda>a b. kirq_own a b \<or> kirq_env a b)\<^sup>*\<^sup>* kirq_start s \<Longrightarrow> kirq_inv s"
  by (erule invariant_reach) (blast intro: kirq_inv_start kirq_inv_step)+

lemma kirq_own_enabled:
  "thread_at s \<noteq> K_exit \<Longrightarrow> data_ready s \<or> should_stop s \<Longrightarrow> \<exists>s'. kirq_own s s'"
  by (cases "thread_at s"; cases "should_stop s") (auto intro: kirq_own.intros)

lemma kirq_own_rank:
  "kirq_own s s' \<Longrightarrow> should_stop s \<Longrightarrow>
   kirq_rank (thread_at s') < kirq_rank (thread_at s) \<and> should_stop s'"
  by (induction rule: kirq_own.induct) auto

lemma kirq_env_rank: "kirq_env s s' \<Longrightarrow> thread_at s' = thread_at s"
  by (induction rule: kirq_env.induct) auto

section \<open>Properties\<close>

text \<open>C18. The debounce filter of 15: on interrupts at nondecreasing times less than \<open>2 ^ 62\<close>
  ticks after the last accepted press, the handler on wrapping \<open>jiffies\<close> reports exactly the
  presses that come more than half a second after the last reported one, wherever the
  counter starts, the wrap-around at \<open>2 ^ 64\<close> included.\<close>

theorem debounce_refines_spec:
  assumes "HZ div 2 < 2 ^ 62" and "sorted (prev # ts)" and "\<forall>t \<in> set ts. t < prev + 2 ^ 62"
  shows "presses_dt HZ (map of_nat ts) (of_nat prev) = debounce_spec (HZ div 2) ts prev"
  by (rule presses_refine[OF assms])

theorem debounce_refines_spec_witness:
  "presses_dt 250 (map of_nat [2 ^ 64 - 1, 2 ^ 64 + 5, 2 ^ 64 + 200]) (of_nat (2 ^ 64 - 100)) =
     [False, False, True] \<and> (of_nat (2 ^ 64 + 200) :: jiffies) = 200"
proof -
  have "sorted ((2 ^ 64 - 100 :: nat) # [2 ^ 64 - 1, 2 ^ 64 + 5, 2 ^ 64 + 200])" by simp
  moreover have "\<forall>t \<in> set [2 ^ 64 - 1, 2 ^ 64 + 5, 2 ^ 64 + 200]. t < (2 ^ 64 - 100 :: nat) + 2 ^ 62"
    by simp
  ultimately have "presses_dt 250 (map of_nat [2 ^ 64 - 1, 2 ^ 64 + 5, 2 ^ 64 + 200]) (of_nat (2 ^ 64 - 100)) =
      debounce_spec (250 div 2) [2 ^ 64 - 1, 2 ^ 64 + 5, 2 ^ 64 + 200] (2 ^ 64 - 100)"
    by (intro debounce_refines_spec) simp_all
  moreover have "debounce_spec (250 div 2) [2 ^ 64 - 1, 2 ^ 64 + 5, 2 ^ 64 + 200] (2 ^ 64 - 100) =
      [False, False, True]" by simp
  ultimately show ?thesis by simp
qed

text \<open>The \<open>read\<close> of 14 stores 16 bytes whatever length the caller asked for, so a shorter
  buffer is overrun, and it does not look at the wait: a signal makes it report a press
  that did not happen and forget one that is pending.\<close>

theorem btn_read_ignores_length:
  assumes "uapi_nofault K" and "len < 16"
  shows "\<exists>out. dev_read_btn ret K len pressed = (16, out, 0) \<and> length out = 16 \<and> len < length out"
  using assms by (simp add: dev_read_btn_def nofault_ctu button_text_def bytes_of_def)

theorem btn_read_ignores_length_witness:
  "\<exists>out. dev_read_btn (- ERESTARTSYS) uapi_plain 1 0 = (16, out, 0) \<and> length out = 16"
  using btn_read_ignores_length[OF uapi_plain_nofault, of 1 "- ERESTARTSYS" 0] by auto

text \<open>C30. Removing the device of 17 is safe only if no interrupt comes after the work was
  cancelled: then no work is pending or running once the memory is released. The driver
  leaves the interrupt enabled there, and one press in that window runs the work item on
  released memory.\<close>

theorem wirq_remove_race:
  "((work_step False)\<^sup>*\<^sup>* work_start s \<and> unbind_at s = Mem_released \<longrightarrow>
      \<not> work_pending s \<and> \<not> work_running s) \<and>
   (\<exists>t. (work_step True)\<^sup>*\<^sup>* work_start t \<and> unbind_at t = Mem_released \<and> work_running t)"
proof
  have "unbind_at s \<noteq> Bound \<longrightarrow> \<not> work_pending s \<and> \<not> work_running s"
    if "(work_step False)\<^sup>*\<^sup>* work_start s"
    using that by (rule invariant_reach) (use work_inv_step in \<open>auto simp: work_start_def\<close>)
  then show "(work_step False)\<^sup>*\<^sup>* work_start s \<and> unbind_at s = Mem_released \<longrightarrow>
      \<not> work_pending s \<and> \<not> work_running s" by auto
  let ?S = "\<lambda>p r u. \<lparr>work_pending = p, work_running = r, unbind_at = u\<rparr>"
  note go = converse_rtranclp_into_rtranclp[of "work_step True"]
  have s1: "work_step True work_start (?S False False Cancelled)"
    using work_step.Cancel[of work_start True] by (simp add: work_start_def)
  have s2: "work_step True (?S False False Cancelled) (?S True False Cancelled)"
    using work_step.Button[of "?S False False Cancelled" True] by simp
  have s3: "work_step True (?S True False Cancelled) (?S True False Irq_released)"
    using work_step.Release_irq[of "?S True False Cancelled" True] by simp
  have s4: "work_step True (?S True False Irq_released) (?S True False Mem_released)"
    using work_step.Release_mem[of "?S True False Irq_released" True] by simp
  have s5: "work_step True (?S True False Mem_released) (?S False True Mem_released)"
    using work_step.Work_begin[of "?S True False Mem_released" True] by simp
  have "(work_step True)\<^sup>*\<^sup>* work_start (?S False True Mem_released)"
    by (rule go[OF s1 go[OF s2 go[OF s3 go[OF s4 r_into_rtranclp[of "work_step True", OF s5]]]]])
  then show "\<exists>t. (work_step True)\<^sup>*\<^sup>* work_start t \<and> unbind_at t = Mem_released \<and> work_running t"
    by (intro exI[of _ "?S False True Mem_released"]) simp
qed

theorem wirq_remove_race_witness:
  "\<exists>t. (work_step True)\<^sup>*\<^sup>* work_start t \<and> work_running t"
  using wirq_remove_race[of work_start] by blast

text \<open>C21. The thread of 18 loses no press and can always be stopped: a press not yet
  processed keeps \<open>data_ready\<close> set, with which the thread can always go on; and once a stop
  is requested it can always go on too, each of its own steps brings it closer to its
  return, at most three steps away, and presses in between do not delay it.\<close>

theorem kirq_no_lost_press_and_stops:
  assumes "(\<lambda>a b. kirq_own a b \<or> kirq_env a b)\<^sup>*\<^sup>* kirq_start s" and "thread_at s \<noteq> K_exit"
  shows "(unserved s \<longrightarrow> data_ready s \<and> (\<exists>s'. kirq_own s s')) \<and>
    (should_stop s \<longrightarrow> (\<exists>s'. kirq_own s s') \<and> kirq_rank (thread_at s) \<le> 3 \<and>
      (\<forall>s'. kirq_own s s' \<longrightarrow> kirq_rank (thread_at s') < kirq_rank (thread_at s) \<and> should_stop s') \<and>
      (\<forall>s'. kirq_env s s' \<longrightarrow> thread_at s' = thread_at s))"
proof -
  have i: "kirq_inv s" using kirq_inv_reach[OF assms(1)] .
  have "kirq_rank (thread_at s) \<le> 3" by (cases "thread_at s") auto
  with i kirq_own_enabled[OF assms(2)] show ?thesis
    using kirq_own_rank kirq_env_rank by (auto simp: kirq_inv_def)
qed

theorem kirq_no_lost_press_and_stops_witness:
  "\<exists>s s'. unserved s \<and> kirq_own s s'"
proof -
  let ?s = "kirq_start\<lparr>data_ready := True, unserved := True\<rparr>"
  have "kirq_env kirq_start ?s" by (rule kirq_env.Isr)
  then have r: "(\<lambda>a b. kirq_own a b \<or> kirq_env a b)\<^sup>*\<^sup>* kirq_start ?s" by (intro r_into_rtranclp) simp
  have "thread_at ?s \<noteq> K_exit" "unserved ?s" by (simp_all add: kirq_start_def)
  with kirq_no_lost_press_and_stops[OF r] show ?thesis by blast
qed

end
