(* ===== verification/ButtonRead.thy ===== *)
theory ButtonRead
  imports GpioIrq
begin

text \<open>
  14 at work: processes that read \<open>/dev\<close> in a loop, the interrupt of the button, and signals.
  The three statements of \<open>dev_read\<close> are steps of their own; the handler runs between any two
  of them.
\<close>

section \<open>Readers and interrupts\<close>

datatype btn_pc = B_wait | B_clear | B_copy

text \<open>\<open>b_reads\<close> counts the reads of a process that have returned.\<close>

record btn_reader =
  b_pc :: btn_pc
  b_reads :: nat

record btn_sys =
  b_pressed :: int
  b_presses :: nat
  b_signals :: nat
  b_readers :: "btn_reader list"

definition press_step :: "btn_sys \<Rightarrow> btn_sys" where
  "press_step s = s\<lparr>b_pressed := gpio_irq_handler_btn (b_pressed s), b_presses := b_presses s + 1\<rparr>"

text \<open>One statement of \<open>dev_read\<close>; \<open>sig\<close> is whether a signal is pending for the process.\<close>

definition read_step :: "bool \<Rightarrow> btn_reader \<Rightarrow> btn_sys \<Rightarrow> btn_reader \<times> btn_sys" where
  "read_step sig r s = (case b_pc r of
      B_wait \<Rightarrow> if b_pressed s = 1 then (r\<lparr>b_pc := B_clear\<rparr>, s)
               else if sig then (r\<lparr>b_pc := B_clear\<rparr>, s\<lparr>b_signals := b_signals s + 1\<rparr>)
               else (r, s)
    | B_clear \<Rightarrow> (r\<lparr>b_pc := B_copy\<rparr>, s\<lparr>b_pressed := 0\<rparr>)
    | B_copy \<Rightarrow> (r\<lparr>b_pc := B_wait, b_reads := b_reads r + 1\<rparr>, s))"

datatype btn_event = Press | Reader nat bool

fun btn_step :: "btn_event \<Rightarrow> btn_sys \<Rightarrow> btn_sys" where
  "btn_step Press s = press_step s"
| "btn_step (Reader i sig) s =
     (if i < length (b_readers s)
      then (case read_step sig (b_readers s ! i) s of (r, s') \<Rightarrow> s'\<lparr>b_readers := (b_readers s)[i := r]\<rparr>)
      else s)"

definition btn_run :: "btn_event list \<Rightarrow> btn_sys \<Rightarrow> btn_sys" where
  "btn_run = fold btn_step"

definition btn_start :: "nat \<Rightarrow> btn_sys" where
  "btn_start n = \<lparr>b_pressed = 0, b_presses = 0, b_signals = 0, b_readers = replicate n \<lparr>b_pc = B_wait, b_reads = 0\<rparr>\<rparr>"

section \<open>One reader\<close>

text \<open>A read that is past its wait counts; a press it has not yet cleared is its own.\<close>

definition reader_inv :: "btn_reader \<Rightarrow> btn_sys \<Rightarrow> bool" where
  "reader_inv r s \<longleftrightarrow> b_pressed s \<in> {0, 1} \<and>
     b_reads r + (if b_pc r = B_wait then 0 else 1) + (if b_pressed s = 1 \<and> b_pc r \<noteq> B_clear then 1 else 0)
       \<le> b_presses s + b_signals s"

definition btn_inv :: "btn_sys \<Rightarrow> bool" where
  "btn_inv s \<longleftrightarrow> (\<exists>r. b_readers s = [r] \<and> reader_inv r s)"

lemma reader_inv_press: "reader_inv r s \<Longrightarrow> reader_inv r (press_step s)"
  by (simp add: reader_inv_def press_step_def gpio_irq_handler_btn_def)

lemma reader_inv_read: "reader_inv r s \<Longrightarrow> read_step sig r s = (r', s') \<Longrightarrow> reader_inv r' (s'\<lparr>b_readers := rs\<rparr>)"
  by (cases "b_pc r") (auto simp: reader_inv_def read_step_def split: if_splits)

lemma btn_step_inv: "btn_inv s \<Longrightarrow> btn_inv (btn_step e s)"
proof (cases e)
  case Press
  assume "btn_inv s"
  then obtain r where "b_readers s = [r]" "reader_inv r s" by (auto simp: btn_inv_def)
  with Press reader_inv_press show ?thesis by (simp add: btn_inv_def press_step_def)
next
  case (Reader i sig)
  assume "btn_inv s"
  then obtain r where r: "b_readers s = [r]" "reader_inv r s" by (auto simp: btn_inv_def)
  obtain r' s' where st: "read_step sig r s = (r', s')" by (rule prod.exhaust)
  show ?thesis
  proof (cases "i = 0")
    case True
    have "btn_step e s = s'\<lparr>b_readers := [r']\<rparr>" using Reader True r(1) st by simp
    with reader_inv_read[OF r(2) st, of "[r']"] show ?thesis by (simp add: btn_inv_def)
  next
    case False
    then have "btn_step e s = s" using Reader r(1) by simp
    with \<open>btn_inv s\<close> show ?thesis by simp
  qed
qed

lemma btn_run_inv: "btn_inv s \<Longrightarrow> btn_inv (btn_run es s)"
  by (induction es arbitrary: s) (simp_all add: btn_run_def btn_step_inv)

lemma btn_start_inv: "btn_inv (btn_start 1)"
  by (simp add: btn_inv_def reader_inv_def btn_start_def)

text \<open>Once a press is not yet cleared, the steps of the reader do not block.\<close>

lemma press_answered:
  assumes "b_readers s = [r]" and "b_pc r = B_wait" and "b_pressed s = 1"
  shows "\<exists>r'. b_readers (btn_run (replicate 3 (Reader 0 False)) s) = [r'] \<and> b_reads r' = b_reads r + 1 \<and> b_pc r' = B_wait"
  using assms by (simp add: btn_run_def numeral_3_eq_3 read_step_def)

section \<open>Properties\<close>

text \<open>C28. The reader of 14: with one process, under every interleaving with presses and signals, no more
  reads return than there were presses and signals, and a press that comes while it waits
  makes its read return in its next three steps; two processes can both return from a read
  for one press.\<close>

theorem button_reads:
  assumes "s = btn_run es (btn_start 1)"
  shows "\<exists>r. b_readers s = [r] \<and> b_reads r \<le> b_presses s + b_signals s \<and>
    (b_pc r = B_wait \<longrightarrow> (\<exists>r'. b_readers (btn_run (Press # replicate 3 (Reader 0 False)) s) = [r'] \<and>
       b_reads r' = b_reads r + 1)) \<and>
    (\<exists>es. let t = btn_run es (btn_start 2) in
       map b_reads (b_readers t) = [1, 1] \<and> b_presses t = 1 \<and> b_signals t = 0)"
proof -
  have "btn_inv s" unfolding assms by (rule btn_run_inv[OF btn_start_inv])
  then obtain r where r: "b_readers s = [r]" "b_reads r \<le> b_presses s + b_signals s"
    unfolding btn_inv_def reader_inv_def by fastforce
  have "\<exists>r'. b_readers (btn_run (Press # replicate 3 (Reader 0 False)) s) = [r'] \<and> b_reads r' = b_reads r + 1"
    if "b_pc r = B_wait"
  proof -
    have "b_readers (press_step s) = [r]" "b_pressed (press_step s) = 1"
      using r(1) by (simp_all add: press_step_def gpio_irq_handler_btn_def)
    from press_answered[OF this(1) that this(2)] show ?thesis by (auto simp: btn_run_def)
  qed
  moreover have "\<exists>es. let t = btn_run es (btn_start 2) in
       map b_reads (b_readers t) = [1, 1] \<and> b_presses t = 1 \<and> b_signals t = 0"
    by (rule exI[of _ "[Press, Reader 0 False, Reader 1 False, Reader 0 False, Reader 0 False, Reader 1 False, Reader 1 False]"])
      code_simp
  ultimately show ?thesis using r by blast
qed

theorem button_reads_witness:
  "\<exists>r. b_readers (btn_run [Press, Press, Reader 0 False, Press, Reader 0 False, Reader 0 False] (btn_start 1)) = [r] \<and>
     b_reads r \<le> 3"
proof -
  let ?es = "[Press, Press, Reader 0 False, Press, Reader 0 False, Reader 0 False]"
  have "b_presses (btn_run ?es (btn_start 1)) + b_signals (btn_run ?es (btn_start 1)) = 3" by code_simp
  with button_reads[of "btn_run ?es (btn_start 1)" ?es, OF refl] show ?thesis by auto
qed

end
