(* ===== verification/DmaDrivers.thy ===== *)
theory DmaDrivers
  imports Kapi CharIface
begin

text \<open>
  The DMA drivers: \<open>19.DMA\<close> (suffix \<open>dma19\<close>), \<open>20.Coherent_DMA_Buffer\<close> (\<open>coh\<close>: a character
  device on a coherent buffer), \<open>21.Streaming_DMA\<close> (\<open>str\<close>), \<open>21a.DMAengine_mem2mem\<close> (\<open>m2m\<close>: a
  character device whose write copies through the DMA engine, with its tester) and
  \<open>21b.DMAEngine_Mem2mem\<close> (\<open>m2b\<close>: one transfer at load time). What the engine leaves in the
  destination is a parameter with its documented behaviour as a hypothesis.
\<close>

abbreviation DMA_BUF :: nat where "DMA_BUF \<equiv> 4096"

section \<open>19: a coherent buffer\<close>

definition my_probe_dma19 :: "kenv \<Rightarrow> int kprog" where
  "my_probe_dma19 env = do {
     mydev \<leftarrow> kcall env (Mm (Devm_kzalloc ''mydev''));
     if mydev = 0 then kret (- ENOMEM)
     else do {
       cpu_addr \<leftarrow> kcall env (Dma (Dma_alloc_coherent DMA_BUF));
       if cpu_addr = 0 then kret (- ENOMEM)
       else do {
         _ \<leftarrow> kcall env (Mm (Store_through cpu_addr));
         _ \<leftarrow> kcall env (Dev Platform_set_drvdata);
         kret 0
       }
     }
   }"

definition my_remove_dma19 :: "kenv \<Rightarrow> unit kprog" where
  "my_remove_dma19 env = do {
     _ \<leftarrow> kcall env (Dma (Dma_free_coherent DMA_BUF));
     kret ()
   }"

interpretation dma19: module_lifecycle my_probe_dma19 my_remove_dma19 "[DmaBuf]"
  by unfold_locales
    (auto simp: my_probe_dma19_def my_remove_dma19_def kenv_rules split: if_splits)

section \<open>20: a character device on a coherent buffer\<close>

record coh_dev =
  cpu_addr :: "byte list"
  coh_size :: nat

text \<open>A \<open>loff_t\<close> converted to the unsigned type it is compared with.\<close>

definition off_u64 :: "int \<Rightarrow> int" where
  "off_u64 off = (if off < 0 then off + 2 ^ 64 else off)"

definition my_write_coh :: "uapi \<Rightarrow> byte list \<Rightarrow> nat \<Rightarrow> coh_dev \<Rightarrow> (int \<times> coh_dev) option" where
  "my_write_coh K ubuf len mydev = do {
     let len = (if len > DMA_BUF then DMA_BUF else len);
     let (left, bs) = copy_from_user K ubuf len;
     buf \<leftarrow> c_store (cpu_addr mydev) 0 bs;
     if left \<noteq> 0 then Some (- EFAULT, mydev\<lparr>cpu_addr := buf\<rparr>)
     else Some (int len, mydev\<lparr>cpu_addr := buf, coh_size := len\<rparr>)
   }"

definition my_read_coh :: "uapi \<Rightarrow> nat \<Rightarrow> int \<Rightarrow> coh_dev \<Rightarrow> read_result" where
  "my_read_coh K len off mydev =
     (if off_u64 off \<ge> int (coh_size mydev) then Some (0, [], off)
      else do {
        let len = (if int len > int (coh_size mydev) - off_u64 off
                   then nat (int (coh_size mydev) - off_u64 off) else len);
        src \<leftarrow> c_slice (cpu_addr mydev) off len;
        let (left, out) = copy_to_user K src;
        if left \<noteq> 0 then Some (- EFAULT, out, off)
        else Some (int len, out, off + int len)
      })"

definition my_probe_coh :: "kenv \<Rightarrow> int kprog" where
  "my_probe_coh env = do {
     mydev \<leftarrow> kcall env (Mm (Devm_kzalloc ''mydev''));
     if mydev = 0 then kret (- ENOMEM)
     else do {
       cpu \<leftarrow> kcall env (Dma (Dma_alloc_coherent DMA_BUF));
       if cpu = 0 then kret (- ENOMEM)
       else do {
         ret \<leftarrow> kcall env (Chr (Alloc_chrdev_region 0 1 ''mychar_dma''));
         if ret \<noteq> 0 then do {
           _ \<leftarrow> kcall env (Dma (Dma_free_coherent DMA_BUF));
           kret ret
         }
         else do {
           _ \<leftarrow> kcall env (Chr (Cdev_init 0));
           ret \<leftarrow> kcall env (Chr (Cdev_add 0 0 1));
           if ret \<noteq> 0 then do {
             _ \<leftarrow> kcall env (Chr (Unregister_chrdev_region 1));
             _ \<leftarrow> kcall env (Dma (Dma_free_coherent DMA_BUF));
             kret ret
           }
           else do {
             class \<leftarrow> kcall env (Dev (Class_create ''mychar_dma''));
             if IS_ERR class then do {
               _ \<leftarrow> kcall env (Chr (Cdev_del 0));
               _ \<leftarrow> kcall env (Chr (Unregister_chrdev_region 1));
               _ \<leftarrow> kcall env (Dma (Dma_free_coherent DMA_BUF));
               kret class
             }
             else do {
               device \<leftarrow> kcall env (Dev (Device_create 0 ''mychar_dma''));
               if IS_ERR device then do {
                 _ \<leftarrow> kcall env (Dev Class_destroy);
                 _ \<leftarrow> kcall env (Chr (Cdev_del 0));
                 _ \<leftarrow> kcall env (Chr (Unregister_chrdev_region 1));
                 _ \<leftarrow> kcall env (Dma (Dma_free_coherent DMA_BUF));
                 kret device
               }
               else do {
                 _ \<leftarrow> kcall env (Dev Platform_set_drvdata);
                 kret 0
               }
             }
           }
         }
       }
     }
   }"

text \<open>\<open>mydev->class\<close> is a valid pointer in a device that was probed.\<close>

definition my_remove_coh :: "int \<Rightarrow> kenv \<Rightarrow> unit kprog" where
  "my_remove_coh class env = do {
     _ \<leftarrow> (if class \<noteq> 0 then kcall env (Dev (Device_destroy 0)) else kret 0);
     _ \<leftarrow> (if class \<noteq> 0 then kcall env (Dev Class_destroy) else kret 0);
     _ \<leftarrow> kcall env (Chr (Cdev_del 0));
     _ \<leftarrow> kcall env (Chr (Unregister_chrdev_region 1));
     _ \<leftarrow> kcall env (Dma (Dma_free_coherent DMA_BUF));
     kret ()
   }"

interpretation coh: module_lifecycle my_probe_coh "my_remove_coh 1"
  "[Device 0, Class, Cdev 0, Region, DmaBuf]"
  by unfold_locales
    (auto simp: my_probe_coh_def my_remove_coh_def kenv_rules split: if_splits)

section \<open>21: a streaming mapping\<close>

definition my_probe_str :: "kenv \<Rightarrow> (int \<times> int) kprog" where
  "my_probe_str env = do {
     mydev \<leftarrow> kcall env (Mm (Devm_kzalloc ''mydev''));
     if mydev = 0 then kret (- ENOMEM, 0)
     else do {
       buffer \<leftarrow> kcall env (Mm (Kmalloc ''buffer'' DMA_BUF));
       if buffer = 0 then kret (- ENOMEM, 0)
       else do {
         _ \<leftarrow> kcall env (Mm (Store_through buffer));
         map_error \<leftarrow> kcall env (Dma (Dma_map_single ''buffer'' DMA_BUF));
         if map_error \<noteq> 0 then do {
           _ \<leftarrow> kcall env (Mm (Kfree ''buffer'' buffer));
           kret (- EIO, buffer)
         }
         else do {
           _ \<leftarrow> kcall env (Dma (Dma_unmap_single ''buffer'' DMA_BUF));
           _ \<leftarrow> kcall env (Dev Platform_set_drvdata);
           kret (0, buffer)
         }
       }
     }
   }"

definition my_remove_str :: "int \<Rightarrow> kenv \<Rightarrow> unit kprog" where
  "my_remove_str buffer env = do {
     _ \<leftarrow> kcall env (Mm (Kfree ''buffer'' buffer));
     kret ()
   }"

interpretation str: module_lifecycle "\<lambda>env. do { r \<leftarrow> my_probe_str env; kret (fst r) }"
  "my_remove_str 1" "[Mem ''buffer'']"
  by unfold_locales
    (auto simp: my_probe_str_def my_remove_str_def kenv_rules split: if_splits)

section \<open>21a: a memory-to-memory transfer\<close>

text \<open>\<open>DMA_COMPLETE\<close> is the status 0; a negative cookie is a submit error.\<close>

definition do_dma_transfer :: "kenv \<Rightarrow> nat \<Rightarrow> int kprog" where
  "do_dma_transfer env len = do {
     src_error \<leftarrow> kcall env (Dma (Dma_map_single ''src_buf'' len));
     if src_error \<noteq> 0 then kret (- ENOMEM)
     else do {
       dst_error \<leftarrow> kcall env (Dma (Dma_map_single ''dst_buf'' len));
       if dst_error \<noteq> 0 then do {
         _ \<leftarrow> kcall env (Dma (Dma_unmap_single ''src_buf'' len));
         kret (- ENOMEM)
       }
       else do {
         ret \<leftarrow> do {
           tx \<leftarrow> kcall env (Dma (Dma_prep_memcpy len));
           if tx = 0 then kret (- EIO)
           else do {
             cookie \<leftarrow> kcall env (Dma Dma_submit);
             if cookie < 0 then kret (- EIO)
             else do {
               _ \<leftarrow> kcall env (Dma Dma_issue_pending);
               tmo \<leftarrow> kcall env (Dma (Wait_for_completion_timeout 5000));
               if tmo = 0 then do {
                 _ \<leftarrow> kcall env (Dma Dma_terminate_sync);
                 kret (- ETIMEDOUT)
               }
               else do {
                 status \<leftarrow> kcall env (Dma Dma_tx_status);
                 if status \<noteq> 0 then kret (- EIO) else kret 0
               }
             }
           }
         };
         _ \<leftarrow> kcall env (Dma (Dma_unmap_single ''dst_buf'' len));
         _ \<leftarrow> kcall env (Dma (Dma_unmap_single ''src_buf'' len));
         kret ret
       }
     }
   }"

record m2m =
  src_buf :: "byte list"
  dst_buf :: "byte list"
  data_len :: nat

text \<open>
  What \<open>dst_buf\<close> holds after a transfer of \<open>len\<close> bytes that returned \<open>ret\<close>. Documented
  behaviour of the engine: a completed transfer has copied the bytes and nothing else.
\<close>

type_synonym dma_engine = "int \<Rightarrow> byte list \<Rightarrow> byte list \<Rightarrow> nat \<Rightarrow> byte list"

definition dma_engine_ok :: "dma_engine \<Rightarrow> bool" where
  "dma_engine_ok E \<longleftrightarrow> (\<forall>ret src dst len. length (E ret src dst len) = length dst) \<and>
     (\<forall>src dst len. len \<le> length src \<longrightarrow> len \<le> length dst \<longrightarrow>
        E 0 src dst len = take len src @ drop len dst)"

definition engine_plain :: dma_engine where
  "engine_plain ret src dst len =
     (if ret = 0 \<and> len \<le> length src \<and> len \<le> length dst then take len src @ drop len dst else dst)"

definition dev_write_m2m ::
    "kenv \<Rightarrow> dma_engine \<Rightarrow> uapi \<Rightarrow> byte list \<Rightarrow> nat \<Rightarrow> m2m \<Rightarrow> (int \<times> m2m) option kprog" where
  "dev_write_m2m env E K ubuf len s =
     (let len = (if len > DMA_BUF then DMA_BUF else len); (left, bs) = copy_from_user K ubuf len
      in case c_store (src_buf s) 0 bs of
           None \<Rightarrow> kret None
         | Some src \<Rightarrow>
             if left \<noteq> 0 then kret (Some (- EFAULT, s\<lparr>src_buf := src\<rparr>))
             else do {
               let dst = replicate DMA_BUF 0;
               ret \<leftarrow> do_dma_transfer env len;
               let s = s\<lparr>src_buf := src, dst_buf := E ret src dst len\<rparr>;
               if ret \<noteq> 0 then kret (Some (ret, s))
               else kret (Some (int len, s\<lparr>data_len := len\<rparr>))
             })"

definition dev_read_m2m :: "uapi \<Rightarrow> nat \<Rightarrow> int \<Rightarrow> m2m \<Rightarrow> read_result" where
  "dev_read_m2m K len off s =
     (if off_u64 off \<ge> int (data_len s) then Some (0, [], off)
      else do {
        let len = (if int len > int (data_len s) - off_u64 off
                   then nat (int (data_len s) - off_u64 off) else len);
        src \<leftarrow> c_slice (dst_buf s) off len;
        let (left, out) = copy_to_user K src;
        if left \<noteq> 0 then Some (- EFAULT, out, off)
        else Some (int len, out, off + int len)
      })"

text \<open>The labels of \<open>init\<close>, and \<open>init\<close> itself: its value, \<open>src_buf\<close> and \<open>dst_buf\<close>.\<close>

definition err_bufs_m2m :: "kenv \<Rightarrow> int \<Rightarrow> int \<Rightarrow> int \<Rightarrow> (int \<times> int \<times> int) kprog" where
  "err_bufs_m2m env src dst ret = do {
     _ \<leftarrow> kcall env (Mm (Kfree ''src_buf'' src));
     _ \<leftarrow> kcall env (Mm (Kfree ''dst_buf'' dst));
     _ \<leftarrow> kcall env (Dma Dma_release_channel);
     kret (ret, src, dst)
   }"

definition err_chrdev_m2m :: "kenv \<Rightarrow> int \<Rightarrow> int \<Rightarrow> int \<Rightarrow> (int \<times> int \<times> int) kprog" where
  "err_chrdev_m2m env src dst ret = do {
     _ \<leftarrow> kcall env (Chr (Unregister_chrdev_region 1));
     err_bufs_m2m env src dst ret
   }"

definition err_cdev_m2m :: "kenv \<Rightarrow> int \<Rightarrow> int \<Rightarrow> int \<Rightarrow> (int \<times> int \<times> int) kprog" where
  "err_cdev_m2m env src dst ret = do {
     _ \<leftarrow> kcall env (Chr (Cdev_del 0));
     err_chrdev_m2m env src dst ret
   }"

definition err_class_m2m :: "kenv \<Rightarrow> int \<Rightarrow> int \<Rightarrow> int \<Rightarrow> (int \<times> int \<times> int) kprog" where
  "err_class_m2m env src dst ret = do {
     _ \<leftarrow> kcall env (Dev Class_destroy);
     err_cdev_m2m env src dst ret
   }"

lemmas err_m2m_defs = err_bufs_m2m_def err_chrdev_m2m_def err_cdev_m2m_def err_class_m2m_def

definition dma_m2m_init :: "kenv \<Rightarrow> (int \<times> int \<times> int) kprog" where
  "dma_m2m_init env = do {
     dma_ch \<leftarrow> kcall env (Dma Dma_request_chan);
     if IS_ERR dma_ch then kret (dma_ch, 0, 0)
     else do {
       src \<leftarrow> kcall env (Mm (Kmalloc ''src_buf'' DMA_BUF));
       dst \<leftarrow> kcall env (Mm (Kmalloc ''dst_buf'' DMA_BUF));
       if src = 0 \<or> dst = 0 then err_bufs_m2m env src dst (- ENOMEM)
       else do {
         ret \<leftarrow> kcall env (Chr (Alloc_chrdev_region 0 1 ''dma_mem2mem''));
         if ret < 0 then err_bufs_m2m env src dst ret
         else do {
           _ \<leftarrow> kcall env (Chr (Cdev_init 0));
           ret \<leftarrow> kcall env (Chr (Cdev_add 0 0 1));
           if ret < 0 then err_chrdev_m2m env src dst ret
           else do {
             my_class \<leftarrow> kcall env (Dev (Class_create ''dma_m2m_class''));
             if IS_ERR my_class then err_cdev_m2m env src dst my_class
             else do {
               my_device \<leftarrow> kcall env (Dev (Device_create 0 ''dma_mem2mem''));
               if IS_ERR my_device then err_class_m2m env src dst my_device
               else kret (0, src, dst)
             }
           }
         }
       }
     }
   }"

definition dma_m2m_exit :: "int \<Rightarrow> int \<Rightarrow> kenv \<Rightarrow> unit kprog" where
  "dma_m2m_exit src dst env = do {
     _ \<leftarrow> kcall env (Dev (Device_destroy 0));
     _ \<leftarrow> kcall env (Dev Class_destroy);
     _ \<leftarrow> kcall env (Chr (Cdev_del 0));
     _ \<leftarrow> kcall env (Chr (Unregister_chrdev_region 1));
     _ \<leftarrow> kcall env (Mm (Kfree ''src_buf'' src));
     _ \<leftarrow> kcall env (Mm (Kfree ''dst_buf'' dst));
     _ \<leftarrow> kcall env (Dma Dma_release_channel);
     kret ()
   }"

interpretation m2m: module_lifecycle "\<lambda>env. do { r \<leftarrow> dma_m2m_init env; kret (fst r) }"
  "dma_m2m_exit 1 1" "[Device 0, Class, Cdev 0, Region, Mem ''dst_buf'', Mem ''src_buf'', DmaChan]"
  by unfold_locales
    (auto simp: dma_m2m_init_def dma_m2m_exit_def err_m2m_defs kenv_rules split: if_splits)

subsection \<open>The tester\<close>

text \<open>
  \<open>dma_test\<close>: \<open>n\<close> is what \<open>write\<close> returned, \<open>rd\<close> what \<open>read\<close> of 4095 bytes returned and
  stored. The result is the exit code and, if it got that far, whether it printed MATCH.
  \<open>strncmp\<close> compares up to the length of the message or the first NUL.
\<close>

fun c_strncmp_eq :: "byte list \<Rightarrow> byte list \<Rightarrow> nat \<Rightarrow> bool" where
  "c_strncmp_eq a b 0 \<longleftrightarrow> True"
| "c_strncmp_eq (x # a) (y # b) (Suc n) \<longleftrightarrow> x = y \<and> (x = 0 \<or> c_strncmp_eq a b n)"
| "c_strncmp_eq _ _ (Suc n) \<longleftrightarrow> False"

definition main_dma_test :: "int \<Rightarrow> byte list \<Rightarrow> int \<Rightarrow> int \<times> byte list \<Rightarrow> (int \<times> bool option) option" where
  "main_dma_test fd msg n rd =
     (if fd < 0 then Some (1, None)
      else if n < 0 then Some (1, None)
      else (let (n, out) = rd in
        if n < 0 then Some (1, None)
        else do {
          readback \<leftarrow> c_store (replicate DMA_BUF 0) 0 out;
          readback \<leftarrow> c_store readback (nat n) [0];
          _ \<leftarrow> c_string readback;
          Some (0, Some (c_strncmp_eq (msg @ [0]) readback (length msg)))
        }))"

section \<open>21b: a transfer at load time\<close>

definition m2b_src :: "byte list" where
  "m2b_src = bytes_of ''STM32MP257F-DK: real streaming DMA mem2mem transfer!'' @ replicate 204 0"

definition err_free_m2b :: "kenv \<Rightarrow> int \<Rightarrow> int \<Rightarrow> int \<Rightarrow> (int \<times> int \<times> bool option) kprog" where
  "err_free_m2b env src dst ret = do {
     _ \<leftarrow> kcall env (Mm (Kfree ''src_buf'' src));
     _ \<leftarrow> kcall env (Mm (Kfree ''dst_buf'' dst));
     _ \<leftarrow> kcall env (Dma Dma_release_channel);
     kret (ret, 0, None)
   }"

definition err_unmap_src_m2b :: "kenv \<Rightarrow> int \<Rightarrow> int \<Rightarrow> int \<Rightarrow> (int \<times> int \<times> bool option) kprog" where
  "err_unmap_src_m2b env src dst ret = do {
     _ \<leftarrow> kcall env (Dma (Dma_unmap_single ''src_buf'' 256));
     err_free_m2b env src dst ret
   }"

definition err_unmap_dst_m2b :: "kenv \<Rightarrow> int \<Rightarrow> int \<Rightarrow> int \<Rightarrow> (int \<times> int \<times> bool option) kprog" where
  "err_unmap_dst_m2b env src dst ret = do {
     _ \<leftarrow> kcall env (Dma (Dma_unmap_single ''dst_buf'' 256));
     err_unmap_src_m2b env src dst ret
   }"

lemmas err_m2b_defs = err_free_m2b_def err_unmap_src_m2b_def err_unmap_dst_m2b_def

text \<open>The value returned, the static \<open>dma_chan\<close>, and the verdict printed (SUCCESS or not).\<close>

definition dma_m2b_init :: "kenv \<Rightarrow> dma_engine \<Rightarrow> (int \<times> int \<times> bool option) kprog" where
  "dma_m2b_init env E = do {
     dma_chan \<leftarrow> kcall env (Dma Dma_request_chan);
     if IS_ERR dma_chan then kret (dma_chan, 0, None)
     else do {
       src \<leftarrow> kcall env (Mm (Kmalloc ''src_buf'' 256));
       dst \<leftarrow> kcall env (Mm (Kmalloc ''dst_buf'' 256));
       if src = 0 \<or> dst = 0 then err_free_m2b env src dst (- ENOMEM)
       else do {
         src_error \<leftarrow> kcall env (Dma (Dma_map_single ''src_buf'' 256));
         if src_error \<noteq> 0 then err_free_m2b env src dst (- ENOMEM)
         else do {
           dst_error \<leftarrow> kcall env (Dma (Dma_map_single ''dst_buf'' 256));
           if dst_error \<noteq> 0 then err_unmap_src_m2b env src dst (- ENOMEM)
           else do {
             desc \<leftarrow> kcall env (Dma (Dma_prep_memcpy 256));
             if desc = 0 then err_unmap_dst_m2b env src dst (- EIO)
             else do {
               cookie \<leftarrow> kcall env (Dma Dma_submit);
               if cookie < 0 then err_unmap_dst_m2b env src dst (- EIO)
               else do {
                 _ \<leftarrow> kcall env (Dma Dma_issue_pending);
                 tmo \<leftarrow> kcall env (Dma (Wait_for_completion_timeout 3000));
                 if tmo = 0 then do {
                   _ \<leftarrow> kcall env (Dma Dma_terminate_sync);
                   err_unmap_dst_m2b env src dst (- ETIMEDOUT)
                 }
                 else do {
                   status \<leftarrow> kcall env (Dma Dma_tx_status);
                   _ \<leftarrow> kcall env (Dma (Dma_unmap_single ''dst_buf'' 256));
                   _ \<leftarrow> kcall env (Dma (Dma_unmap_single ''src_buf'' 256));
                   if status \<noteq> 0 then err_free_m2b env src dst (- EIO)
                   else do {
                     let verified = (E 0 m2b_src (replicate 256 0) 256 = m2b_src);
                     _ \<leftarrow> kcall env (Mm (Kfree ''src_buf'' src));
                     _ \<leftarrow> kcall env (Mm (Kfree ''dst_buf'' dst));
                     kret (0, dma_chan, Some verified)
                   }
                 }
               }
             }
           }
         }
       }
     }
   }"

definition dma_m2b_exit :: "int \<Rightarrow> kenv \<Rightarrow> unit kprog" where
  "dma_m2b_exit dma_chan env =
     (if dma_chan \<noteq> 0 then do { _ \<leftarrow> kcall env (Dma Dma_release_channel); kret () } else kret ())"

lemma m2b_init_run:
  assumes "kenv_ok env" and "replay [] h = Some []" and "run_state (dma_m2b_init env E) h = ((r, ch, v), h')"
  shows "(r = 0 \<and> 0 < ch \<and> v = Some (E 0 m2b_src (replicate 256 0) 256 = m2b_src) \<and>
          replay [] h' = Some [DmaChan]) \<or>
         (r < 0 \<and> v = None \<and> replay [] h' = Some [])"
  using assms by (auto simp: dma_m2b_init_def err_m2b_defs kenv_rules split: if_splits)

interpretation m2b: module_lifecycle "\<lambda>env. do { r \<leftarrow> dma_m2b_init env E; kret (fst r) }"
  "dma_m2b_exit 1" "[DmaChan]" for E
proof
  fix env h r h'
  assume a: "kenv_ok env" "replay [] h = Some []"
    and r: "run_state (do { r \<leftarrow> dma_m2b_init env E; kret (fst r) }) h = (r, h')"
  obtain r0 ch v h0 where i: "run_state (dma_m2b_init env E) h = ((r0, ch, v), h0)"
    by (metis prod.collapse)
  from r i have "r = r0" "h' = h0" by simp_all
  with m2b_init_run[OF a i] show
    "(r = 0 \<and> replay [] h' = Some [DmaChan]) \<or> (r < 0 \<and> replay [] h' = Some [])" by blast
qed (auto simp: dma_m2b_exit_def)

section \<open>Contracts\<close>

definition good_coh :: "coh_dev \<Rightarrow> bool" where
  "good_coh d \<longleftrightarrow> length (cpu_addr d) = DMA_BUF \<and> coh_size d \<le> DMA_BUF"

lemma off_u64_nonneg [simp]: "0 \<le> off \<Longrightarrow> off_u64 off = off"
  by (simp add: off_u64_def)

lemma take_slice_ok: "n \<le> length buf \<Longrightarrow> slice_ok (take n buf) (c_slice buf)"
  by (auto simp: slice_ok_def c_slice_def drop_take min_def)

lemma read_u64_offset:
  assumes "0 \<le> off" and "n \<le> length buf"
  shows "(if off_u64 off \<ge> int n then Some (0, [], off)
      else do {
        let len = (if int len > int n - off_u64 off then nat (int n - off_u64 off) else len);
        src \<leftarrow> c_slice buf off len;
        let (left, out) = copy_to_user K src;
        if left \<noteq> 0 then Some (- EFAULT, out, off)
        else Some (int len, out, off + int len)
      }) = offset_read K len off (length (take n buf)) (c_slice buf)"
  using assms by (simp add: offset_read_def min_absorb2)

interpretation coh_dev: text_device "\<lambda>d. take (coh_size d) (cpu_addr d)" good_coh my_read_coh
  my_write_coh DMA_BUF "\<lambda>bs. bs"
proof (intro text_device.intro offset_readerI text_device_axioms.intro)
  show "my_read_coh K len off d = offset_read K len off (length (take (coh_size d) (cpu_addr d)))
      (c_slice (cpu_addr d))" if "good_coh d" "0 \<le> off" for d K len off
    unfolding my_read_coh_def using that by (intro read_u64_offset) (simp_all add: good_coh_def)
  show "slice_ok (take (coh_size d) (cpu_addr d)) (c_slice (cpu_addr d))" if "good_coh d" for d
    using that by (intro take_slice_ok) (simp add: good_coh_def)
next
  fix d and K :: uapi and u len bs
  assume "good_coh d" "copy_from_user K u (min len DMA_BUF) = (0, bs)" "length bs = min len DMA_BUF"
  then show "\<exists>d'. my_write_coh K u len d = Some (int (min len DMA_BUF), d') \<and> good_coh d' \<and>
      take (coh_size d') (cpu_addr d') = bs"
    by (cases "DMA_BUF < len") (auto simp: my_write_coh_def good_coh_def c_store_def min_def)
next
  fix d and K :: uapi and u len bs k
  assume "good_coh d" "copy_from_user K u (min len DMA_BUF) = (Suc k, bs)" "length bs = min len DMA_BUF"
  then show "\<exists>d'. my_write_coh K u len d = Some (- EFAULT, d') \<and> good_coh d'"
    by (cases "DMA_BUF < len") (auto simp: my_write_coh_def good_coh_def c_store_def min_def)
qed

definition good_m2m :: "m2m \<Rightarrow> bool" where
  "good_m2m s \<longleftrightarrow> length (src_buf s) = DMA_BUF \<and> length (dst_buf s) = DMA_BUF \<and> data_len s \<le> DMA_BUF"

interpretation m2m_dev: offset_reader "\<lambda>s. take (data_len s) (dst_buf s)" good_m2m dev_read_m2m
proof (rule offset_readerI)
  show "dev_read_m2m K len off s = offset_read K len off (length (take (data_len s) (dst_buf s)))
      (c_slice (dst_buf s))" if "good_m2m s" "0 \<le> off" for s K len off
    unfolding dev_read_m2m_def using that by (intro read_u64_offset) (simp_all add: good_m2m_def)
  show "slice_ok (take (data_len s) (dst_buf s)) (c_slice (dst_buf s))" if "good_m2m s" for s
    using that by (intro take_slice_ok) (simp add: good_m2m_def)
qed

text \<open>A transfer leaves the resources as they were, on every path.\<close>

definition m2m_ready :: "res list \<Rightarrow> bool" where
  "m2m_ready H \<longleftrightarrow> {DmaChan, Mem ''src_buf'', Mem ''dst_buf''} \<subseteq> set H \<and>
     DmaMap ''src_buf'' \<notin> set H \<and> DmaMap ''dst_buf'' \<notin> set H"

lemma not_in_needs [simp]: "DmaMap t \<notin> set (needs a)"
  by (cases a) simp_all

lemma list_all_True [simp]: "list_all (\<lambda>b. True) H"
  by (simp add: list_all_iff)

lemma do_dma_transfer_run:
  assumes "kenv_ok env" and "replay [] h = Some H" and "m2m_ready H"
    and "run_state (do_dma_transfer env len) h = (r, h')"
  shows "r \<le> 0 \<and> replay [] h' = Some H"
  using assms
  by (auto simp: do_dma_transfer_def m2m_ready_def kenv_rules split: if_splits)

lemma dev_write_m2m_cases:
  assumes "kenv_ok env" and "dma_engine_ok E" and "good_m2m s" and "uapi_ok K"
    and "fst (copy_from_user K u (min len DMA_BUF)) = 0"
    and "run_state (do_dma_transfer env (min len DMA_BUF)) h = (ret, h')"
  shows "run_state (dev_write_m2m env E K u len s) h =
    (Some (if ret \<noteq> 0 then ret else int (min len DMA_BUF),
       s\<lparr>src_buf := take (min len DMA_BUF) u @ drop (min len DMA_BUF) (src_buf s),
         dst_buf := E ret (take (min len DMA_BUF) u @ drop (min len DMA_BUF) (src_buf s))
                      (replicate DMA_BUF 0) (min len DMA_BUF),
         data_len := if ret \<noteq> 0 then data_len s else min len DMA_BUF\<rparr>), h')"
proof -
  let ?n = "min len DMA_BUF"
  have n: "(if len > DMA_BUF then DMA_BUF else len) = ?n" by simp
  have c: "copy_from_user K u ?n = (0, take ?n u)"
    using assms(5) cfu_data[OF assms(4,5)] by (metis prod.collapse)
  then have l: "length (take ?n u) = ?n" using cfu_length[OF assms(4), of u ?n] by simp
  then have "c_store (src_buf s) 0 (take ?n u) = Some (take ?n u @ drop ?n (src_buf s))"
    using assms(3) by (simp add: c_store_def good_m2m_def)
  then show ?thesis using assms(6) unfolding dev_write_m2m_def Let_def n c prod.case by simp
qed

section \<open>Properties\<close>

text \<open>C12. \<open>do_dma_transfer\<close> of 21a hands everything back: entered with the channel and both
  buffers and no mapping, it returns 0 or a negative errno with exactly the resources it
  was entered with, whichever of its kernel calls fails; in particular no buffer stays
  mapped.\<close>

theorem m2m_transfer_balanced:
  assumes "kenv_ok env" and "replay [] h = Some H" and "m2m_ready H"
    and "run_state (do_dma_transfer env len) h = (r, h')"
  shows "r \<le> 0 \<and> replay [] h' = Some H"
  by (rule do_dma_transfer_run[OF assms])

theorem m2m_transfer_balanced_witness:
  "\<exists>r h'. run_state (do_dma_transfer (kenv_fail (Dma (Wait_for_completion_timeout 5000)) 0) 64)
      (snd (run_state (dma_m2m_init kenv_good) [])) = (r, h') \<and> r \<le> 0 \<and>
    replay [] h' = replay [] (snd (run_state (dma_m2m_init kenv_good) []))"
proof -
  let ?h = "snd (run_state (dma_m2m_init kenv_good) [])"
  let ?H = "[Device 0, Class, Cdev 0, Region, Mem ''dst_buf'', Mem ''src_buf'', DmaChan]"
  have h: "replay [] ?h = Some ?H" by code_simp
  have k: "kenv_ok (kenv_fail (Dma (Wait_for_completion_timeout 5000)) 0)" by (rule kenv_fail_ok) simp
  have r: "m2m_ready ?H" by (simp add: m2m_ready_def)
  obtain ret h' where d: "run_state (do_dma_transfer
      (kenv_fail (Dma (Wait_for_completion_timeout 5000)) 0) 64) ?h = (ret, h')"
    by (rule prod.exhaust)
  from m2m_transfer_balanced[OF k h r d] have "ret \<le> 0 \<and> replay [] h' = Some ?H" .
  with d h show ?thesis by metis
qed

text \<open>C26. Writing to 21a and reading the device to the end gives back the first 4096 bytes
  written, through the DMA engine, whenever the transfer reports completion; the driver
  reports the number of bytes and its state stays well formed.\<close>

theorem m2m_write_then_cat:
  assumes "kenv_ok env" and "dma_engine_ok E" and "good_m2m s" and "uapi_ok K"
    and "fst (copy_from_user K u (min len DMA_BUF)) = 0"
    and "fst (run_state (do_dma_transfer env (min len DMA_BUF)) h) = 0"
    and "0 < n" and "uapi_nofault K'"
  shows "\<exists>s'. fst (run_state (dev_write_m2m env E K u len s) h) = Some (int (min len DMA_BUF), s') \<and>
    good_m2m s' \<and>
    cat_loop (\<lambda>off. dev_read_m2m K' n off s') (Suc (min len DMA_BUF)) 0 = Some (take (min len DMA_BUF) u)"
proof -
  let ?n = "min len DMA_BUF"
  let ?src = "take ?n u @ drop ?n (src_buf s)"
  obtain h' where t: "run_state (do_dma_transfer env ?n) h = (0, h')" using assms(6) by (metis prod.collapse)
  have n: "?n \<le> length u" using cfu_readable[OF assms(4,5)] .
  have src: "length ?src = DMA_BUF" using n assms(3) by (simp add: good_m2m_def)
  then have dst: "E 0 ?src (replicate DMA_BUF 0) ?n = take ?n ?src @ drop ?n (replicate DMA_BUF 0)"
    using assms(2) by (simp add: dma_engine_ok_def)
  let ?s = "s\<lparr>src_buf := ?src, dst_buf := E 0 ?src (replicate DMA_BUF 0) ?n, data_len := ?n\<rparr>"
  have w: "fst (run_state (dev_write_m2m env E K u len s) h) = Some (int ?n, ?s)"
    using dev_write_m2m_cases[OF assms(1-5) t] by simp
  have tk: "take (data_len ?s) (dst_buf ?s) = take ?n u" using n unfolding dst by simp
  have g: "good_m2m ?s" using src n unfolding dst by (simp add: good_m2m_def)
  have "cat_loop (\<lambda>off. dev_read_m2m K' n off ?s) (Suc ?n) 0 = Some (take (data_len ?s) (dst_buf ?s))"
    by (rule m2m_dev.cat_content[OF g assms(7,8)]) (simp add: tk n)
  with w g tk show ?thesis by (metis)
qed

lemma engine_plain_ok: "dma_engine_ok engine_plain"
  by (auto simp: dma_engine_ok_def engine_plain_def)

theorem m2m_write_then_cat_witness:
  "\<exists>s'. fst (run_state (dev_write_m2m kenv_good engine_plain uapi_plain [1, 2, 3] 3
        \<lparr>src_buf = replicate 4096 9, dst_buf = replicate 4096 9, data_len = 0\<rparr>) []) = Some (3, s') \<and>
     cat_loop (\<lambda>off. dev_read_m2m uapi_plain 2 off s') (Suc 3) 0 = Some [1, 2, 3]"
proof -
  have g: "good_m2m \<lparr>src_buf = replicate 4096 9, dst_buf = replicate 4096 9, data_len = 0\<rparr>"
    by (simp add: good_m2m_def)
  have c: "fst (copy_from_user uapi_plain [1, 2, 3] (min 3 DMA_BUF)) = 0" by (simp add: uapi_plain_def)
  have t: "fst (run_state (do_dma_transfer kenv_good (min 3 DMA_BUF)) []) = 0" by code_simp
  have m: "min 3 DMA_BUF = 3" "take 3 [1, 2, 3 :: byte] = [1, 2, 3]" by simp_all
  from m2m_write_then_cat[OF kenv_good_ok engine_plain_ok g uapi_plain_ok c t _ uapi_plain_nofault, of 2]
  show ?thesis unfolding m by (auto simp del: cat_loop.simps)
qed

text \<open>A transfer of 21a that fails destroys the data of the previous one without the
  device noticing: the destination was zeroed and the old length is kept, so reading gives
  that many zero bytes (with an engine that wrote nothing).\<close>

theorem m2m_failed_write_leaves_zeros:
  assumes "kenv_ok env" and "good_m2m s" and "uapi_ok K"
    and "fst (copy_from_user K u (min len DMA_BUF)) = 0"
    and "fst (run_state (do_dma_transfer env (min len DMA_BUF)) h) = e" and "e < 0"
    and "0 < n" and "uapi_nofault K'"
  shows "\<exists>s'. fst (run_state (dev_write_m2m env engine_plain K u len s) h) = Some (e, s') \<and>
    cat_loop (\<lambda>off. dev_read_m2m K' n off s') (Suc (data_len s)) 0 = Some (replicate (data_len s) 0)"
proof -
  let ?n = "min len DMA_BUF"
  let ?src = "take ?n u @ drop ?n (src_buf s)"
  obtain h' where t: "run_state (do_dma_transfer env ?n) h = (e, h')" using assms(5) by (metis prod.collapse)
  let ?s = "s\<lparr>src_buf := ?src, dst_buf := replicate DMA_BUF 0\<rparr>"
  have w: "fst (run_state (dev_write_m2m env engine_plain K u len s) h) = Some (e, ?s)"
    using dev_write_m2m_cases[OF assms(1) engine_plain_ok assms(2-4) t] assms(6)
    by (simp add: engine_plain_def)
  have "?n \<le> length u" using cfu_readable[OF assms(3,4)] .
  then have g: "good_m2m ?s" using assms(2) by (simp add: good_m2m_def)
  have tk: "take (data_len ?s) (dst_buf ?s) = replicate (data_len s) 0"
    using assms(2) by (simp add: good_m2m_def min_absorb1)
  have "cat_loop (\<lambda>off. dev_read_m2m K' n off ?s) (Suc (data_len s)) 0 = Some (take (data_len ?s) (dst_buf ?s))"
    by (rule m2m_dev.cat_content[OF g assms(7,8)]) (unfold tk, simp)
  with w tk show ?thesis by metis
qed

theorem m2m_failed_write_leaves_zeros_witness:
  "\<exists>s'. fst (run_state (dev_write_m2m (kenv_fail (Dma (Dma_prep_memcpy 1)) 0) engine_plain uapi_plain [65] 1
        \<lparr>src_buf = replicate 4096 9, dst_buf = replicate 4096 9, data_len = 2\<rparr>) []) = Some (- EIO, s') \<and>
     cat_loop (\<lambda>off. dev_read_m2m uapi_plain 2 off s') (Suc 2) 0 = Some [0, 0]"
proof -
  let ?s = "\<lparr>src_buf = replicate 4096 9, dst_buf = replicate 4096 9, data_len = 2\<rparr>"
  have g: "good_m2m ?s" by (simp add: good_m2m_def)
  have k: "kenv_ok (kenv_fail (Dma (Dma_prep_memcpy 1)) 0)" by (rule kenv_fail_ok) simp
  have c: "fst (copy_from_user uapi_plain [65] (min 1 DMA_BUF)) = 0" by (simp add: uapi_plain_def)
  have t: "fst (run_state (do_dma_transfer (kenv_fail (Dma (Dma_prep_memcpy 1)) 0) (min 1 DMA_BUF)) []) = - EIO"
    by code_simp
  have r: "data_len ?s = 2" "replicate 2 (0 :: byte) = [0, 0]" by (simp_all add: numeral_2_eq_2)
  from m2m_failed_write_leaves_zeros[OF k g uapi_plain_ok c t _ _ uapi_plain_nofault, of 2]
  show ?thesis unfolding r by (auto simp del: cat_loop.simps)
qed

text \<open>The character device of 20: what is written (up to 4096 bytes, any values) is what
  reading to the end with any buffer size gives back from the DMA buffer.\<close>

theorem coh_write_then_cat:
  assumes "uapi_ok K" and "good_coh d" and "fst (copy_from_user K u (min len 4096)) = 0"
    and "0 < n" and "uapi_nofault K'"
  shows "\<exists>d'. my_write_coh K u len d = Some (int (min len 4096), d') \<and> good_coh d' \<and>
    cat_loop (\<lambda>off. my_read_coh K' n off d') (Suc (coh_size d')) 0 = Some (take (min len 4096) u)"
proof -
  obtain d' where d': "my_write_coh K u len d = Some (int (min len 4096), d')" "good_coh d'"
    "cat_loop (\<lambda>off. my_read_coh K' n off d') (Suc (length (take (coh_size d') (cpu_addr d')))) 0 =
       Some (take (min len 4096) u)"
    using coh_dev.echo_cat[OF assms] by auto
  moreover have "length (take (coh_size d') (cpu_addr d')) = coh_size d'"
    using d'(2) by (simp add: good_coh_def)
  ultimately show ?thesis by metis
qed

theorem coh_write_then_cat_witness:
  "\<exists>d'. my_write_coh uapi_plain [0, 255] 2 \<lparr>cpu_addr = replicate 4096 0, coh_size = 0\<rparr> = Some (2, d') \<and>
     cat_loop (\<lambda>off. my_read_coh uapi_plain 1 off d') (Suc (coh_size d')) 0 = Some [0, 255]"
proof -
  have g: "good_coh \<lparr>cpu_addr = replicate 4096 0, coh_size = 0\<rparr>" by (simp add: good_coh_def)
  have c: "fst (copy_from_user uapi_plain [0, 255] (min 2 4096)) = 0" by (simp add: uapi_plain_def)
  have m: "min 2 (4096 :: nat) = 2" "take 2 [0, 255 :: byte] = [0, 255]" by simp_all
  from coh_write_then_cat[OF uapi_plain_ok g c _ uapi_plain_nofault, of 1]
  show ?thesis unfolding m by (auto simp del: cat_loop.simps)
qed

text \<open>Loading 21b ends in one of two ways, whatever fails: with 0, the channel as the only
  resource held and the copy verified as correct; or with a negative errno, nothing held and
  no verdict printed.\<close>

theorem m2b_init_outcome:
  assumes "kenv_ok env" and "dma_engine_ok E" and "run_state (dma_m2b_init env E) [] = ((r, ch, v), h)"
  shows "(r = 0 \<and> v = Some True \<and> replay [] h = Some [DmaChan] \<and>
          replay [] (snd (run_state (dma_m2b_exit ch env) h)) = Some []) \<or>
         (r < 0 \<and> v = None \<and> replay [] h = Some [])"
proof -
  have "length m2b_src = 256" by (simp add: m2b_src_def bytes_of_def)
  then have "E 0 m2b_src (replicate 256 0) 256 = m2b_src"
    using assms(2) by (simp add: dma_engine_ok_def)
  with m2b_init_run[OF assms(1) _ assms(3)] show ?thesis by (auto simp: dma_m2b_exit_def)
qed

theorem m2b_init_outcome_witness:
  "\<exists>r ch v h. run_state (dma_m2b_init kenv_good engine_plain) [] = ((r, ch, v), h) \<and>
     (v = Some True \<or> v = None)"
proof -
  obtain r ch v h where i: "run_state (dma_m2b_init kenv_good engine_plain) [] = ((r, ch, v), h)"
    by (metis prod.collapse)
  from m2b_init_outcome[OF kenv_good_ok engine_plain_ok i] i show ?thesis by blast
qed

lemma strncmp_prefix:
  "0 \<notin> set msg \<Longrightarrow> c_strncmp_eq (msg @ r) (out @ 0 # z) (length msg) \<longleftrightarrow> take (length msg) out = msg"
proof (induction msg arbitrary: out)
  case (Cons x msg)
  then show ?case by (cases out) auto
qed simp

text \<open>The tester of 21a prints MATCH exactly when the bytes it read back begin with the
  message; a message of more than 4095 bytes therefore never matches, although the driver
  stores up to 4096.\<close>

theorem dma_test_verdict:
  assumes "0 \<notin> set msg" and "length out \<le> 4095" and "0 \<le> fd" and "0 \<le> n"
  shows "main_dma_test fd msg n (int (length out), out) = Some (0, Some (take (length msg) out = msg)) \<and>
    (4095 < length msg \<longrightarrow> main_dma_test fd msg n (int (length out), out) = Some (0, Some False))"
proof -
  let ?z = "replicate (4095 - length out) (0 :: byte)"
  have s1: "c_store (replicate DMA_BUF 0) 0 out = Some (out @ drop (length out) (replicate DMA_BUF 0))"
    using assms(2) by (simp add: c_store_def)
  have "DMA_BUF - length out = Suc (4095 - length out)" using assms(2) by simp
  then have d: "drop (length out) (replicate DMA_BUF (0 :: byte)) = 0 # ?z" by simp
  have s2: "c_store (out @ 0 # ?z) (length out) [0] = Some (out @ 0 # ?z)"
    by (simp add: c_store_def)
  have s3: "c_string (out @ 0 # ?z) = Some (takeWhile (\<lambda>b. b \<noteq> 0) out)"
    by (simp add: c_string_def takeWhile_nz_append_zero)
  have m: "main_dma_test fd msg n (int (length out), out) = Some (0, Some (take (length msg) out = msg))"
    using assms(3,4) strncmp_prefix[OF assms(1), of "[0]" out ?z]
    by (simp add: main_dma_test_def s1[unfolded d] s2 s3)
  moreover have "take (length msg) out \<noteq> msg" if "4095 < length msg"
    using that assms(2) by auto
  ultimately show ?thesis by auto
qed

theorem dma_test_verdict_witness:
  "main_dma_test 3 [72, 105] 2 (2, [72, 105]) = Some (0, Some True) \<and>
   main_dma_test 3 [72, 105] 2 (2, [72, 0]) = Some (0, Some False)"
  using dma_test_verdict[of "[72, 105]" "[72, 105]" 3 2] dma_test_verdict[of "[72, 105]" "[72, 0]" 3 2]
  by simp

end
