(* ===== verification/DmaConcurrent.thy ===== *)
theory DmaConcurrent
  imports DmaDrivers
begin

text \<open>
  \<open>dev_write\<close> of 21a step by step: several processes in the driver at once, the DMA controller
  as a further thread, and the statics they share (\<open>src_buf\<close>, \<open>dst_buf\<close>, \<open>data_len\<close>, the one
  completion \<open>dma_done\<close>, the channel). The controller is not in the repository: a submitted
  transfer runs once, in order, reads the source when it runs, ends well or with an error, and
  calls \<open>dma_callback\<close> either way. User memory is accessible.
\<close>

section \<open>The system\<close>

text \<open>
  Where a writer is: at the copy from user space, at the \<open>memset\<close>, at the two mappings, at the
  descriptor and \<open>reinit_completion\<close>, at \<open>dmaengine_submit\<close>, in the wait, at
  \<open>dmaengine_terminate_sync\<close> after a timeout, at the status, at the label \<open>unmap\<close> with the
  value of \<open>ret\<close>, at the store to \<open>data_len\<close>, or in user space.
\<close>

datatype dma_pc = D_copy | D_memset | D_map | D_arm | D_submit | D_wait | D_terminate | D_status
  | D_unmap int | D_len | D_user

text \<open>A process writes one buffer after the other; \<open>d_res\<close> are the buffers written and the results.\<close>

record dma_thread =
  d_pc :: dma_pc
  d_buf :: "byte list"
  d_todo :: "byte list list"
  d_cookie :: nat
  d_res :: "(byte list \<times> int) list"

text \<open>
  A transfer in the channel: cookie, the process whose mappings it uses, length. \<open>c_complete\<close>
  are the cookies that ended well, \<open>c_mapped\<close> the processes that hold mappings, \<open>c_stray\<close>
  becomes true when the controller works on memory that is no longer mapped for it.
\<close>

record dma_sys =
  c_src :: "byte list"
  c_dst :: "byte list"
  c_len :: nat
  c_done :: nat
  c_jobs :: "(nat \<times> nat \<times> nat) list"
  c_next :: nat
  c_complete :: "nat list"
  c_mapped :: "nat list"
  c_stray :: bool
  c_threads :: "dma_thread list"

definition dma_count :: "byte list \<Rightarrow> nat" where
  "dma_count u = min (length u) DMA_BUF"

text \<open>The call returns \<open>r\<close>; the process goes on with its next buffer.\<close>

definition return_write :: "int \<Rightarrow> dma_thread \<Rightarrow> dma_thread" where
  "return_write r t = (case d_todo t of
      [] \<Rightarrow> t\<lparr>d_pc := D_user, d_res := d_res t @ [(d_buf t, r)]\<rparr>
    | u # us \<Rightarrow> t\<lparr>d_pc := D_copy, d_buf := u, d_todo := us, d_res := d_res t @ [(d_buf t, r)]\<rparr>)"

text \<open>\<open>dma_callback\<close>, in the interrupt of the controller.\<close>

definition dma_callback :: "dma_sys \<Rightarrow> dma_sys" where
  "dma_callback s = s\<lparr>c_done := c_done s + 1\<rparr>"

text \<open>
  One step of process \<open>i\<close>; \<open>ok\<close> is whether the kernel call of the step succeeds (for the wait:
  whether it has not timed out).
\<close>

definition dma_thread_step :: "nat \<Rightarrow> bool \<Rightarrow> dma_thread \<Rightarrow> dma_sys \<Rightarrow> dma_thread \<times> dma_sys" where
  "dma_thread_step i ok t s = (let n = dma_count (d_buf t) in case d_pc t of
      D_copy \<Rightarrow> (t\<lparr>d_pc := D_memset\<rparr>, s\<lparr>c_src := take n (d_buf t) @ drop n (c_src s)\<rparr>)
    | D_memset \<Rightarrow> (t\<lparr>d_pc := D_map\<rparr>, s\<lparr>c_dst := replicate DMA_BUF 0\<rparr>)
    | D_map \<Rightarrow> if ok then (t\<lparr>d_pc := D_arm\<rparr>, s\<lparr>c_mapped := i # c_mapped s\<rparr>)
               else (return_write (- ENOMEM) t, s)
    | D_arm \<Rightarrow> if ok then (t\<lparr>d_pc := D_submit\<rparr>, s\<lparr>c_done := 0\<rparr>)
               else (t\<lparr>d_pc := D_unmap (- EIO)\<rparr>, s)
    | D_submit \<Rightarrow> if ok
               then (t\<lparr>d_pc := D_wait, d_cookie := c_next s\<rparr>,
                     s\<lparr>c_jobs := c_jobs s @ [(c_next s, i, n)], c_next := c_next s + 1\<rparr>)
               else (t\<lparr>d_pc := D_unmap (- EIO)\<rparr>, s)
    | D_wait \<Rightarrow> if c_done s \<noteq> 0 then (t\<lparr>d_pc := D_status\<rparr>, s\<lparr>c_done := c_done s - 1\<rparr>)
               else if ok then (t, s) else (t\<lparr>d_pc := D_terminate\<rparr>, s)
    | D_terminate \<Rightarrow> (t\<lparr>d_pc := D_unmap (- ETIMEDOUT)\<rparr>, s\<lparr>c_jobs := []\<rparr>)
    | D_status \<Rightarrow> (t\<lparr>d_pc := D_unmap (if d_cookie t \<in> set (c_complete s) then 0 else - EIO)\<rparr>, s)
    | D_unmap ret \<Rightarrow> (if ret \<noteq> 0 then return_write ret t else t\<lparr>d_pc := D_len\<rparr>,
                      s\<lparr>c_mapped := remove1 i (c_mapped s)\<rparr>)
    | D_len \<Rightarrow> (return_write (int n) t, s\<lparr>c_len := n\<rparr>)
    | D_user \<Rightarrow> (t, s))"

text \<open>The controller runs the first transfer of the channel.\<close>

definition controller_step :: "bool \<Rightarrow> dma_sys \<Rightarrow> dma_sys" where
  "controller_step ok s = (case c_jobs s of
      [] \<Rightarrow> s
    | (k, i, n) # js \<Rightarrow>
        dma_callback (s\<lparr>c_jobs := js, c_stray := (c_stray s \<or> i \<notin> set (c_mapped s)),
          c_dst := (if ok then take n (c_src s) @ drop n (c_dst s) else c_dst s),
          c_complete := (if ok then k # c_complete s else c_complete s)\<rparr>))"

datatype dma_event = Run_process nat bool | Run_controller bool

fun dma_step :: "dma_event \<Rightarrow> dma_sys \<Rightarrow> dma_sys" where
  "dma_step (Run_process i ok) s =
     (if i < length (c_threads s)
      then (case dma_thread_step i ok (c_threads s ! i) s of
              (t, s') \<Rightarrow> s'\<lparr>c_threads := (c_threads s)[i := t]\<rparr>)
      else s)"
| "dma_step (Run_controller ok) s = controller_step ok s"

definition dma_run :: "dma_event list \<Rightarrow> dma_sys \<Rightarrow> dma_sys" where
  "dma_run = fold dma_step"

text \<open>Processes that are about to write their buffers, on a device just loaded.\<close>

definition dma_start :: "byte list list list \<Rightarrow> dma_sys" where
  "dma_start uss = \<lparr>c_src = replicate DMA_BUF 0, c_dst = replicate DMA_BUF 0, c_len = 0, c_done = 0,
     c_jobs = [], c_next = 1, c_complete = [], c_mapped = [], c_stray = False,
     c_threads = map (\<lambda>us. case us of
         [] \<Rightarrow> \<lparr>d_pc = D_user, d_buf = [], d_todo = [], d_cookie = 0, d_res = []\<rparr>
       | u # us \<Rightarrow> \<lparr>d_pc = D_copy, d_buf = u, d_todo = us, d_cookie = 0, d_res = []\<rparr>) uss\<rparr>"

section \<open>One writer\<close>

text \<open>
  What holds of one process alone in the driver, at every point of it: its transfer is in the
  channel only while it waits or is about to terminate it, its buffers are mapped from before
  to after that, a completion is signalled only by its own transfer, and the destination
  holds its bytes from a transfer that ended well until its next \<open>memset\<close>.
\<close>

definition copied :: "byte list \<Rightarrow> dma_sys \<Rightarrow> bool" where
  "copied u s \<longleftrightarrow> take (dma_count u) (c_dst s) = take (dma_count u) u"

definition sourced :: "byte list \<Rightarrow> dma_sys \<Rightarrow> bool" where
  "sourced u s \<longleftrightarrow> take (dma_count u) (c_src s) = take (dma_count u) u"

definition waiting_ok :: "dma_thread \<Rightarrow> dma_sys \<Rightarrow> bool" where
  "waiting_ok t s \<longleftrightarrow>
     (c_jobs s = [(d_cookie t, 0, dma_count (d_buf t))] \<and> c_done s = 0 \<and> d_cookie t \<notin> set (c_complete s)) \<or>
     (c_jobs s = [] \<and> c_done s = 1 \<and> (d_cookie t \<in> set (c_complete s) \<longrightarrow> copied (d_buf t) s))"

definition result_ok :: "byte list \<times> int \<Rightarrow> bool" where
  "result_ok x \<longleftrightarrow> snd x = int (dma_count (fst x)) \<or> snd x \<in> {- ENOMEM, - EIO, - ETIMEDOUT}"

text \<open>Between two writes: the last one, if it succeeded, is what the device holds.\<close>

definition last_kept :: "dma_thread \<Rightarrow> dma_sys \<Rightarrow> bool" where
  "last_kept t s \<longleftrightarrow> (d_res t \<noteq> [] \<longrightarrow> 0 \<le> snd (last (d_res t)) \<longrightarrow>
     c_len s = dma_count (fst (last (d_res t))) \<and> copied (fst (last (d_res t))) s)"

definition lone_pc :: "dma_thread \<Rightarrow> dma_sys \<Rightarrow> bool" where
  "lone_pc t s = (case d_pc t of
      D_copy \<Rightarrow> c_jobs s = [] \<and> c_mapped s = [] \<and> last_kept t s
    | D_user \<Rightarrow> c_jobs s = [] \<and> c_mapped s = [] \<and> last_kept t s
    | D_memset \<Rightarrow> c_jobs s = [] \<and> c_mapped s = [] \<and> sourced (d_buf t) s
    | D_map \<Rightarrow> c_jobs s = [] \<and> c_mapped s = [] \<and> sourced (d_buf t) s
    | D_arm \<Rightarrow> c_jobs s = [] \<and> c_mapped s = [0] \<and> sourced (d_buf t) s
    | D_submit \<Rightarrow> c_jobs s = [] \<and> c_mapped s = [0] \<and> sourced (d_buf t) s \<and> c_done s = 0
    | D_wait \<Rightarrow> c_mapped s = [0] \<and> sourced (d_buf t) s \<and> waiting_ok t s
    | D_terminate \<Rightarrow> c_mapped s = [0] \<and> sourced (d_buf t) s \<and> waiting_ok t s
    | D_status \<Rightarrow> c_jobs s = [] \<and> c_mapped s = [0] \<and> (d_cookie t \<in> set (c_complete s) \<longrightarrow> copied (d_buf t) s)
    | D_unmap ret \<Rightarrow> c_jobs s = [] \<and> c_mapped s = [0] \<and> ret \<in> {0, - EIO, - ETIMEDOUT} \<and>
        (ret = 0 \<longrightarrow> copied (d_buf t) s)
    | D_len \<Rightarrow> c_jobs s = [] \<and> c_mapped s = [] \<and> copied (d_buf t) s)"

definition lone_inv :: "dma_sys \<Rightarrow> bool" where
  "lone_inv s \<longleftrightarrow> (\<exists>t. c_threads s = [t] \<and> lone_pc t s \<and> list_all result_ok (d_res t)) \<and>
     \<not> c_stray s \<and> length (c_src s) = DMA_BUF \<and> length (c_dst s) = DMA_BUF \<and>
     (\<forall>k \<in> set (c_complete s). k < c_next s) \<and> (list_all (\<lambda>j. fst j < c_next s) (c_jobs s))"

lemma dma_count_le [simp]: "dma_count u \<le> length u" "dma_count u \<le> DMA_BUF"
  by (simp_all add: dma_count_def)

lemma sourced_copy: "sourced u (s\<lparr>c_src := take (dma_count u) u @ drop (dma_count u) (c_src s)\<rparr>)"
  by (simp add: sourced_def)

lemma copied_transfer:
  "sourced u s \<Longrightarrow> length (c_src s) = DMA_BUF \<Longrightarrow> take (dma_count u) (c_dst s') = take (dma_count u) (c_src s) \<Longrightarrow> copied u s'"
  by (simp add: sourced_def copied_def)

lemma frames [simp]:
  "sourced u (s\<lparr>c_dst := d\<rparr>) = sourced u s" "sourced u (s\<lparr>c_mapped := m\<rparr>) = sourced u s"
  "sourced u (s\<lparr>c_done := k\<rparr>) = sourced u s" "sourced u (s\<lparr>c_jobs := js\<rparr>) = sourced u s"
  "sourced u (s\<lparr>c_next := k\<rparr>) = sourced u s" "sourced u (s\<lparr>c_threads := ts\<rparr>) = sourced u s"
  "sourced u (s\<lparr>c_complete := ks\<rparr>) = sourced u s" "sourced u (s\<lparr>c_stray := b\<rparr>) = sourced u s"
  "copied u (s\<lparr>c_mapped := m\<rparr>) = copied u s" "copied u (s\<lparr>c_done := k\<rparr>) = copied u s"
  "copied u (s\<lparr>c_jobs := js\<rparr>) = copied u s" "copied u (s\<lparr>c_len := n\<rparr>) = copied u s"
  "copied u (s\<lparr>c_threads := ts\<rparr>) = copied u s" "copied u (s\<lparr>c_next := k\<rparr>) = copied u s"
  by (simp_all add: sourced_def copied_def)

lemma return_write_res [simp]: "d_res (return_write r t) = d_res t @ [(d_buf t, r)]"
  by (simp add: return_write_def split: list.splits)

lemma return_write_pc: "d_pc (return_write r t) \<in> {D_copy, D_user}"
  by (simp add: return_write_def split: list.splits)

lemma lone_returned:
  assumes "c_jobs s = []" and "c_mapped s = []"
    and "0 \<le> r \<longrightarrow> c_len s = dma_count (d_buf t) \<and> copied (d_buf t) s"
  shows "lone_pc (return_write r t) s"
proof -
  have "last_kept (return_write r t) s" using assms(3) by (simp add: last_kept_def)
  then show ?thesis using assms(1,2) return_write_pc[of r t] by (auto simp: lone_pc_def)
qed

lemmas dts = dma_thread_step_def[unfolded Let_def]

text \<open>What one step of the process has to establish.\<close>

lemma lone_thread_step:
  assumes "lone_pc t s" and "dma_thread_step 0 ok t s = (t', s')"
    and "length (c_src s) = DMA_BUF" and "\<forall>k \<in> set (c_complete s). k < c_next s"
    and "list_all (\<lambda>j. fst j < c_next s) (c_jobs s)" and "list_all result_ok (d_res t)"
  shows "lone_pc t' s' \<and> list_all result_ok (d_res t')"
proof (cases "d_pc t")
  case D_copy
  with assms show ?thesis by (auto simp: lone_pc_def dts sourced_copy)
next
  case D_memset
  with assms show ?thesis by (auto simp: lone_pc_def dts)
next
  case D_map
  with assms show ?thesis
    by (cases ok) (auto simp: dts result_ok_def lone_pc_def[of t] lone_pc_def[of "t\<lparr>d_pc := D_arm\<rparr>"]
      intro!: lone_returned)
next
  case D_arm
  with assms show ?thesis by (cases ok) (auto simp: lone_pc_def dts)
next
  case D_submit
  with assms show ?thesis by (cases ok) (auto simp: lone_pc_def dts waiting_ok_def)
next
  case D_wait
  with assms show ?thesis
    by (cases "c_done s = 0"; cases ok) (auto simp: lone_pc_def dts waiting_ok_def)
next
  case D_terminate
  with assms show ?thesis by (auto simp: lone_pc_def dts)
next
  case D_status
  with assms show ?thesis by (auto simp: lone_pc_def dts)
next
  case (D_unmap ret)
  show ?thesis
  proof (cases "ret = 0")
    case True
    with D_unmap assms show ?thesis by (auto simp: lone_pc_def dts)
  next
    case False
    with D_unmap assms have "t' = return_write ret t" "s' = s\<lparr>c_mapped := remove1 0 (c_mapped s)\<rparr>"
      "c_jobs s = []" "c_mapped s = [0]" "ret \<in> {- EIO, - ETIMEDOUT}"
      by (auto simp: lone_pc_def dts)
    with assms(6) show ?thesis by (auto simp: result_ok_def intro!: lone_returned)
  qed
next
  case D_len
  with assms have "t' = return_write (int (dma_count (d_buf t))) t" "s' = s\<lparr>c_len := dma_count (d_buf t)\<rparr>"
    "c_jobs s = []" "c_mapped s = []" "copied (d_buf t) s"
    by (auto simp: lone_pc_def dts)
  with assms(6) show ?thesis by (auto simp: result_ok_def intro!: lone_returned)
next
  case D_user
  with assms show ?thesis by (auto simp: dts)
qed

lemma thread_step_frame:
  assumes "dma_thread_step i ok t s = (t', s')" and "length (c_src s) = DMA_BUF" and "length (c_dst s) = DMA_BUF"
    and "\<forall>k \<in> set (c_complete s). k < c_next s" and "list_all (\<lambda>j. fst j < c_next s) (c_jobs s)"
  shows "c_stray s' = c_stray s \<and> length (c_src s') = DMA_BUF \<and> length (c_dst s') = DMA_BUF \<and>
    (\<forall>k \<in> set (c_complete s'). k < c_next s') \<and> (list_all (\<lambda>j. fst j < c_next s') (c_jobs s'))"
proof (cases "d_pc t")
  case D_copy
  then have "s' = s\<lparr>c_src := take (dma_count (d_buf t)) (d_buf t) @ drop (dma_count (d_buf t)) (c_src s)\<rparr>"
    using assms(1) by (simp add: dts)
  then show ?thesis using assms by simp
next
  case D_submit
  then have "s' = s \<or> s' = s\<lparr>c_jobs := c_jobs s @ [(c_next s, i, dma_count (d_buf t))], c_next := c_next s + 1\<rparr>"
    using assms(1) by (auto simp: dts split: if_splits)
  then show ?thesis using assms(2-5) by (elim disjE) (auto simp: less_Suc_eq elim: list.pred_mono_strong)
qed (use assms in \<open>auto simp: dts split: if_splits\<close>)

lemma lone_pc_threads [simp]: "lone_pc t (s\<lparr>c_threads := ts\<rparr>) = lone_pc t s"
  by (cases "d_pc t") (simp_all add: lone_pc_def waiting_ok_def last_kept_def)

lemma lone_process_step:
  assumes "lone_inv s"
  shows "lone_inv (dma_step (Run_process i ok) s)"
proof (cases "i = 0")
  case True
  obtain t where t: "c_threads s = [t]" "lone_pc t s" "list_all result_ok (d_res t)"
    using assms by (auto simp: lone_inv_def)
  obtain t' s' where st: "dma_thread_step 0 ok t s = (t', s')" by (rule prod.exhaust)
  have f: "length (c_src s) = DMA_BUF" "length (c_dst s) = DMA_BUF" "\<forall>k \<in> set (c_complete s). k < c_next s"
    "list_all (\<lambda>j. fst j < c_next s) (c_jobs s)" "\<not> c_stray s" using assms by (auto simp: lone_inv_def)
  have "dma_step (Run_process i ok) s = s'\<lparr>c_threads := [t']\<rparr>" using True t(1) st by simp
  with lone_thread_step[OF t(2) st f(1,3,4) t(3)] thread_step_frame[OF st f(1-4)] f(5)
  show ?thesis by (simp add: lone_inv_def)
next
  case False
  with assms show ?thesis by (auto simp: lone_inv_def)
qed

lemma lone_controller_step:
  assumes "lone_inv s"
  shows "lone_inv (dma_step (Run_controller ok) s)"
proof (cases "c_jobs s")
  case Nil
  with assms show ?thesis by (simp add: controller_step_def)
next
  case (Cons j js)
  obtain t where t: "c_threads s = [t]" "lone_pc t s" "list_all result_ok (d_res t)"
    using assms by (auto simp: lone_inv_def)
  have pc: "d_pc t = D_wait \<or> d_pc t = D_terminate" using t(2) Cons by (cases "d_pc t") (auto simp: lone_pc_def)
  then have w: "j = (d_cookie t, 0, dma_count (d_buf t))" "js = []" "c_done s = 0" "c_mapped s = [0]"
    "d_cookie t \<notin> set (c_complete s)" "sourced (d_buf t) s" "d_cookie t < c_next s"
    using t(2) Cons assms by (auto simp: lone_pc_def waiting_ok_def lone_inv_def)
  define n where "n = dma_count (d_buf t)"
  define s' where "s' = controller_step ok s"
  have n: "n \<le> DMA_BUF" "n \<le> length (d_buf t)" by (simp_all add: n_def)
  have s': "c_jobs s' = []" "c_done s' = 1" "c_mapped s' = [0]" "c_threads s' = [t]" "c_src s' = c_src s"
    "c_next s' = c_next s" "\<not> c_stray s'" "c_complete s' = (if ok then d_cookie t # c_complete s else c_complete s)"
    "c_dst s' = (if ok then take n (c_src s) @ drop n (c_dst s) else c_dst s)"
    using Cons w t(1) assms unfolding s'_def by (auto simp: controller_step_def dma_callback_def lone_inv_def n_def)
  have l: "length (c_src s) = DMA_BUF" "length (c_dst s) = DMA_BUF" using assms by (auto simp: lone_inv_def)
  have "ok \<Longrightarrow> copied (d_buf t) s'"
    using w(6) l n s'(9) by (simp add: copied_def sourced_def n_def[symmetric])
  then have "waiting_ok t s'" using s' w(5) by (auto simp: waiting_ok_def)
  moreover have "sourced (d_buf t) s'" using w(6) s'(5) by (simp add: sourced_def)
  ultimately have "lone_pc t s'" using pc s' by (auto simp: lone_pc_def)
  then have "lone_inv s'" using t(3) s' l n w(7) assms by (auto simp: lone_inv_def)
  then show ?thesis by (simp add: s'_def)
qed

lemma lone_start: "lone_inv (dma_start [us])"
  by (auto simp: lone_inv_def dma_start_def lone_pc_def last_kept_def split: list.splits)

lemma lone_run: "lone_inv s \<Longrightarrow> lone_inv (dma_run evs s)"
proof (induction evs arbitrary: s)
  case (Cons e evs)
  then show ?case using lone_process_step lone_controller_step by (cases e) (auto simp: dma_run_def)
qed (simp add: dma_run_def)

section \<open>Properties\<close>

text \<open>C8. One process writing to 21a, under every interleaving with the DMA controller, with
  transfers that fail or time out at any point: the controller never works on memory that is
  not mapped for it, nothing stays in the channel or mapped between two writes, every result
  is the number of bytes or one of three errnos, and when a write has succeeded the device
  holds exactly its bytes, whatever became of the writes before it.\<close>

theorem m2m_one_writer:
  assumes "s = dma_run evs (dma_start [us])"
  shows "\<not> c_stray s \<and> (\<exists>t. c_threads s = [t] \<and> list_all result_ok (d_res t) \<and>
    (d_pc t \<in> {D_copy, D_user} \<longrightarrow> c_jobs s = [] \<and> c_mapped s = [] \<and>
       (d_res t \<noteq> [] \<longrightarrow> 0 \<le> snd (last (d_res t)) \<longrightarrow>
          take (c_len s) (c_dst s) = take DMA_BUF (fst (last (d_res t))))))"
proof -
  have "lone_inv s" unfolding assms by (rule lone_run[OF lone_start])
  then obtain t where t: "c_threads s = [t]" "lone_pc t s" "list_all result_ok (d_res t)" and "\<not> c_stray s"
    by (auto simp: lone_inv_def)
  moreover have "c_jobs s = [] \<and> c_mapped s = [] \<and> last_kept t s" if "d_pc t \<in> {D_copy, D_user}"
    using t(2) that by (auto simp: lone_pc_def)
  ultimately show ?thesis by (auto simp: last_kept_def copied_def dma_count_def min_def)
qed

text \<open>
  A write that times out while its transfer ends, and a second one: without a fresh start of
  the completion the second would be told of the first one's end.
\<close>

theorem m2m_one_writer_witness:
  "\<exists>t. c_threads (dma_run (replicate 5 (Run_process 0 True) @ [Run_process 0 False, Run_controller True] @
       replicate 7 (Run_process 0 True) @ [Run_controller True] @ replicate 4 (Run_process 0 True))
       (dma_start [[[1, 2], [7]]])) = [t] \<and> list_all result_ok (d_res t)"
  using m2m_one_writer[OF refl] by blast

text \<open>C23. Nothing keeps two processes apart in 21a. A process can be told that its one byte was
  copied although the device holds a byte of the other, which has not returned; and a process
  woken by the end of the other's transfer unmaps its buffers while its own transfer is still
  in the channel, which then runs on memory that is no longer mapped.\<close>

theorem m2m_writers_race:
  "(\<exists>evs. let s = dma_run evs (dma_start [[[65]], [[66]]]) in
      map d_res (c_threads s) = [[([65], 1)], []] \<and> take (c_len s) (c_dst s) = [66]) \<and>
   (\<exists>evs. c_stray (dma_run evs (dma_start [[[65]], [[66]]])))"
proof
  let ?p = "Run_process 0 True" and ?q = "Run_process 1 True" and ?c = "Run_controller True"
  note run = dma_run_def dma_start_def dts dma_count_def return_write_def controller_step_def dma_callback_def
  have "let s = dma_run [?p, ?p, ?p, ?p, ?p, ?q, ?c, ?p, ?p, ?p, ?p] (dma_start [[[65]], [[66]]]) in
      map d_res (c_threads s) = [[([65], 1)], []] \<and> take (c_len s) (c_dst s) = [66]" by (simp add: run)
  then show "\<exists>evs. let s = dma_run evs (dma_start [[[65]], [[66]]]) in
      map d_res (c_threads s) = [[([65], 1)], []] \<and> take (c_len s) (c_dst s) = [66]" by (rule exI)
  have "c_stray (dma_run [?p, ?p, ?p, ?p, ?p, ?q, ?q, ?q, ?q, ?q, ?c, ?q, ?q, ?q, ?c] (dma_start [[[65]], [[66]]]))"
    by (simp add: run)
  then show "\<exists>evs. c_stray (dma_run evs (dma_start [[[65]], [[66]]]))" by (rule exI)
qed

end
