(* ===== verification/DataDrivers.thy ===== *)
theory DataDrivers
  imports Kapi CharIface CStdio
begin

text \<open>
  Drivers around kernel data: \<open>22.mmap__Zero_Copy_Driver\<close> (one page shared with user space),
  \<open>23.Kernel_Linked_list\<close> (a list of students behind read, write and ioctl, with its menu
  program) and \<open>24.kobject_sysfs\<close> (two sysfs attributes). First the operations in the order
  of the sources, then the facts on each driver, then the properties.
\<close>

section \<open>22: the shared page\<close>

abbreviation PAGE_SIZE :: nat where "PAGE_SIZE \<equiv> 4096"

text \<open>\<open>%px\<close> and \<open>%pa\<close> of \<open>printk\<close> print 16 hexadecimal digits, the second with \<open>0x\<close>.\<close>

definition hex16 :: "64 word \<Rightarrow> byte list" where
  "hex16 w = map (\<lambda>k. let d = unat (drop_bit (4 * (15 - k)) w) mod 16
                       in of_nat (if d < 10 then 48 + d else 87 + d)) [0..<16]"

definition mmap_banner :: "64 word \<Rightarrow> 64 word \<Rightarrow> byte list" where
  "mmap_banner virt phys =
     bytes_of ''Hello from Kernel and Kernal Virtual - 0x'' @ hex16 virt @
     bytes_of '' and Physical Address - 0x'' @ bytes_of ''0x'' @ hex16 phys @ [10]"

text \<open>
  \<open>my_mmap\<close>: \<open>virt\<close> and \<open>phys\<close> are the addresses of the page, \<open>remap\<close> what
  \<open>remap_pfn_range\<close> returns. The page is written before the request is looked at.
\<close>

definition my_mmap ::
    "64 word \<Rightarrow> 64 word \<Rightarrow> int \<Rightarrow> 64 word \<Rightarrow> 64 word \<Rightarrow> 64 word \<Rightarrow> byte list \<Rightarrow> (int \<times> byte list) option" where
  "my_mmap virt phys remap vm_start vm_end vm_pgoff page =
     (case c_store page 0 (mmap_banner virt phys @ [0]) of
        None \<Rightarrow> None
      | Some page' \<Rightarrow>
          if of_nat PAGE_SIZE < vm_end - vm_start then Some (- EINVAL, page')
          else if vm_pgoff \<noteq> 0 then Some (- EINVAL, page')
          else if remap \<noteq> 0 then Some (- EAGAIN, page')
          else Some (0, page'))"

definition my_init_mmap :: "kenv \<Rightarrow> int kprog" where
  "my_init_mmap env = do {
     page \<leftarrow> kcall env (Mm Get_zeroed_page);
     (if page = 0 then kret (- ENOMEM) else do {
        r \<leftarrow> kcall env (Chr (Alloc_chrdev_region 0 1 ''mmap_demo''));
        (if r \<noteq> 0 then do { kcall env (Mm Free_page); kret r } else do {
           kcall env (Chr (Cdev_init 0));
           r \<leftarrow> kcall env (Chr (Cdev_add 0 0 1));
           (if r \<noteq> 0 then do {
              kcall env (Chr (Unregister_chrdev_region 1)); kcall env (Mm Free_page); kret r }
            else do {
              c \<leftarrow> kcall env (Dev (Class_create ''mmap_demo''));
              (if IS_ERR c then do {
                 kcall env (Chr (Cdev_del 0)); kcall env (Chr (Unregister_chrdev_region 1));
                 kcall env (Mm Free_page); kret c }
               else do {
                 d \<leftarrow> kcall env (Dev (Device_create 0 ''mmap_demo''));
                 (if IS_ERR d then do {
                    kcall env (Dev Class_destroy); kcall env (Chr (Cdev_del 0));
                    kcall env (Chr (Unregister_chrdev_region 1)); kcall env (Mm Free_page); kret d }
                  else kret 0) }) }) }) }) }"

definition my_exit_mmap :: "kenv \<Rightarrow> unit kprog" where
  "my_exit_mmap env = do {
     kcall env (Dev (Device_destroy 0));
     kcall env (Dev Class_destroy);
     kcall env (Chr (Cdev_del 0));
     kcall env (Chr (Unregister_chrdev_region 1));
     kcall env (Mm Free_page);
     kret () }"

interpretation mmap: module_lifecycle my_init_mmap my_exit_mmap "[Device 0, Class, Cdev 0, Region, Page]"
  by unfold_locales
    (auto simp: my_init_mmap_def my_exit_mmap_def kenv_rules split: if_splits)

text \<open>
  The user program: \<open>fd\<close> is what \<open>open\<close> returned, \<open>ptr\<close> the address chosen for the
  mapping as \<open>%p\<close> prints it. Through the mapping it reads and writes the driver's page.
  The result is the exit code, the two lines printed and the page.
\<close>

definition main_mmap ::
    "int \<Rightarrow> byte list \<Rightarrow> (byte list \<Rightarrow> (int \<times> byte list) option) \<Rightarrow> byte list \<Rightarrow>
     (int \<times> byte list list \<times> byte list) option" where
  "main_mmap fd ptr mmap page =
     (if fd < 0 then Some (- 1, [], page)
      else case mmap page of
        None \<Rightarrow> None
      | Some (r, page) \<Rightarrow>
          if r < 0 then Some (- 1, [], page)
          else case c_string page of
            None \<Rightarrow> None
          | Some kernel_says \<Rightarrow>
              (case c_store page 0 (bytes_of ''Hello from Userspace and address is 0x'' @ ptr @ [10, 0]) of
                 None \<Rightarrow> None
               | Some page \<Rightarrow> map_option (\<lambda>m. (0, [kernel_says, m], page)) (c_string page)))"

section \<open>23: the list of students\<close>

abbreviation LIST_BUF :: nat where "LIST_BUF \<equiv> 128"
abbreviation LIST_OUT :: nat where "LIST_OUT \<equiv> 512"
abbreviation DELETE_NODE :: "32 word" where "DELETE_NODE \<equiv> 1"

record student =
  st_id :: "32 word"
  st_name :: "byte list"

text \<open>
  \<open>my_write\<close> (\<open>room\<close>: does \<open>kzalloc\<close> succeed). Every refusal returns 0; a line that is not
  a number and a word is one of them.
\<close>

definition my_write_list ::
    "bool \<Rightarrow> uapi \<Rightarrow> byte list \<Rightarrow> nat \<Rightarrow> student list \<Rightarrow> (int \<times> student list) option" where
  "my_write_list room K u len ss =
     (if LIST_BUF \<le> len then Some (0, ss)
      else let (left, data) = copy_from_user K u len in
        if left \<noteq> 0 then Some (0, ss)
        else if \<not> room then Some (0, ss)
        else let kbuf = takeWhile (\<lambda>b. b \<noteq> 0) data in
          case scan_d kbuf of
            None \<Rightarrow> Some (0, ss)
          | Some (i, rest) \<Rightarrow>
              (case scan_s 31 rest of
                 None \<Rightarrow> Some (0, ss)
               | Some (w, _) \<Rightarrow>
                   map_option (\<lambda>name. (int len, ss @ [\<lparr>st_id = of_int i, st_name = name\<rparr>]))
                     (c_store (replicate 32 0) 0 (w @ [0]))))"

definition list_line :: "student \<Rightarrow> byte list option" where
  "list_line s =
     map_option (\<lambda>name. bytes_of ''ID='' @ print_d (sint (st_id s)) @ bytes_of '' Name='' @ name @ [10])
       (c_string (st_name s))"

text \<open>The loop of \<open>my_read\<close> with the text stored in \<open>kbuf\<close> so far.\<close>

fun list_text_loop :: "student list \<Rightarrow> byte list \<Rightarrow> byte list option" where
  "list_text_loop [] text = Some text"
| "list_text_loop (s # ss) text =
     (case list_line s of
        None \<Rightarrow> None
      | Some l \<Rightarrow>
          let text = text @ scn_text (LIST_OUT - length text) l in
          if LIST_OUT \<le> length text then Some text else list_text_loop ss text)"

definition my_read_list :: "uapi \<Rightarrow> nat \<Rightarrow> int \<Rightarrow> student list \<Rightarrow> read_result" where
  "my_read_list K len off ss =
     (if off \<noteq> 0 then Some (0, [], off)
      else case list_text_loop ss [] of
        None \<Rightarrow> None
      | Some kbuf \<Rightarrow>
          let (left, out) = copy_to_user K kbuf in
          if left \<noteq> 0 then Some (- EFAULT, out, off)
          else Some (int (length kbuf), out, off + int (length kbuf)))"

text \<open>The \<open>int\<close> id is compared with the \<open>unsigned long\<close> argument, so it is sign-extended.\<close>

fun list_del_loop :: "64 word \<Rightarrow> student list \<Rightarrow> student list option" where
  "list_del_loop arg [] = None"
| "list_del_loop arg (s # ss) =
     (if scast (st_id s) = arg then Some ss else map_option ((#) s) (list_del_loop arg ss))"

definition my_ioctl_list :: "32 word \<Rightarrow> 64 word \<Rightarrow> student list \<Rightarrow> int \<times> student list" where
  "my_ioctl_list cmd arg ss =
     (if cmd = DELETE_NODE
      then case list_del_loop arg ss of Some ss' \<Rightarrow> (0, ss') | None \<Rightarrow> (1, ss)
      else (2, ss))"

definition list_init :: "kenv \<Rightarrow> int kprog" where
  "list_init env = do {
     r \<leftarrow> kcall env (Chr (Alloc_chrdev_region 0 1 ''list_demo''));
     (if r \<noteq> 0 then kret r else do {
        kcall env (Chr (Cdev_init 0));
        r \<leftarrow> kcall env (Chr (Cdev_add 0 0 1));
        (if r \<noteq> 0 then do { kcall env (Chr (Unregister_chrdev_region 1)); kret r }
         else do {
           c \<leftarrow> kcall env (Dev (Class_create ''list_demo''));
           (if IS_ERR c then do {
              kcall env (Chr (Cdev_del 0)); kcall env (Chr (Unregister_chrdev_region 1)); kret c }
            else do {
              d \<leftarrow> kcall env (Dev (Device_create 0 ''list_demo''));
              (if IS_ERR d then do {
                 kcall env (Dev Class_destroy); kcall env (Chr (Cdev_del 0));
                 kcall env (Chr (Unregister_chrdev_region 1)); kret d }
               else kret 0) }) }) }) }"

text \<open>\<open>list_exit\<close> unlinks and frees the students one by one; the result is what it freed.\<close>

primrec list_free_loop :: "student list \<Rightarrow> student list \<Rightarrow> student list \<times> student list" where
  "list_free_loop [] freed = ([], freed)"
| "list_free_loop (s # ss) freed = list_free_loop ss (freed @ [s])"

definition list_exit :: "kenv \<Rightarrow> student list \<Rightarrow> (student list \<times> student list) kprog" where
  "list_exit env ss = do {
     kcall env (Dev (Device_destroy 0));
     kcall env (Dev Class_destroy);
     kcall env (Chr (Cdev_del 0));
     kcall env (Chr (Unregister_chrdev_region 1));
     kret (list_free_loop ss []) }"

interpretation klist: module_lifecycle list_init "\<lambda>env. do { list_exit env ss; kret () }"
  "[Device 0, Class, Cdev 0, Region]" for ss
  by unfold_locales (auto simp: list_init_def list_exit_def kenv_rules split: if_splits)

text \<open>
  The menu program. Its state: what is left of standard input, its variable \<open>name\<close>
  (uninitialised at first), its file offset, the driver's list and the lines printed. A turn
  of the menu goes on, returns from \<open>main\<close>, or leaves one of its buffers.
\<close>

record menu =
  m_in :: "byte list"
  m_name :: "byte list"
  m_off :: int
  m_list :: "student list"
  m_out :: "byte list list"

datatype turn = Goes_on menu | Returns int menu | Overruns

text \<open>\<open>validate_input\<close>: a number, or the rest of the line is thrown away.\<close>

definition flush_input :: "byte list \<Rightarrow> byte list" where
  "flush_input s = drop 1 (dropWhile (\<lambda>c. c \<noteq> 10) s)"

definition validate_input :: "byte list \<Rightarrow> 32 word option \<times> byte list" where
  "validate_input s =
     (case scan_d s of
        Some (i, rest) \<Rightarrow> (Some (of_int i), rest)
      | None \<Rightarrow> (None, flush_input (dropWhile is_space s)))"

definition say :: "string \<Rightarrow> menu \<Rightarrow> menu" where
  "say t m = m\<lparr>m_out := m_out m @ [bytes_of t]\<rparr>"

text \<open>Case 1: \<open>room\<close> is the driver's \<open>kzalloc\<close>; \<open>scanf\<close> at the end of input leaves \<open>name\<close>.\<close>

definition menu_add :: "bool \<Rightarrow> uapi \<Rightarrow> menu \<Rightarrow> turn" where
  "menu_add room K m =
     (case validate_input (m_in m) of
        (None, rest) \<Rightarrow> Goes_on (say ''Invalid input! Please enter a number.'' (m\<lparr>m_in := rest\<rparr>))
      | (Some i, rest) \<Rightarrow>
          let (name, rest) =
            (case scan_s 31 rest of
               None \<Rightarrow> (Some (m_name m), [])
             | Some (w, rest) \<Rightarrow> (c_store (m_name m) 0 (w @ [0]), flush_input rest)) in
          case name of
            None \<Rightarrow> Overruns
          | Some name \<Rightarrow>
              (case c_string name of
                 None \<Rightarrow> Overruns
               | Some w \<Rightarrow>
                   let text = scn_text 128 (print_d (sint i) @ 32 # w) in
                   case my_write_list room K text (length text) (m_list m) of
                     None \<Rightarrow> Overruns
                   | Some (r, ss) \<Rightarrow>
                       Goes_on (say (if r = 0 then ''Write failed'' else ''Write successfully'')
                         (m\<lparr>m_in := rest, m_name := name, m_list := ss\<rparr>))))"

text \<open>Case 2: the driver may store more than the 128 bytes \<open>read\<close> was given.\<close>

definition menu_show :: "uapi \<Rightarrow> menu \<Rightarrow> turn" where
  "menu_show K m =
     (case my_read_list K 128 (m_off m) (m_list m) of
        None \<Rightarrow> Overruns
      | Some (r, out, off) \<Rightarrow>
          (case c_store (replicate 128 0) 0 out of
             None \<Rightarrow> Overruns
           | Some buffer \<Rightarrow>
               (case c_string buffer of
                  None \<Rightarrow> Overruns
                | Some text \<Rightarrow> Goes_on (m\<lparr>m_off := 0, m_out := m_out m @ [text]\<rparr>))))"

text \<open>
  Case 3: \<open>ulong\<close> is how an \<open>int\<close> passed to the variadic \<open>ioctl\<close> arrives as the driver's
  \<open>unsigned long\<close>; only its low half is determined.
\<close>

definition menu_delete :: "(32 word \<Rightarrow> 64 word) \<Rightarrow> menu \<Rightarrow> turn" where
  "menu_delete ulong m =
     (case validate_input (m_in m) of
        (None, rest) \<Rightarrow> Goes_on (say ''Invalid input! Please enter a number.'' (m\<lparr>m_in := rest\<rparr>))
      | (Some i, rest) \<Rightarrow>
          let (r, ss) = my_ioctl_list DELETE_NODE (ulong i) (m_list m); m = m\<lparr>m_in := rest, m_list := ss\<rparr> in
          Goes_on (if r = 2 then say ''Invalid Control ID!'' m
                   else if r = 1 then say ''ID not found!'' m
                   else m\<lparr>m_out := m_out m @ [bytes_of ''Deleted ID='' @ print_d (sint i)]\<rparr>))"

definition menu_turn :: "bool \<Rightarrow> (32 word \<Rightarrow> 64 word) \<Rightarrow> uapi \<Rightarrow> menu \<Rightarrow> turn" where
  "menu_turn room ulong K m =
     (case validate_input (m_in m) of
        (None, rest) \<Rightarrow> Goes_on (say ''Invalid input! Please enter a number.'' (m\<lparr>m_in := rest\<rparr>))
      | (Some choice, rest) \<Rightarrow>
          let m = m\<lparr>m_in := rest\<rparr> in
          if choice = 1 then menu_add room K m
          else if choice = 2 then menu_show K m
          else if choice = 3 then menu_delete ulong m
          else if choice = 4 then Returns 0 m
          else Goes_on (say ''Invalid choice!'' m))"

text \<open>The loop \<open>while (1)\<close>, for a number of turns.\<close>

primrec menu_turns :: "bool \<Rightarrow> (32 word \<Rightarrow> 64 word) \<Rightarrow> uapi \<Rightarrow> nat \<Rightarrow> menu \<Rightarrow> turn" where
  "menu_turns room ulong K 0 m = Goes_on m"
| "menu_turns room ulong K (Suc n) m =
     (case menu_turn room ulong K m of Goes_on m' \<Rightarrow> menu_turns room ulong K n m' | t \<Rightarrow> t)"


section \<open>24: two sysfs attributes\<close>

record sysfs_vars =
  sv_value :: "32 word"
  sv_name :: "byte list"

definition sysfs_vars_start :: sysfs_vars where
  "sysfs_vars_start = \<lparr>sv_value = 0, sv_name = bytes_of ''Linux'' @ replicate 27 0\<rparr>"

text \<open>sysfs hands a store the bytes written followed by NUL.\<close>

definition value_show :: "sysfs_vars \<Rightarrow> byte list" where
  "value_show v = print_d (sint (sv_value v)) @ [10]"

definition value_store :: "byte list \<Rightarrow> nat \<Rightarrow> sysfs_vars \<Rightarrow> int \<times> sysfs_vars" where
  "value_store buf count v =
     (int count, case scan_d (takeWhile (\<lambda>b. b \<noteq> 0) buf) of
                   Some (i, _) \<Rightarrow> v\<lparr>sv_value := of_int i\<rparr> | None \<Rightarrow> v)"

definition name_show :: "sysfs_vars \<Rightarrow> byte list option" where
  "name_show v = map_option (\<lambda>name. name @ [10]) (c_string (sv_name v))"

definition name_store :: "byte list \<Rightarrow> nat \<Rightarrow> sysfs_vars \<Rightarrow> (int \<times> sysfs_vars) option" where
  "name_store buf count v =
     (case scan_s 31 (takeWhile (\<lambda>b. b \<noteq> 0) buf) of
        None \<Rightarrow> Some (int count, v)
      | Some (w, _) \<Rightarrow> map_option (\<lambda>name. (int count, v\<lparr>sv_name := name\<rparr>)) (c_store (sv_name v) 0 (w @ [0])))"

definition my_init_sysfs :: "kenv \<Rightarrow> int kprog" where
  "my_init_sysfs env = do {
     k \<leftarrow> kcall env (Dev (Kobject_create_and_add ''my_sysfs''));
     (if k = 0 then kret (- ENOMEM) else do {
        r \<leftarrow> kcall env (Dev Sysfs_create_group);
        (if r \<noteq> 0 then do { kcall env (Dev Kobject_put); kret r } else kret 0) }) }"

definition my_exit_sysfs :: "kenv \<Rightarrow> unit kprog" where
  "my_exit_sysfs env = do {
     kcall env (Dev Sysfs_remove_group);
     kcall env (Dev Kobject_put);
     kret () }"

interpretation sysfs: module_lifecycle my_init_sysfs my_exit_sysfs "[SysfsGroup, Kobj]"
  by unfold_locales (auto simp: my_init_sysfs_def my_exit_sysfs_def kenv_rules split: if_splits)

section \<open>Facts on the list driver\<close>

definition good_student :: "student \<Rightarrow> bool" where
  "good_student s \<longleftrightarrow> nul_buf 32 (st_name s)"

definition line_of :: "student \<Rightarrow> byte list" where
  "line_of s = bytes_of ''ID='' @ print_d (sint (st_id s)) @ bytes_of '' Name='' @ text_of (st_name s) @ [10]"

lemma list_line_good: "good_student s \<Longrightarrow> list_line s = Some (line_of s)"
  by (simp add: good_student_def list_line_def line_of_def nul_buf_string)

lemma list_text_loop_take:
  assumes "\<forall>s \<in> set ss. good_student s" and "length tx < LIST_OUT"
  shows "list_text_loop ss tx = Some (take 511 (tx @ concat (map line_of ss)))"
  using assms
proof (induction ss arbitrary: tx)
  case (Cons s ss)
  let ?t = "tx @ scn_text (LIST_OUT - length tx) (line_of s)"
  have t: "?t = take 511 (tx @ line_of s)" using Cons.prems(2) by (simp add: scn_text_def)
  then have "length ?t < LIST_OUT" by simp
  then have "list_text_loop ss ?t = Some (take 511 (?t @ concat (map line_of ss)))"
    using Cons by simp
  moreover have "take 511 (?t @ concat (map line_of ss)) = take 511 (tx @ line_of s @ concat (map line_of ss))"
    unfolding t using Cons.prems(2)
    by (cases "length (tx @ line_of s) \<le> 511") (simp_all add: min_def)
  ultimately show ?case using Cons.prems \<open>length ?t < LIST_OUT\<close> by (simp add: list_line_good Let_def)
qed simp

lemma name_store_zeroed:
  assumes "length w \<le> 31" and "0 \<notin> set w"
  obtains name where "c_store (replicate 32 0) 0 (w @ [0]) = Some name" and "nul_buf 32 name"
    and "text_of name = w"
proof
  show "c_store (replicate 32 0) 0 (w @ [0]) = Some (w @ replicate (32 - length w) 0)"
    using assms(1) by (simp add: c_store_def Cons_replicate_eq)
  show "nul_buf 32 (w @ replicate (32 - length w) 0)"
    using assms(1) by (simp add: nul_buf_def nth_append)
  show "text_of (w @ replicate (32 - length w) 0) = w"
    using assms(2) by (simp add: text_of_def takeWhile_nz_zeros)
qed

lemma write_list_scan:
  assumes "copy_from_user K u len = (0, data)" and "len < LIST_BUF"
    and "scan_d (takeWhile (\<lambda>b. b \<noteq> 0) data) = Some (i, rest)" and "scan_s 31 rest = Some (w, rest')"
    and "0 \<notin> set w" and "length w \<le> 31"
  obtains name where "my_write_list True K u len ss = Some (int len, ss @ [\<lparr>st_id = of_int i, st_name = name\<rparr>])"
    and "nul_buf 32 name" and "text_of name = w"
proof -
  obtain name where "c_store (replicate 32 0) 0 (w @ [0]) = Some name" "nul_buf 32 name" "text_of name = w"
    using name_store_zeroed[OF assms(6,5)] .
  with assms show ?thesis by (intro that[of name]) (simp_all add: my_write_list_def Let_def)
qed

text \<open>Every write keeps the list good, and no refused one changes it.\<close>

lemma write_list_good:
  assumes "uapi_ok K" and "\<forall>s \<in> set ss. good_student s"
  shows "\<exists>r ss'. my_write_list room K u len ss = Some (r, ss') \<and> (\<forall>s \<in> set ss'. good_student s) \<and>
    (r = 0 \<longrightarrow> len = 0 \<or> ss' = ss) \<and> (r \<noteq> 0 \<longrightarrow> r = int len \<and> (\<exists>s. ss' = ss @ [s]))"
proof (cases "len < LIST_BUF \<and> fst (copy_from_user K u len) = 0 \<and> room")
  case True
  let ?b = "takeWhile (\<lambda>b. b \<noteq> 0) (snd (copy_from_user K u len))"
  have cp: "copy_from_user K u len = (0, snd (copy_from_user K u len))" using True by (metis prod.collapse)
  show ?thesis
  proof (cases "scan_d ?b")
    case None
    with True assms cp show ?thesis by (auto simp: my_write_list_def Let_def split: prod.splits)
  next
    case (Some ir)
    obtain i rest where ir: "ir = (i, rest)" by (rule prod.exhaust)
    show ?thesis
    proof (cases "scan_s 31 rest")
      case None
      with True Some ir assms show ?thesis by (auto simp: my_write_list_def Let_def split: prod.splits)
    next
      case (Some wr)
      obtain w r' where wr: "wr = (w, r')" by (rule prod.exhaust)
      have "set w \<subseteq> set ?b" "length w \<le> 31"
        using scan_d_set[OF \<open>scan_d ?b = Some ir\<close>[unfolded ir]] scan_s_length[OF Some[unfolded wr]] by auto
      then have "0 \<notin> set w" by (auto dest: set_takeWhileD)
      obtain name where "my_write_list True K u len ss = Some (int len, ss @ [\<lparr>st_id = of_int i, st_name = name\<rparr>])"
          "nul_buf 32 name"
        using write_list_scan[OF cp _ \<open>scan_d ?b = Some ir\<close>[unfolded ir] Some[unfolded wr] \<open>0 \<notin> set w\<close>
            \<open>length w \<le> 31\<close>] True by metis
      with True assms(2) show ?thesis by (auto simp: good_student_def)
    qed
  qed
next
  case False
  with assms show ?thesis by (auto simp: my_write_list_def Let_def split: prod.splits)
qed

lemma line_of_nonzero: "0 \<notin> set (line_of s)"
  using print_d_nonzero by (auto simp: line_of_def bytes_of_def text_of_def dest: set_takeWhileD)

lemma lines_nonzero: "0 \<notin> set (concat (map line_of ss))"
  using line_of_nonzero by auto

lemma read_list_nofault:
  assumes "\<forall>s \<in> set ss. good_student s" and "uapi_nofault K"
  shows "my_read_list K n 0 ss =
    Some (int (length (take 511 (concat (map line_of ss)))), take 511 (concat (map line_of ss)),
          int (length (take 511 (concat (map line_of ss)))))"
  using list_text_loop_take[OF assms(1), of "[]"] nofault_ctu[OF assms(2)]
  by (simp add: my_read_list_def)




text \<open>Deleting in 23 removes the first student with the id and only that one; an unknown
  id and an unknown command leave the list as it was, with results 1 and 2. The id is compared
  as an \<open>unsigned long\<close>: a negative id that arrives zero-extended is never found.\<close>

theorem klist_delete_first:
  assumes "st_id s = i" and "i \<notin> st_id ` set pre"
  shows "my_ioctl_list DELETE_NODE (scast i) (pre @ s # post) = (0, pre @ post) \<and>
    my_ioctl_list DELETE_NODE (scast i) pre = (1, pre) \<and>
    (cmd \<noteq> DELETE_NODE \<longrightarrow> my_ioctl_list cmd arg ss = (2, ss)) \<and>
    (sint i < 0 \<longrightarrow> my_ioctl_list DELETE_NODE (ucast i) ss = (1, ss))"
proof -
  have low: "ucast (scast a :: 64 word) = a" for a :: "32 word"
  proof (rule bit_word_eqI)
    fix n assume "n < LENGTH(32)"
    then show "bit (ucast (scast a :: 64 word) :: 32 word) n = bit a n"
      by (cases "n = 31") (auto simp: bit_simps min_def)
  qed
  have inj: "scast a = (scast b :: 64 word) \<longleftrightarrow> a = b" for a b :: "32 word"
    by (metis low)
  have hit: "list_del_loop (scast i) (pre @ s # post) = Some (pre @ post)"
    using assms by (induction pre) (auto simp: inj)
  have miss: "list_del_loop (scast i) pre = None" using assms(2) by (induction pre) (auto simp: inj)
  have neg: "list_del_loop (ucast i) ss = None" if "sint i < 0"
  proof (induction ss)
    case (Cons x xs)
    have "scast (st_id x) \<noteq> (ucast i :: 64 word)"
    proof
      assume eq: "scast (st_id x) = (ucast i :: 64 word)"
      have "bit i 31" using that bit_last_iff[of i] by simp
      then have "bit (scast (st_id x) :: 64 word) 31" unfolding eq by (simp add: bit_simps)
      then have "bit (scast (st_id x) :: 64 word) 63" by (simp add: bit_simps)
      then show False unfolding eq using bit_imp_le_length[of i 63] by (auto simp: bit_simps)
    qed
    with Cons show ?case by simp
  qed simp
  show ?thesis using hit miss neg by (simp add: my_ioctl_list_def)
qed

theorem klist_delete_first_witness:
  "my_ioctl_list DELETE_NODE (ucast (- 1 :: 32 word)) [\<lparr>st_id = - 1, st_name = []\<rparr>] = (1, [\<lparr>st_id = - 1, st_name = []\<rparr>])"
  using klist_delete_first[where s = "\<lparr>st_id = - 1, st_name = []\<rparr>" and i = "- 1" and pre = "[]"
      and ss = "[\<lparr>st_id = - 1, st_name = []\<rparr>]"] by simp

text \<open>Reading a menu choice or a number from standard input.\<close>

lemma validate_number:
  assumes "rest = [] \<or> \<not> is_digit (hd rest)"
  shows "validate_input (print_d (sint i) @ rest) = (Some i, rest)"
    and "validate_input (10 # print_d (sint i) @ rest) = (Some i, rest)"
  using scan_print_d[OF assms, of "sint i"] by (simp_all add: validate_input_def scan_d_skip)

lemma digit_prints: "print_d (sint (1 :: 32 word)) = [49]" "print_d (sint (2 :: 32 word)) = [50]"
  "print_d (sint (4 :: 32 word)) = [52]"
  by (simp_all add: print_d_def dec_digits.simps)

lemmas validate_digit = validate_number[of _ 1, unfolded digit_prints] validate_number[of _ 2, unfolded digit_prints]
  validate_number[of _ 4, unfolded digit_prints]





text \<open>At the end of standard input the menu program of 23 never ends: every turn reports an
  invalid number and goes round again, whatever number of turns is run, because the result of
  \<open>scanf\<close> is not told apart from a line that is not a number.\<close>

theorem menu_eof_never_ends:
  assumes "\<forall>b \<in> set (m_in m). is_space b"
  shows "\<exists>m'. menu_turns room ulong K n m = Goes_on m' \<and> m_list m' = m_list m \<and>
     m_out m' = m_out m @ replicate n (bytes_of ''Invalid input! Please enter a number.'')"
  using assms
proof (induction n arbitrary: m)
  case (Suc n)
  let ?m = "say ''Invalid input! Please enter a number.'' (m\<lparr>m_in := []\<rparr>)"
  have dw: "dropWhile is_space (m_in m) = []" using Suc.prems by (simp add: dropWhile_eq_Nil_conv)
  have "validate_input (m_in m) = (None, [])"
    unfolding validate_input_def scan_d_def dw by (simp add: flush_input_def)
  then have "menu_turn room ulong K m = Goes_on ?m" by (simp add: menu_turn_def)
  with Suc.IH[of ?m] show ?case by (auto simp: say_def)
qed simp

theorem menu_eof_never_ends_witness:
  "\<exists>m'. menu_turns True ucast uapi_plain 1000 \<lparr>m_in = [10], m_name = [], m_off = 0, m_list = [], m_out = []\<rparr> = Goes_on m'"
  using menu_eof_never_ends[of "\<lparr>m_in = [10], m_name = [], m_off = 0, m_list = [], m_out = []\<rparr>"
      True ucast uapi_plain 1000] by auto

text \<open>The driver of 23 stores its whole listing whatever length \<open>read\<close> was given: once the
  lines reach 128 characters, choosing 2 in the menu program overruns or overreads its buffer.\<close>

theorem menu_show_overruns:
  assumes "\<forall>s \<in> set (m_list m). good_student s" and "uapi_nofault K" and "m_off m = 0"
    and "128 \<le> length (concat (map line_of (m_list m)))" and "m_in m = 50 # 10 # rest"
  shows "menu_turn room ulong K m = Overruns"
proof -
  let ?t = "take 511 (concat (map line_of (m_list m)))"
  have "128 \<le> length ?t" using assms(4) by simp
  moreover have "0 \<notin> set ?t" using lines_nonzero by (auto dest: in_set_takeD)
  ultimately have "c_store (replicate 128 0) 0 ?t = None \<or>
      (\<exists>b. c_store (replicate 128 0) 0 ?t = Some b \<and> c_string b = None)"
    using full_buffer[of 128 ?t] by (cases "c_store (replicate 128 0) 0 ?t") auto
  then have "menu_show K (m\<lparr>m_in := 10 # rest\<rparr>) = Overruns"
    using read_list_nofault[OF assms(1,2), of 128] assms(3) by (auto simp: menu_show_def)
  then show ?thesis using validate_digit(3)[of "10 # rest"] assms(5) by (simp add: menu_turn_def)
qed

theorem menu_show_overruns_witness:
  "menu_turn True ucast uapi_plain \<lparr>m_in = [50, 10], m_name = [], m_off = 0,
     m_list = replicate 12 \<lparr>st_id = 7, st_name = replicate 32 0\<rparr>, m_out = []\<rparr> = Overruns"
proof -
  define m where "m = \<lparr>m_in = [50, 10 :: byte], m_name = [] :: byte list, m_off = 0 :: int,
     m_list = replicate 12 \<lparr>st_id = 7, st_name = replicate 32 0\<rparr>, m_out = [] :: byte list list\<rparr>"
  have "\<forall>s \<in> set (m_list m). good_student s" "m_off m = 0" "m_in m = 50 # 10 # []"
    by (auto simp: m_def good_student_def nul_buf_replicate)
  moreover have "128 \<le> length (concat (map line_of (m_list m)))"
    by (simp add: m_def line_of_def bytes_of_def print_d_def dec_digits.simps length_concat sum_list_replicate
        text_of_def takeWhile_replicate)
  ultimately have "menu_turn True ucast uapi_plain m = Overruns"
    by (intro menu_show_overruns uapi_plain_nofault)
  then show ?thesis by (simp add: m_def)
qed

section \<open>Facts on the shared page and the attributes\<close>

lemma hex_digit_nonzero: "(of_nat (if d mod 16 < 10 then 48 + d mod 16 else 87 + d mod 16) :: byte) \<noteq> 0"
proof -
  have "d mod 16 < 16" by simp
  then have "0 < n \<and> n < 256" if "n = (if d mod 16 < 10 then 48 + d mod 16 else 87 + d mod 16)" for n :: nat
    using that by (simp split: if_splits)
  then show ?thesis unfolding word_of_nat_eq_0_iff by (auto dest!: dvd_imp_le simp del: of_nat_add)
qed

lemma hex16_nonzero: "0 \<notin> set (hex16 w)"
proof
  assume "0 \<in> set (hex16 w)"
  then obtain k where "0 = (of_nat (if unat (drop_bit (4 * (15 - k)) w) mod 16 < 10
      then 48 + unat (drop_bit (4 * (15 - k)) w) mod 16
      else 87 + unat (drop_bit (4 * (15 - k)) w) mod 16) :: byte)"
    unfolding hex16_def Let_def set_map by blast
  with hex_digit_nonzero[of "unat (drop_bit (4 * (15 - k)) w)"] show False by metis
qed

lemma mmap_banner_text: "0 \<notin> set (mmap_banner v p)" "length (mmap_banner v p) = 102"
proof -
  show "0 \<notin> set (mmap_banner v p)" using hex16_nonzero by (simp add: mmap_banner_def bytes_of_def)
  show "length (mmap_banner v p) = 102" by (simp add: mmap_banner_def bytes_of_def hex16_def)
qed

text \<open>C38. The page of 22 is shared without copying: the user program finds the driver's text,
  replaces it, and its text is what the page then holds. But \<open>my_mmap\<close> writes the page before
  it looks at the request: a later request that is refused, for a mapping that is too long or
  at an offset, still puts the driver's text back over what the user wrote.\<close>

theorem mmap_share_then_refused:
  assumes "length page = PAGE_SIZE" and "0 \<notin> set ptr" and "length ptr < 100"
    and "of_nat PAGE_SIZE < e - b \<or> off \<noteq> 0"
  shows "\<exists>page1 page2.
    main_mmap 3 ptr (my_mmap virt phys 0 b0 (b0 + of_nat PAGE_SIZE) 0) page =
      Some (0, [mmap_banner virt phys,
                bytes_of ''Hello from Userspace and address is 0x'' @ ptr @ [10]], page1) \<and>
    c_string page1 = Some (bytes_of ''Hello from Userspace and address is 0x'' @ ptr @ [10]) \<and>
    my_mmap virt phys remap b e off page1 = Some (- EINVAL, page2) \<and>
    c_string page2 = Some (mmap_banner virt phys)"
proof -
  let ?u = "bytes_of ''Hello from Userspace and address is 0x'' @ ptr @ [10]"
  obtain p0 where p0: "c_store page 0 (mmap_banner virt phys @ [0]) = Some p0" "length p0 = length page"
      "c_string p0 = Some (mmap_banner virt phys)"
    using store_text[of "mmap_banner virt phys" page] mmap_banner_text assms(1) by auto
  have u: "0 \<notin> set ?u" "length ?u < length p0" using assms(1-3) p0(2) by (auto simp: bytes_of_def)
  obtain p1 where p1: "c_store p0 0 (?u @ [0]) = Some p1" "length p1 = length p0" "c_string p1 = Some ?u"
    using store_text[OF u(2,1)] .
  obtain p2 where p2: "c_store p1 0 (mmap_banner virt phys @ [0]) = Some p2"
      "c_string p2 = Some (mmap_banner virt phys)"
    by (rule store_text[of "mmap_banner virt phys" p1]) (use mmap_banner_text p0(2) p1(2) assms(1) in auto)
  have "my_mmap virt phys 0 b0 (b0 + of_nat PAGE_SIZE) 0 page = Some (0, p0)"
    by (simp add: my_mmap_def p0(1))
  moreover have "my_mmap virt phys remap b e off p1 = Some (- EINVAL, p2)"
    using assms(4) by (auto simp: my_mmap_def p2(1))
  ultimately show ?thesis using p0(3) p1 p2(2) by (simp add: main_mmap_def)
qed

theorem mmap_share_then_refused_witness:
  "\<exists>page1 page2. my_mmap 1 2 0 0 8192 0 page1 = Some (- EINVAL, page2) \<and> c_string page2 = Some (mmap_banner 1 2)"
  using mmap_share_then_refused[of "replicate 4096 0" "bytes_of ''ffff''" 8192 0 0 1 2 0 0]
  by (auto simp: bytes_of_def)

text \<open>The attributes of 24 read back what was stored: a value printed by \<open>value_show\<close> and
  written back is the value, for every 32-bit integer; a word stored in \<open>name\<close> is shown again,
  cut to 31 characters, inside the 32 bytes of the variable; white space alone changes nothing
  though the store reports success.\<close>

theorem sysfs_roundtrip:
  assumes "nul_buf 32 (sv_name v)" and "w \<noteq> []" and "\<forall>b \<in> set w. \<not> is_space b" and "0 \<notin> set w"
    and "\<forall>b \<in> set sp. is_space b"
  shows "value_store (value_show x @ [0]) n v = (int n, v\<lparr>sv_value := sv_value x\<rparr>) \<and>
    (\<exists>v'. name_store (w @ [10, 0]) n v = Some (int n, v') \<and> nul_buf 32 (sv_name v') \<and>
       sv_value v' = sv_value v \<and> name_show v' = Some (take 31 w @ [10])) \<and>
    value_store (sp @ [0]) n v = (int n, v) \<and> name_store (sp @ [0]) n v = Some (int n, v)"
proof -
  have "takeWhile (\<lambda>b. b \<noteq> 0) (value_show x @ [0]) = value_show x"
    using print_d_nonzero[of "sint (sv_value x)"]
    by (intro takeWhile_nz_stop) (auto simp: value_show_def)
  moreover have "scan_d (value_show x) = Some (sint (sv_value x), [10])"
    unfolding value_show_def by (rule scan_print_d) simp
  ultimately have 1: "value_store (value_show x @ [0]) n v = (int n, v\<lparr>sv_value := sv_value x\<rparr>)"
    by (simp add: value_store_def)
  have tw: "takeWhile (\<lambda>b. b \<noteq> 0) (w @ [10, 0]) = w @ [10]" using assms(4) by (induction w) auto
  have sw: "scan_s 31 (w @ [10]) = Some (take 31 w, drop 31 w @ [10])"
    by (rule scan_s_word[OF assms(2,3)]) simp
  have nz: "0 \<notin> set (take 31 w)" using assms(4) by (auto dest: in_set_takeD)
  obtain name where name: "c_store (sv_name v) 0 (take 31 w @ [0]) = Some name" "length name = 32"
      "c_string name = Some (take 31 w)"
    by (rule store_text[of "take 31 w" "sv_name v"]) (use nz assms(1) in \<open>auto simp: nul_buf_def\<close>)
  have "nul_buf 32 name"
  proof -
    have "name = (take 31 w @ [0]) @ drop (length (take 31 w) + 1) (sv_name v)"
      using name(1) by (simp add: c_store_def split: if_splits)
    then have "name ! 31 = 0"
      using assms(1) name(2) by (auto simp: nul_buf_def nth_append nth_Cons' min_def split: if_splits)
    with name(2) show ?thesis by (simp add: nul_buf_def)
  qed
  then have 2: "\<exists>v'. name_store (w @ [10, 0]) n v = Some (int n, v') \<and> nul_buf 32 (sv_name v') \<and>
       sv_value v' = sv_value v \<and> name_show v' = Some (take 31 w @ [10])"
    using name by (simp add: name_store_def tw sw name_show_def)
  have "is_space 0 = False" by (simp add: is_space_def)
  then have "takeWhile (\<lambda>b. b \<noteq> 0) (sp @ [0]) = sp" and "dropWhile is_space sp = []"
    using assms(5) by (auto simp: takeWhile_nz_append_zero takeWhile_eq_all_conv dropWhile_eq_Nil_conv)
  then have "scan_d sp = None" "scan_s 31 sp = None" by (simp_all only: scan_d_def scan_s_def Let_def) simp_all
  with \<open>takeWhile (\<lambda>b. b \<noteq> 0) (sp @ [0]) = sp\<close> have
    3: "value_store (sp @ [0]) n v = (int n, v)" "name_store (sp @ [0]) n v = Some (int n, v)"
    by (simp_all add: value_store_def name_store_def)
  from 1 2 3 show ?thesis by blast
qed

theorem sysfs_roundtrip_witness:
  "\<exists>v'. name_store (bytes_of ''DK'' @ [10, 0]) 3 sysfs_vars_start = Some (3, v') \<and>
     name_show v' = Some (bytes_of ''DK'' @ [10])"
proof -
  have "nul_buf 32 (sv_name sysfs_vars_start)" by (simp add: sysfs_vars_start_def nul_buf_def bytes_of_def)
  moreover have "bytes_of ''DK'' \<noteq> []" "\<forall>b \<in> set (bytes_of ''DK''). \<not> is_space b" "0 \<notin> set (bytes_of ''DK'')"
    "take 31 (bytes_of ''DK'') = bytes_of ''DK''" by (simp_all add: bytes_of_def is_space_def)
  ultimately show ?thesis using sysfs_roundtrip[of sysfs_vars_start "bytes_of ''DK''" "[]" sysfs_vars_start 3] by auto
qed

end
