(* ===== verification/ListConcurrent.thy ===== *)
theory ListConcurrent
  imports DataDrivers
begin

text \<open>
  The list driver of 23 with any number of processes in it at once. A call is cut into its
  steps: what it does before \<open>list_lock\<close> is taken, one step for each node it visits under the
  lock, and what it does after the lock was given back. The specification is the sequential
  calls of \<open>DataDrivers\<close>.
\<close>

section \<open>Calls and steps\<close>

datatype list_call =
    L_write bool uapi "byte list" nat
  | L_read uapi nat int
  | L_ioctl "32 word" "64 word"

text \<open>What a call returns, the bytes that reached the user and the new \<open>*off\<close>.\<close>

type_synonym list_result = "int \<times> byte list \<times> int"

fun seq_call :: "list_call \<Rightarrow> student list \<Rightarrow> (list_result \<times> student list) option" where
  "seq_call (L_write room K u len) ss =
     map_option (\<lambda>(r, ss'). ((r, [], 0), ss')) (my_write_list room K u len ss)"
| "seq_call (L_read K len off) ss = map_option (\<lambda>res. (res, ss)) (my_read_list K len off ss)"
| "seq_call (L_ioctl cmd arg) ss = (case my_ioctl_list cmd arg ss of (r, ss') \<Rightarrow> Some ((r, [], 0), ss'))"

fun seq_run :: "list_call list \<Rightarrow> student list \<Rightarrow> (list_result list \<times> student list) option" where
  "seq_run [] ss = Some ([], ss)"
| "seq_run (c # cs) ss = do {
     (r, ss) \<leftarrow> seq_call c ss;
     (rs, ss) \<leftarrow> seq_run cs ss;
     Some (r # rs, ss)
   }"

text \<open>
  \<open>P_loop n\<close>: under the lock, at the node with index \<open>n\<close> (a write has no loop). \<open>t_node\<close> is
  the node a write allocated, under the number of its allocation; \<open>t_text\<close> is \<open>kbuf\<close> of a
  read, \<open>t_ret\<close> the value to return.
\<close>

datatype list_pc = P_enter | P_lock | P_loop nat | P_unlock | P_after | P_done list_result

record list_thread =
  t_call :: list_call
  t_pc :: list_pc
  t_node :: "nat \<times> student"
  t_text :: "byte list"
  t_ret :: int

text \<open>
  The shared state, and three things to state the properties with: the allocations freed,
  whether memory was used after it was freed, and the calls in the order in which they took
  effect, with the results they return.
\<close>

record list_sys =
  l_nodes :: "(nat \<times> student) list"
  l_lock :: "nat option"
  l_next :: nat
  l_freed :: "nat list"
  l_stray :: bool
  l_log :: "(nat \<times> list_result) list"
  l_threads :: "list_thread list"

text \<open>\<open>my_write\<close> up to the lock: the node to add, or nothing when the call is to return 0.\<close>

definition write_node :: "bool \<Rightarrow> uapi \<Rightarrow> byte list \<Rightarrow> nat \<Rightarrow> student option" where
  "write_node room K u len =
     (if LIST_BUF \<le> len then None
      else let (left, data) = copy_from_user K u len in
        if left \<noteq> 0 \<or> \<not> room then None
        else do {
          (i, rest) \<leftarrow> scan_d (takeWhile (\<lambda>b. b \<noteq> 0) data);
          (w, _) \<leftarrow> scan_s 31 rest;
          name \<leftarrow> c_store (replicate 32 0) 0 (w @ [0]);
          Some \<lparr>st_id = of_int i, st_name = name\<rparr> })"

text \<open>The result: \<open>my_read\<close> copies to the user after the lock was given back.\<close>

definition finish :: "list_thread \<Rightarrow> list_result" where
  "finish t = (case t_call t of
      L_read K len off \<Rightarrow>
        let (left, out) = copy_to_user K (t_text t) in
        if left \<noteq> 0 then (- EFAULT, out, off)
        else (int (length (t_text t)), out, off + int (length (t_text t)))
    | _ \<Rightarrow> (t_ret t, [], 0))"

text \<open>The call takes effect with this step.\<close>

definition commit :: "nat \<Rightarrow> list_result \<Rightarrow> list_sys \<Rightarrow> list_sys" where
  "commit i r s = s\<lparr>l_log := l_log s @ [(i, r)]\<rparr>"

definition return_early :: "nat \<Rightarrow> list_result \<Rightarrow> list_thread \<Rightarrow> list_sys \<Rightarrow> list_thread \<times> list_sys" where
  "return_early i r t s = (t\<lparr>t_pc := P_done r\<rparr>, commit i r s)"

definition enter_step :: "nat \<Rightarrow> list_thread \<Rightarrow> list_sys \<Rightarrow> list_thread \<times> list_sys" where
  "enter_step i t s = (case t_call t of
      L_write room K u len \<Rightarrow>
        (case write_node room K u len of
           None \<Rightarrow> return_early i (0, [], 0) t s
         | Some st \<Rightarrow> (t\<lparr>t_pc := P_lock, t_node := (l_next s, st), t_ret := int len\<rparr>,
                       s\<lparr>l_next := l_next s + 1\<rparr>))
    | L_read K len off \<Rightarrow>
        if off \<noteq> 0 then return_early i (0, [], off) t s else (t\<lparr>t_pc := P_lock, t_text := []\<rparr>, s)
    | L_ioctl cmd arg \<Rightarrow>
        if cmd = DELETE_NODE then (t\<lparr>t_pc := P_lock\<rparr>, s) else return_early i (2, [], 0) t s)"

definition leave_loop :: "nat \<Rightarrow> list_thread \<Rightarrow> list_sys \<Rightarrow> list_thread \<times> list_sys" where
  "leave_loop i t s = (t\<lparr>t_pc := P_unlock\<rparr>, commit i (finish t) s)"

definition loop_step :: "nat \<Rightarrow> nat \<Rightarrow> list_thread \<Rightarrow> list_sys \<Rightarrow> list_thread \<times> list_sys" where
  "loop_step i k t s = (case t_call t of
      L_write room K u len \<Rightarrow> leave_loop i t (s\<lparr>l_nodes := l_nodes s @ [t_node t]\<rparr>)
    | L_read K len off \<Rightarrow>
        if length (l_nodes s) \<le> k then leave_loop i t s
        else (case list_line (snd (l_nodes s ! k)) of
            None \<Rightarrow> (t, s\<lparr>l_stray := True\<rparr>)
          | Some l \<Rightarrow>
              let text = t_text t @ scn_text (LIST_OUT - length (t_text t)) l in
              if LIST_OUT \<le> length text then leave_loop i (t\<lparr>t_text := text\<rparr>) s
              else (t\<lparr>t_text := text, t_pc := P_loop (k + 1)\<rparr>, s))
    | L_ioctl cmd arg \<Rightarrow>
        if length (l_nodes s) \<le> k then leave_loop i (t\<lparr>t_ret := 1\<rparr>) s
        else if scast (st_id (snd (l_nodes s ! k))) = arg
        then leave_loop i (t\<lparr>t_ret := 0\<rparr>)
               (s\<lparr>l_nodes := take k (l_nodes s) @ drop (k + 1) (l_nodes s),
                  l_freed := fst (l_nodes s ! k) # l_freed s\<rparr>)
        else (t\<lparr>t_pc := P_loop (k + 1)\<rparr>, s))"

text \<open>After the lock \<open>my_write\<close> prints the node.\<close>

definition after_step :: "list_thread \<Rightarrow> list_sys \<Rightarrow> list_thread \<times> list_sys" where
  "after_step t s = (t\<lparr>t_pc := P_done (finish t)\<rparr>, (case t_call t of
      L_write room K u len \<Rightarrow> s\<lparr>l_stray := (l_stray s \<or> fst (t_node t) \<in> set (l_freed s))\<rparr>
    | _ \<Rightarrow> s))"

definition thread_step :: "nat \<Rightarrow> list_thread \<Rightarrow> list_sys \<Rightarrow> list_thread \<times> list_sys" where
  "thread_step i t s = (case t_pc t of
      P_enter \<Rightarrow> enter_step i t s
    | P_lock \<Rightarrow> if l_lock s = None then (t\<lparr>t_pc := P_loop 0\<rparr>, s\<lparr>l_lock := Some i\<rparr>) else (t, s)
    | P_loop k \<Rightarrow> loop_step i k t s
    | P_unlock \<Rightarrow> (t\<lparr>t_pc := P_after\<rparr>, s\<lparr>l_lock := None\<rparr>)
    | P_after \<Rightarrow> after_step t s
    | P_done r \<Rightarrow> (t, s))"

text \<open>A schedule: the processes in the order in which they take steps.\<close>

definition list_step :: "nat \<Rightarrow> list_sys \<Rightarrow> list_sys" where
  "list_step i s =
     (if i < length (l_threads s)
      then (case thread_step i (l_threads s ! i) s of (t, s') \<Rightarrow> s'\<lparr>l_threads := (l_threads s)[i := t]\<rparr>)
      else s)"

definition list_run :: "nat list \<Rightarrow> list_sys \<Rightarrow> list_sys" where
  "list_run = fold list_step"

definition list_start :: "list_call list \<Rightarrow> student list \<Rightarrow> list_sys" where
  "list_start cs ss = \<lparr>l_nodes = zip [0..<length ss] ss, l_lock = None, l_next = length ss, l_freed = [],
     l_stray = False, l_log = [],
     l_threads = map (\<lambda>c. \<lparr>t_call = c, t_pc = P_enter, t_node = (0, \<lparr>st_id = 0, st_name = []\<rparr>),
       t_text = [], t_ret = 0\<rparr>) cs\<rparr>"

section \<open>The invariant\<close>

lemma write_list_node: "my_write_list room K u len ss =
    Some (case write_node room K u len of None \<Rightarrow> (0, ss) | Some st \<Rightarrow> (int len, ss @ [st]))"
  by (auto simp: my_write_list_def write_node_def Let_def c_store_def dest: scan_s_length
    split: prod.splits option.splits if_splits bind_splits)

lemma write_node_good: "uapi_ok K \<Longrightarrow> write_node room K u len = Some st \<Longrightarrow> good_student st"
  using write_list_good[of K "[]" room u len] by (auto simp: write_list_node)

lemma seq_run_snoc:
  assumes "seq_run cs ss = Some (rs, ss1)" and "seq_call c ss1 = Some (r, ss2)"
  shows "seq_run (cs @ [c]) ss = Some (rs @ [r], ss2)"
  using assms(1)
proof (induction cs arbitrary: ss rs)
  case (Cons d cs)
  then show ?case by (fastforce split: bind_splits prod.splits)
qed (use assms(2) in auto)

text \<open>
  What a call that waits for the lock has found out, and what a call in its loop knows: the
  rest of the loop yields what the whole loop does on the list as it is.
\<close>

fun wants_lock :: "list_call \<Rightarrow> list_thread \<Rightarrow> bool" where
  "wants_lock (L_write room K u len) t \<longleftrightarrow> write_node room K u len = Some (snd (t_node t)) \<and> t_ret t = int len"
| "wants_lock (L_read K len off) t \<longleftrightarrow> off = 0 \<and> t_text t = []"
| "wants_lock (L_ioctl cmd arg) t \<longleftrightarrow> cmd = DELETE_NODE"

fun in_loop :: "list_call \<Rightarrow> nat \<Rightarrow> list_thread \<Rightarrow> student list \<Rightarrow> bool" where
  "in_loop (L_write room K u len) k t ss \<longleftrightarrow>
     write_node room K u len = Some (snd (t_node t)) \<and> t_ret t = int len"
| "in_loop (L_read K len off) k t ss \<longleftrightarrow> off = 0 \<and> length (t_text t) < LIST_OUT \<and>
     list_text_loop ss [] = list_text_loop (drop k ss) (t_text t)"
| "in_loop (L_ioctl cmd arg) k t ss \<longleftrightarrow> cmd = DELETE_NODE \<and>
     list_del_loop arg ss = map_option ((@) (take k ss)) (list_del_loop arg (drop k ss))"

lemma loop_begins: "wants_lock c t \<Longrightarrow> in_loop c 0 (t\<lparr>t_pc := pc\<rparr>) ss"
  by (cases c; cases "list_del_loop (case c of L_ioctl cmd arg \<Rightarrow> arg | _ \<Rightarrow> 0) ss") auto

definition students :: "list_sys \<Rightarrow> student list" where
  "students s = map snd (l_nodes s)"

definition logged :: "list_sys \<Rightarrow> nat set" where
  "logged s = fst ` set (l_log s)"

definition thread_ok :: "nat \<Rightarrow> list_thread \<Rightarrow> list_sys \<Rightarrow> bool" where
  "thread_ok i t s = (case t_pc t of
      P_enter \<Rightarrow> i \<notin> logged s \<and> l_lock s \<noteq> Some i
    | P_lock \<Rightarrow> i \<notin> logged s \<and> l_lock s \<noteq> Some i \<and> wants_lock (t_call t) t
    | P_loop k \<Rightarrow> i \<notin> logged s \<and> l_lock s = Some i \<and> in_loop (t_call t) k t (students s)
    | P_unlock \<Rightarrow> l_lock s = Some i \<and> (i, finish t) \<in> set (l_log s)
    | P_after \<Rightarrow> l_lock s \<noteq> Some i \<and> (i, finish t) \<in> set (l_log s)
    | P_done r \<Rightarrow> l_lock s \<noteq> Some i \<and> (i, r) \<in> set (l_log s))"

text \<open>What a step of process \<open>i\<close> may change for the others.\<close>

definition step_frame :: "nat \<Rightarrow> list_sys \<Rightarrow> list_sys \<Rightarrow> bool" where
  "step_frame i s s' \<longleftrightarrow> (l_lock s = Some i \<or> l_nodes s' = l_nodes s) \<and>
     (\<exists>ex. l_log s' = l_log s @ ex \<and> fst ` set ex \<subseteq> {i}) \<and>
     (l_lock s' = l_lock s \<or> (l_lock s = None \<and> l_lock s' = Some i) \<or> (l_lock s = Some i \<and> l_lock s' = None))"

lemma other_threads:
  "step_frame i s s' \<Longrightarrow> j \<noteq> i \<Longrightarrow> thread_ok j t s \<Longrightarrow> thread_ok j t s'"
proof -
  assume f: "step_frame i s s'" "j \<noteq> i" and t: "thread_ok j t s"
  obtain ex where ex: "l_log s' = l_log s @ ex" "fst ` set ex \<subseteq> {i}" using f(1) by (auto simp: step_frame_def)
  then have "j \<in> logged s' \<longleftrightarrow> j \<in> logged s" using f(2) by (auto simp: logged_def image_Un)
  moreover have "l_lock s' = Some j \<longleftrightarrow> l_lock s = Some j" using f by (auto simp: step_frame_def)
  moreover have "l_lock s = Some j \<Longrightarrow> students s' = students s" using f by (auto simp: step_frame_def students_def)
  ultimately show ?thesis using t ex(1) by (cases "t_pc t") (auto simp: thread_ok_def)
qed

text \<open>The calls that took effect, made one after another, give these results and this list.\<close>

definition explained :: "list_call list \<Rightarrow> student list \<Rightarrow> list_sys \<Rightarrow> bool" where
  "explained cs ss s \<longleftrightarrow>
     seq_run (map (\<lambda>(i, r). cs ! i) (l_log s)) ss = Some (map snd (l_log s), students s) \<and>
     distinct (map fst (l_log s)) \<and> logged s \<subseteq> {..<length cs} \<and> (\<forall>st \<in> set (students s). good_student st)"

lemma explained_frame:
  "explained cs ss s \<Longrightarrow> l_log s' = l_log s \<Longrightarrow> l_nodes s' = l_nodes s \<Longrightarrow> explained cs ss s'"
  by (simp add: explained_def students_def logged_def)

lemma explained_commit:
  assumes "explained cs ss s" and "i \<notin> logged s" and "i < length cs"
    and "seq_call (cs ! i) (students s) = Some (r, students s')" and "l_log s' = l_log s @ [(i, r)]"
    and "\<forall>st \<in> set (students s'). good_student st"
  shows "explained cs ss s'"
  using assms seq_run_snoc[of "map (\<lambda>(i, r). cs ! i) (l_log s)" ss "map snd (l_log s)" "students s" "cs ! i" r "students s'"]
  by (auto simp: explained_def logged_def)

section \<open>Every step keeps the invariant\<close>

fun user_ok :: "list_call \<Rightarrow> bool" where
  "user_ok (L_write room K u len) = uapi_ok K"
| "user_ok c = True"

text \<open>What a step of process \<open>i\<close> from \<open>(t, s)\<close> to \<open>(t', s')\<close> has to achieve.\<close>

definition kept ::
    "list_call list \<Rightarrow> student list \<Rightarrow> nat \<Rightarrow> list_thread \<Rightarrow> list_sys \<Rightarrow> list_thread \<times> list_sys \<Rightarrow> bool" where
  "kept cs ss i t s ts' \<longleftrightarrow> (case ts' of (t', s') \<Rightarrow> thread_ok i t' s' \<and> explained cs ss s' \<and> step_frame i s s' \<and>
     t_call t' = t_call t \<and> l_threads s' = l_threads s \<and> (l_stray s' \<longrightarrow> l_stray s \<or> l_freed s \<noteq> []) \<and>
     (l_freed s' \<noteq> [] \<longrightarrow> l_freed s \<noteq> [] \<or> (\<exists>arg. t_call t = L_ioctl DELETE_NODE arg)))"

lemma finish_pc [simp]: "finish (t\<lparr>t_pc := pc\<rparr>) = finish t"
  by (cases "t_call t") (simp_all add: finish_def split: prod.splits)

lemma step_frame_refl [simp]: "step_frame i s s"
  by (simp add: step_frame_def)

lemma kept_early:
  assumes "explained cs ss s" and "i \<notin> logged s" and "i < length cs" and "l_lock s \<noteq> Some i"
    and "seq_call (cs ! i) (students s) = Some (r, students s)"
  shows "kept cs ss i t s (return_early i r t s)"
proof -
  have "students (commit i r s) = students s" by (simp add: students_def commit_def)
  moreover have "explained cs ss (commit i r s)"
    using assms(1) by (intro explained_commit[OF assms(1-3), of r])
      (use assms(5) calculation in \<open>auto simp: commit_def explained_def\<close>)
  ultimately show ?thesis
    using assms(4) by (auto simp: kept_def return_early_def thread_ok_def step_frame_def commit_def)
qed

lemma kept_leave:
  assumes "explained cs ss s" and "i \<notin> logged s" and "i < length cs" and "l_lock s = Some i"
    and "seq_call (cs ! i) (students s) = Some (finish t1, students s1)"
    and "l_log s1 = l_log s" and "l_lock s1 = l_lock s" and "l_threads s1 = l_threads s" and "l_stray s1 = l_stray s"
    and "l_freed s1 = l_freed s \<or> (\<exists>arg. t_call t = L_ioctl DELETE_NODE arg)" and "t_call t1 = t_call t"
    and "\<forall>st \<in> set (students s1). good_student st"
  shows "kept cs ss i t s (leave_loop i t1 s1)"
proof -
  have "students (commit i (finish t1) s1) = students s1" by (simp add: students_def commit_def)
  then have "explained cs ss (commit i (finish t1) s1)"
    using assms(5,6,12) by (intro explained_commit[OF assms(1-3), of "finish t1"]) (simp_all add: commit_def)
  then show ?thesis
    using assms by (auto simp: kept_def leave_loop_def thread_ok_def step_frame_def commit_def)
qed

lemma kept_local:
  assumes "explained cs ss s" and "thread_ok i t' s'" and "t_call t' = t_call t"
    and "l_log s' = l_log s" "l_nodes s' = l_nodes s" "l_threads s' = l_threads s" "l_freed s' = l_freed s"
    and "l_stray s' \<longrightarrow> l_stray s \<or> l_freed s \<noteq> []"
    and "l_lock s' = l_lock s \<or> (l_lock s = None \<and> l_lock s' = Some i) \<or> (l_lock s = Some i \<and> l_lock s' = None)"
  shows "kept cs ss i t s (t', s')"
  using assms explained_frame[OF assms(1,4,5)] by (auto simp: kept_def step_frame_def)

lemma list_del_loop_at:
  "k < length ss \<Longrightarrow> scast (st_id (ss ! k)) = arg \<Longrightarrow> list_del_loop arg (drop k ss) = Some (drop (k + 1) ss)"
  by (simp add: Cons_nth_drop_Suc[symmetric])

lemma list_del_loop_next:
  assumes "k < length ss" and "scast (st_id (ss ! k)) \<noteq> arg"
    and "list_del_loop arg ss = map_option ((@) (take k ss)) (list_del_loop arg (drop k ss))"
  shows "list_del_loop arg ss = map_option ((@) (take (k + 1) ss)) (list_del_loop arg (drop (k + 1) ss))"
proof -
  have "list_del_loop arg (drop k ss) = map_option ((#) (ss ! k)) (list_del_loop arg (drop (k + 1) ss))"
    using assms(1,2) by (simp add: Cons_nth_drop_Suc[symmetric])
  then show ?thesis
    using assms(1,3) by (cases "list_del_loop arg (drop (k + 1) ss)") (simp_all add: take_Suc_conv_app_nth)
qed

lemma kept_enter:
  assumes "explained cs ss s" and "thread_ok i t s" and "t_pc t = P_enter" and "i < length cs" and "t_call t = cs ! i"
  shows "kept cs ss i t s (enter_step i t s)"
proof -
  have e: "i \<notin> logged s" "l_lock s \<noteq> Some i" using assms(2,3) by (simp_all add: thread_ok_def)
  note early = kept_early[OF assms(1) e(1) assms(4) e(2)]
  show ?thesis
  proof (cases "cs ! i")
    case (L_write room K u len)
    show ?thesis
    proof (cases "write_node room K u len")
      case None
      then show ?thesis using early[of "(0, [], 0)" t] assms(5) L_write by (simp add: enter_step_def write_list_node)
    next
      case (Some st)
      then show ?thesis using e assms(5) L_write
        by (simp add: enter_step_def kept_local[OF assms(1)] thread_ok_def logged_def)
    qed
  next
    case (L_read K len off)
    then show ?thesis using e assms(5) early[of "(0, [], off)" t]
      by (simp add: enter_step_def kept_local[OF assms(1)] thread_ok_def logged_def my_read_list_def)
  next
    case (L_ioctl cmd arg)
    then show ?thesis using e assms(5) early[of "(2, [], 0)" t]
      by (simp add: enter_step_def kept_local[OF assms(1)] thread_ok_def logged_def my_ioctl_list_def)
  qed
qed

lemma finish_read: "t_call t = L_read K len 0 \<Longrightarrow> list_text_loop ss [] = Some (t_text t) \<Longrightarrow>
    my_read_list K len 0 ss = Some (finish t)"
  by (simp add: my_read_list_def finish_def Let_def split: prod.splits)

text \<open>What is known in the loop.\<close>

lemma in_loopD:
  assumes "explained cs ss s" and "thread_ok i t s" and "t_pc t = P_loop k" and "t_call t = cs ! i"
  shows "i \<notin> logged s" and "l_lock s = Some i" and "in_loop (t_call t) k t (students s)"
    and "\<forall>st \<in> set (students s). good_student st" and "length (students s) = length (l_nodes s)"
    and "k < length (l_nodes s) \<Longrightarrow> snd (l_nodes s ! k) = students s ! k"
  using assms by (simp_all add: thread_ok_def explained_def students_def)

lemma kept_loop_write:
  assumes "explained cs ss s" and "thread_ok i t s" and "t_pc t = P_loop k" and "i < length cs" and "t_call t = cs ! i"
    and "t_call t = L_write room K u len" and "uapi_ok K"
  shows "kept cs ss i t s (loop_step i k t s)"
proof -
  note e = in_loopD[OF assms(1,2,3,5)]
  let ?s = "s\<lparr>l_nodes := l_nodes s @ [t_node t]\<rparr>"
  have w: "write_node room K u len = Some (snd (t_node t))" "t_ret t = int len" using e(3) assms(6) by auto
  have f: "finish t = (int len, [], 0)" using assms(6) w(2) by (simp add: finish_def)
  have st: "students ?s = students s @ [snd (t_node t)]" by (simp add: students_def)
  have "seq_call (t_call t) (students s) = Some (finish t, students ?s)"
    unfolding st f assms(6) by (simp add: write_list_node w(1))
  then have "kept cs ss i t s (leave_loop i t ?s)"
    using kept_leave[OF assms(1) e(1) assms(4) e(2), of t ?s t] e(4) write_node_good[OF assms(7) w(1)] st assms(5)
    by simp
  then show ?thesis using assms(6) by (simp add: loop_step_def)
qed

lemma kept_loop_read:
  assumes "explained cs ss s" and "thread_ok i t s" and "t_pc t = P_loop k" and "i < length cs" and "t_call t = cs ! i"
    and "t_call t = L_read K rlen off"
  shows "kept cs ss i t s (loop_step i k t s)"
proof -
  note e = in_loopD[OF assms(1,2,3,5)]
  have c: "t_call t = L_read K rlen 0" "off = 0" "length (t_text t) < LIST_OUT"
      "list_text_loop (students s) [] = list_text_loop (drop k (students s)) (t_text t)"
    using e(3) assms(6) by auto
  have done': "kept cs ss i t s (leave_loop i t1 s)"
    if "t_call t1 = t_call t" "list_text_loop (students s) [] = Some (t_text t1)" for t1
  proof -
    have "seq_call (cs ! i) (students s) = Some (finish t1, students s)"
      using that(1) finish_read[of t1 K rlen "students s"] that(2) c(1) assms(5)[symmetric] by simp
    then show ?thesis using kept_leave[OF assms(1) e(1) assms(4) e(2), of t1 s t] e(4) that(1) by simp
  qed
  show ?thesis
  proof (cases "k < length (l_nodes s)")
    case True
    let ?st = "students s ! k"
    let ?text = "t_text t @ scn_text (LIST_OUT - length (t_text t)) (line_of ?st)"
    have l: "list_line ?st = Some (line_of ?st)" using e(4,5) True list_line_good by (metis nth_mem)
    have d: "drop k (students s) = ?st # drop (k + 1) (students s)"
      using True e(5) by (simp add: Cons_nth_drop_Suc)
    have r: "list_text_loop (students s) [] =
        (if LIST_OUT \<le> length ?text then Some ?text else list_text_loop (drop (k + 1) (students s)) ?text)"
      unfolding c(4) d by (simp add: l Let_def del: drop_Suc)
    have step: "loop_step i k t s = (if LIST_OUT \<le> length ?text then leave_loop i (t\<lparr>t_text := ?text\<rparr>) s
        else (t\<lparr>t_text := ?text, t_pc := P_loop (k + 1)\<rparr>, s))"
      using True e(6) l c(1) by (simp add: loop_step_def Let_def)
    show ?thesis
    proof (cases "LIST_OUT \<le> length ?text")
      case full: True
      with r done'[of "t\<lparr>t_text := ?text\<rparr>"] show ?thesis unfolding step by simp
    next
      case False
      have "thread_ok i (t\<lparr>t_text := ?text, t_pc := P_loop (k + 1)\<rparr>) s"
        using False e(1,2) c(1) r by (simp add: thread_ok_def)
      with False show ?thesis unfolding step by (simp add: kept_local[OF assms(1)])
    qed
  next
    case False
    then have "list_text_loop (students s) [] = Some (t_text t)" using c(4) e(5) by simp
    then show ?thesis using False c(1) done'[of t] by (simp add: loop_step_def)
  qed
qed

lemma kept_loop_ioctl:
  assumes "explained cs ss s" and "thread_ok i t s" and "t_pc t = P_loop k" and "i < length cs" and "t_call t = cs ! i"
    and "t_call t = L_ioctl cmd arg"
  shows "kept cs ss i t s (loop_step i k t s)"
proof -
  note e = in_loopD[OF assms(1,2,3,5)]
  have c: "t_call t = L_ioctl DELETE_NODE arg"
      "list_del_loop arg (students s) = map_option ((@) (take k (students s))) (list_del_loop arg (drop k (students s)))"
    using e(3) assms(6) by auto
  have f: "finish (t\<lparr>t_ret := r\<rparr>) = (r, [], 0)" for r using c(1) by (simp add: finish_def)
  note leave = kept_leave[OF assms(1) e(1) assms(4) e(2)]
  show ?thesis
  proof (cases "k < length (l_nodes s)")
    case True
    note nth = e(6)[OF True]
    show ?thesis
    proof (cases "scast (st_id (students s ! k)) = arg")
      case hit: True
      let ?s = "s\<lparr>l_nodes := take k (l_nodes s) @ drop (k + 1) (l_nodes s), l_freed := fst (l_nodes s ! k) # l_freed s\<rparr>"
      have st: "students ?s = take k (students s) @ drop (k + 1) (students s)"
        by (simp add: students_def take_map drop_map)
      have "list_del_loop arg (students s) = Some (students ?s)"
        using c(2) list_del_loop_at[of k "students s" arg] True hit e(5) unfolding st by simp
      then have q: "seq_call (cs ! i) (students s) = Some (finish (t\<lparr>t_ret := 0\<rparr>), students ?s)"
        using c(1) assms(5)[symmetric] f[of 0] by (simp add: my_ioctl_list_def)
      have "\<forall>x \<in> set (students ?s). good_student x" using e(4) unfolding st by (auto dest: in_set_takeD in_set_dropD)
      with leave[of "t\<lparr>t_ret := 0\<rparr>" ?s t, OF q] c(1) have "kept cs ss i t s (leave_loop i (t\<lparr>t_ret := 0\<rparr>) ?s)" by simp
      then show ?thesis using True hit c(1) nth by (simp add: loop_step_def)
    next
      case False
      have "thread_ok i (t\<lparr>t_pc := P_loop (k + 1)\<rparr>) s"
        using e(1,2) c(1) list_del_loop_next[OF _ False c(2)] True e(5) by (simp add: thread_ok_def)
      then show ?thesis using True False c(1) nth by (simp add: loop_step_def kept_local[OF assms(1)])
    qed
  next
    case False
    then have "list_del_loop arg (students s) = None" using c(2) e(5) by simp
    then have q: "seq_call (cs ! i) (students s) = Some (finish (t\<lparr>t_ret := 1\<rparr>), students s)"
      using c(1) assms(5)[symmetric] f[of 1] by (simp add: my_ioctl_list_def)
    with leave[of "t\<lparr>t_ret := 1\<rparr>" s t, OF q] c(1) e(4) have "kept cs ss i t s (leave_loop i (t\<lparr>t_ret := 1\<rparr>) s)" by simp
    then show ?thesis using False c(1) by (simp add: loop_step_def)
  qed
qed

lemma kept_step:
  assumes "explained cs ss s" and "thread_ok i t s" and "i < length cs" and "t_call t = cs ! i" and "user_ok (cs ! i)"
  shows "kept cs ss i t s (thread_step i t s)"
proof (cases "t_pc t")
  case P_enter
  then show ?thesis using kept_enter[OF assms(1,2) _ assms(3,4)] by (simp add: thread_step_def)
next
  case P_lock
  then have "thread_ok i (t\<lparr>t_pc := P_loop 0\<rparr>) (s\<lparr>l_lock := Some i\<rparr>)"
    using assms(2) loop_begins[of "t_call t" t] by (simp add: thread_ok_def logged_def students_def)
  then show ?thesis
    using P_lock assms(2) by (simp add: thread_step_def kept_local[OF assms(1)])
next
  case (P_loop k)
  show ?thesis
  proof (cases "t_call t")
    case (L_write room K u len)
    then have "uapi_ok K" using assms(4,5) by (metis user_ok.simps(1))
    from kept_loop_write[OF assms(1,2) P_loop assms(3,4) L_write this] P_loop show ?thesis
      by (simp add: thread_step_def)
  next
    case L_read
    from kept_loop_read[OF assms(1,2) P_loop assms(3,4) L_read] P_loop show ?thesis by (simp add: thread_step_def)
  next
    case L_ioctl
    from kept_loop_ioctl[OF assms(1,2) P_loop assms(3,4) L_ioctl] P_loop show ?thesis by (simp add: thread_step_def)
  qed
next
  case P_unlock
  then have "thread_ok i (t\<lparr>t_pc := P_after\<rparr>) (s\<lparr>l_lock := None\<rparr>)"
    using assms(2) by (simp add: thread_ok_def)
  then show ?thesis using P_unlock assms(2) by (simp add: thread_step_def kept_local[OF assms(1)] thread_ok_def)
next
  case P_after
  then have ok: "l_lock s \<noteq> Some i" "(i, finish t) \<in> set (l_log s)" using assms(2) by (simp_all add: thread_ok_def)
  show ?thesis
    using P_after ok
    by (cases "t_call t") (auto simp: thread_step_def after_step_def thread_ok_def intro!: kept_local[OF assms(1)])
next
  case (P_done r)
  then show ?thesis using assms(2) by (simp add: thread_step_def kept_local[OF assms(1)])
qed

text \<open>Stray accesses come from a delete.\<close>

definition list_sys_ok :: "list_call list \<Rightarrow> student list \<Rightarrow> list_sys \<Rightarrow> bool" where
  "list_sys_ok cs ss s \<longleftrightarrow> explained cs ss s \<and> length (l_threads s) = length cs \<and>
     (\<forall>i < length cs. t_call (l_threads s ! i) = cs ! i \<and> thread_ok i (l_threads s ! i) s) \<and>
     (l_stray s \<or> l_freed s \<noteq> [] \<longrightarrow> (\<exists>arg. L_ioctl DELETE_NODE arg \<in> set cs))"

lemma no_delete_no_stray:
  "list_sys_ok cs ss s \<Longrightarrow> \<forall>arg. L_ioctl DELETE_NODE arg \<notin> set cs \<Longrightarrow> \<not> l_stray s"
  unfolding list_sys_ok_def by blast

lemma list_step_ok:
  assumes "list_sys_ok cs ss s" and "\<forall>c \<in> set cs. user_ok c"
  shows "list_sys_ok cs ss (list_step i s)"
proof (cases "i < length cs")
  case True
  obtain t s' where st: "thread_step i (l_threads s ! i) s = (t, s')" by (rule prod.exhaust)
  have k: "kept cs ss i (l_threads s ! i) s (t, s')"
    using kept_step[of cs ss s i "l_threads s ! i"] assms True st by (simp add: list_sys_ok_def)
  have th: "l_threads s' = l_threads s" and own: "thread_ok i t s'" "t_call t = cs ! i" and fr: "step_frame i s s'"
    using k assms(1) True by (auto simp: kept_def list_sys_ok_def)
  have upd: "thread_ok j u (s'\<lparr>l_threads := x\<rparr>) = thread_ok j u s'" for j u x
    by (cases "t_pc u") (simp_all add: thread_ok_def logged_def students_def)
  have "thread_ok j ((l_threads s)[i := t] ! j) s' \<and> t_call ((l_threads s)[i := t] ! j) = cs ! j" if "j < length cs" for j
    using that own other_threads[OF fr, of j "l_threads s ! j"] assms(1) by (cases "j = i") (auto simp: list_sys_ok_def)
  moreover have "explained cs ss (s'\<lparr>l_threads := x\<rparr>)" for x
    using k by (simp add: kept_def explained_def students_def logged_def)
  moreover have "l_stray s' \<or> l_freed s' \<noteq> [] \<longrightarrow> (\<exists>arg. L_ioctl DELETE_NODE arg \<in> set cs)"
    using k assms(1) True by (auto simp: kept_def list_sys_ok_def) (metis nth_mem)+
  ultimately show ?thesis using True assms(1) st by (simp add: list_sys_ok_def list_step_def upd)
next
  case False
  with assms(1) show ?thesis by (simp add: list_sys_ok_def list_step_def)
qed

lemma list_start_ok:
  assumes "\<forall>st \<in> set ss. good_student st"
  shows "list_sys_ok cs ss (list_start cs ss)"
  using assms by (simp add: list_sys_ok_def list_start_def explained_def students_def logged_def thread_ok_def)

lemma list_run_ok:
  "list_sys_ok cs ss s \<Longrightarrow> \<forall>c \<in> set cs. user_ok c \<Longrightarrow> list_sys_ok cs ss (list_run sched s)"
  by (induction sched arbitrary: s) (simp_all add: list_run_def list_step_ok)

lemma log_grows: "\<exists>ex. l_log (list_run sched s) = l_log s @ ex"
proof (induction sched arbitrary: s)
  case (Cons i sched)
  have "\<exists>ex. l_log (list_step i s) = l_log s @ ex"
    by (auto simp: list_step_def thread_step_def enter_step_def loop_step_def after_step_def leave_loop_def
      return_early_def commit_def Let_def split: list_pc.splits list_call.splits option.splits prod.splits if_splits)
  with Cons[of "list_step i s"] show ?case by (auto simp: list_run_def)
qed (simp add: list_run_def)

section \<open>Properties\<close>

text \<open>C3. The list driver of 23 is linearizable: whatever the interleaving of any number of
  processes that write, read and delete, the calls that took effect so far, made one after
  another in some order on the list at the start, give every one of them the result it
  returns and the list as it is now; every call that has returned is among them, and that
  order only ever grows at its end, so a call that returned before another began comes
  before it.\<close>

theorem list_linearizable:
  assumes "\<forall>st \<in> set ss. good_student st" and "\<forall>c \<in> set cs. user_ok c"
    and "s = list_run sched (list_start cs ss)"
  shows "distinct (map fst (l_log s)) \<and>
    seq_run (map (\<lambda>(i, r). cs ! i) (l_log s)) ss = Some (map snd (l_log s), map snd (l_nodes s)) \<and>
    (\<forall>i < length cs. \<forall>r. t_pc (l_threads s ! i) = P_done r \<longrightarrow> (i, r) \<in> set (l_log s)) \<and>
    (\<forall>i < length cs. t_pc (l_threads s ! i) = P_enter \<longrightarrow> i \<notin> fst ` set (l_log s)) \<and>
    (\<forall>more. \<exists>ex. l_log (list_run more s) = l_log s @ ex)"
proof -
  have ok: "list_sys_ok cs ss s" unfolding assms(3) by (rule list_run_ok[OF list_start_ok[OF assms(1)] assms(2)])
  then have "explained cs ss s" by (simp add: list_sys_ok_def)
  moreover have "(i, r) \<in> set (l_log s)" if "i < length cs" "t_pc (l_threads s ! i) = P_done r" for i r
    using ok that by (fastforce simp: list_sys_ok_def thread_ok_def)
  moreover have "i \<notin> fst ` set (l_log s)" if "i < length cs" "t_pc (l_threads s ! i) = P_enter" for i
  proof -
    have "thread_ok i (l_threads s ! i) s" using ok that(1) by (simp add: list_sys_ok_def)
    then show ?thesis using that(2) by (simp add: thread_ok_def logged_def)
  qed
  ultimately show ?thesis using log_grows by (simp add: explained_def students_def)
qed

text \<open>Two writers and a reader, the reader between the two additions.\<close>

definition list_demo :: "list_call list" where
  "list_demo = [L_write True uapi_plain (bytes_of ''1 ann'') 5, L_write True uapi_plain (bytes_of ''2 bob'') 5,
     L_read uapi_plain 512 0]"

theorem list_linearizable_witness:
  "\<exists>s :: list_sys. map fst (l_log s) = [1, 2, 0] \<and>
     seq_run [list_demo ! 1, list_demo ! 2, list_demo ! 0] [] = Some (map snd (l_log s), map snd (l_nodes s))"
proof -
  let ?s = "list_run ([0, 1] @ replicate 4 1 @ replicate 5 2 @ replicate 3 0) (list_start list_demo [])"
  have l: "map fst (l_log ?s) = [1, 2, 0]" by code_simp
  have "seq_run (map (\<lambda>(i, r). list_demo ! i) (l_log ?s)) [] = Some (map snd (l_log ?s), map snd (l_nodes ?s))"
    using list_linearizable[OF _ _ refl, of "[]" list_demo "[0, 1] @ replicate 4 1 @ replicate 5 2 @ replicate 3 0"]
    by (simp add: list_demo_def uapi_plain_ok)
  moreover have "map (\<lambda>(i, r). list_demo ! i) (l_log ?s) = map ((!) list_demo) (map fst (l_log ?s))" by auto
  ultimately have "seq_run (map ((!) list_demo) [1, 2, 0]) [] = Some (map snd (l_log ?s), map snd (l_nodes ?s))"
    unfolding l by simp
  with l show ?thesis unfolding list.map by (intro exI[of _ ?s] conjI)
qed

text \<open>The message \<open>my_write\<close> logs reads the node after the lock was given back: without deletes
  no access is astray, and with one a node can be freed before its writer prints it.\<close>

theorem list_log_after_unlock:
  assumes "\<forall>st \<in> set ss. good_student st" and "\<forall>c \<in> set cs. user_ok c"
    and "\<forall>arg. L_ioctl DELETE_NODE arg \<notin> set cs"
  shows "\<not> l_stray (list_run sched (list_start cs ss)) \<and>
    (\<exists>sched. l_stray (list_run sched (list_start
       [L_write True uapi_plain (bytes_of ''7 bob'') 5, L_ioctl DELETE_NODE 7] [])))"
proof
  show "\<not> l_stray (list_run sched (list_start cs ss))"
    by (rule no_delete_no_stray[OF list_run_ok[OF list_start_ok[OF assms(1)] assms(2)] assms(3)])
  show "\<exists>sched. l_stray (list_run sched (list_start
       [L_write True uapi_plain (bytes_of ''7 bob'') 5, L_ioctl DELETE_NODE 7] []))"
    by (rule exI[of _ "[0, 0, 0, 0, 1, 1, 1, 1, 0]"]) code_simp
qed

theorem list_log_after_unlock_witness:
  "\<not> l_stray (list_run [0, 1, 2, 0, 1, 2, 0, 1, 2] (list_start list_demo []))"
  using list_log_after_unlock[of "[]" list_demo "[0, 1, 2, 0, 1, 2, 0, 1, 2]"]
  by (simp add: list_demo_def uapi_plain_ok)

end
