(* ===== verification/SysfsFiles.thy ===== *)
theory SysfsFiles
  imports CharBasic DataDrivers
begin

unbundle bit_operations_syntax

text \<open>
  Attributes in sysfs: the group of 24 and the \<open>memory_usage\<close> of \<open>char_cdev-3\<close>, as tables of
  name, mode and methods, and the reads and writes of user processes sysfs dispatches to
  them. The sysfs core is not in the repository; the machine below is what it documents: a
  file without the permission bits or the method for an access cannot be opened for it, a
  \<open>store\<close> gets at most a page of what is written with a NUL after it.
\<close>

section \<open>Attributes\<close>

record 'v kobj_attribute =
  attr_name :: string
  attr_mode :: "16 word"
  attr_show :: "('v \<Rightarrow> byte list option) option"
  attr_store :: "(byte list \<Rightarrow> nat \<Rightarrow> 'v \<Rightarrow> (int \<times> 'v) option) option"




definition usage_text :: "nat \<times> nat \<Rightarrow> byte list" where
  "usage_text n = bytes_of ''Allocated: '' @ print_d (int (fst n)) @ bytes_of '' bytes | Used: '' @
     print_d (int (snd n)) @ bytes_of '' bytes'' @ [10]"

definition dev_attr_memory_usage :: "nat \<Rightarrow> byte list list kobj_attribute" where
  "dev_attr_memory_usage minor = \<lparr>attr_name = ''memory_usage'', attr_mode = 292,
     attr_show = Some (\<lambda>bufs. map_option usage_text (my_class_attr_show_cdev3 minor bufs)), attr_store = None\<rparr>"

section \<open>Reads and writes\<close>

abbreviation EACCES :: int where "EACCES \<equiv> 13"

datatype sysfs_op = Show string | Store string "byte list"

definition find_attr :: "'v kobj_attribute list \<Rightarrow> string \<Rightarrow> 'v kobj_attribute option" where
  "find_attr attrs n = find (\<lambda>a. attr_name a = n) attrs"

fun sysfs_step ::
    "'v kobj_attribute list \<Rightarrow> sysfs_op \<Rightarrow> 'v \<Rightarrow> ((int \<times> byte list) \<times> 'v) option" where
  "sysfs_step attrs (Show n) v = (case find_attr attrs n of
      None \<Rightarrow> Some ((- ENOENT, []), v)
    | Some a \<Rightarrow> (case attr_show a of
        None \<Rightarrow> Some ((- EACCES, []), v)
      | Some show \<Rightarrow>
          if attr_mode a AND 292 = 0 then Some ((- EACCES, []), v)
          else map_option (\<lambda>text. ((int (length text), text), v)) (show v)))"
| "sysfs_step attrs (Store n bytes) v = (case find_attr attrs n of
      None \<Rightarrow> Some ((- ENOENT, []), v)
    | Some a \<Rightarrow> (case attr_store a of
        None \<Rightarrow> Some ((- EACCES, []), v)
      | Some store \<Rightarrow>
          if attr_mode a AND 146 = 0 then Some ((- EACCES, []), v)
          else let bytes = take PAGE_SIZE bytes in
            map_option (\<lambda>(r, v'). ((r, []), v')) (store (bytes @ [0]) (length bytes) v)))"


section \<open>The invariant of 24\<close>













section \<open>Properties\<close>


text \<open>
  A show of \<open>name\<close> while a store is at work finds some of the new bytes before the rest of the
  old ones; the last byte is NUL throughout, so it stays inside. \<open>memory_usage\<close> cannot be
  written.
\<close>

lemma name_show_during_store:
  assumes "nul_buf 32 (sv_name v)" and "length w \<le> 31" and "k \<le> length w"
  shows "\<exists>text. name_show (v\<lparr>sv_name := take k w @ drop k (sv_name v)\<rparr>) = Some text \<and> length text \<le> 32"
proof -
  let ?n = "take k w @ drop k (sv_name v)"
  have "nul_buf 32 ?n" using assms by (simp add: nul_buf_def nth_append min_def)
  then show ?thesis using nul_buf_string[of 32 ?n] text_of_length[of 32 ?n] by (simp add: name_show_def)
qed

lemma memory_usage_read_only:
  "sysfs_step [dev_attr_memory_usage m] (Store ''memory_usage'' bs) bufs = Some ((- EACCES, []), bufs)"
  by (simp add: find_attr_def dev_attr_memory_usage_def)

end
