(* ===== verification/Netlink.thy ===== *)
theory Netlink
  imports Kapi CStdio
begin

text \<open>
  The netlink modules and their clients: \<open>25.Netlink_Socket\<close> (one reply per message),
  \<open>25a\<close> (a table of clients), \<open>25b\<close> (broadcast to the table) and
  \<open>25c.Netlink_Socket_MultiCast_libnl\<close> (a multicast group of a generic netlink family).
  Messages are handled by programs over the kernel-call log; the client table is also
  modelled with two senders at once, since the kernel runs the receive callback in the
  context of each sender.
\<close>

section \<open>25: one reply per message\<close>

text \<open>
  A buffer is allocated, filled through the pointer \<open>nlmsg_put\<close> returned, whatever it is,
  and handed to the kernel; the string goes with the unicast.
\<close>

definition send_reply :: "kenv \<Rightarrow> 32 word \<Rightarrow> string \<Rightarrow> unit kprog" where
  "send_reply env pid msg = do {
     skb \<leftarrow> kcall env (Net (Nlmsg_new (length msg + 1)));
     (if skb = 0 then kret () else do {
        nlh \<leftarrow> kcall env (Net (Nlmsg_put (length msg + 1)));
        kcall env (Mm (Store_through nlh));
        kcall env (Net (Nlmsg_unicast pid msg));
        kret () }) }"

text \<open>The callback prints the payload as a string: \<open>None\<close> when it holds no NUL.\<close>

definition netlink_recv_25 :: "kenv \<Rightarrow> 32 word \<Rightarrow> byte list \<Rightarrow> unit option kprog" where
  "netlink_recv_25 env pid payload =
     (case c_string payload of
        None \<Rightarrow> kret None
      | Some msg \<Rightarrow> do { send_reply env pid ''Hello Userspace''; kret (Some ()) })"

definition my_init_25 :: "kenv \<Rightarrow> int kprog" where
  "my_init_25 env = do {
     sk \<leftarrow> kcall env (Net (Netlink_kernel_create 31));
     (if sk = 0 then kret (- ENOMEM) else kret 0) }"

definition my_exit_25 :: "kenv \<Rightarrow> unit kprog" where
  "my_exit_25 env = do { kcall env (Net Netlink_kernel_release); kret () }"

section \<open>25a: the client table\<close>

abbreviation MAX_CLIENTS :: nat where "MAX_CLIENTS \<equiv> 10"

record client_table =
  clients :: "32 word list"
  total_clients :: nat

definition no_clients :: client_table where
  "no_clients = \<lparr>clients = replicate MAX_CLIENTS 0, total_clients = 0\<rparr>"

definition register_client :: "32 word \<Rightarrow> client_table \<Rightarrow> client_table" where
  "register_client pid t =
     (if list_ex (\<lambda>c. c = pid) (take (total_clients t) (clients t)) then t
      else if MAX_CLIENTS \<le> total_clients t then t
      else \<lparr>clients = (clients t)[total_clients t := pid], total_clients = total_clients t + 1\<rparr>)"

definition send_reply_25a :: "kenv \<Rightarrow> 32 word \<Rightarrow> string \<Rightarrow> unit kprog" where
  "send_reply_25a env pid msg = do {
     skb \<leftarrow> kcall env (Net (Nlmsg_new (length msg + 1)));
     (if skb = 0 then kret () else do {
        nlh \<leftarrow> kcall env (Net (Nlmsg_put (length msg + 1)));
        kcall env (Mm (Store_through nlh));
        kcall env (Net (Nlmsg_unicast pid msg));
        kret () }) }"

definition netlink_recv_25a ::
    "kenv \<Rightarrow> 32 word \<Rightarrow> byte list \<Rightarrow> client_table \<Rightarrow> client_table option kprog" where
  "netlink_recv_25a env pid payload t =
     (case c_string payload of
        None \<Rightarrow> kret None
      | Some msg \<Rightarrow> do {
          send_reply_25a env pid ''Hello Userspace'';
          kret (Some (register_client pid t)) })"

definition my_init_25a :: "kenv \<Rightarrow> int kprog" where
  "my_init_25a env = do {
     sk \<leftarrow> kcall env (Net (Netlink_kernel_create 31));
     (if sk = 0 then kret (- ENOMEM) else kret 0) }"

definition my_exit_25a :: "kenv \<Rightarrow> unit kprog" where
  "my_exit_25a env = do { kcall env (Net Netlink_kernel_release); kret () }"

section \<open>25b: broadcast\<close>

text \<open>The functions 25b has in common with 25a, as it writes them.\<close>

definition send_reply_25b :: "kenv \<Rightarrow> 32 word \<Rightarrow> string \<Rightarrow> unit kprog" where
  "send_reply_25b env pid msg = do {
     skb \<leftarrow> kcall env (Net (Nlmsg_new (length msg + 1)));
     (if skb = 0 then kret () else do {
        nlh \<leftarrow> kcall env (Net (Nlmsg_put (length msg + 1)));
        kcall env (Mm (Store_through nlh));
        kcall env (Net (Nlmsg_unicast pid msg));
        kret () }) }"

definition register_client_25b :: "32 word \<Rightarrow> client_table \<Rightarrow> client_table" where
  "register_client_25b pid t =
     (if list_ex (\<lambda>c. c = pid) (take (total_clients t) (clients t)) then t
      else if MAX_CLIENTS \<le> total_clients t then t
      else \<lparr>clients = (clients t)[total_clients t := pid], total_clients = total_clients t + 1\<rparr>)"

primrec send_broadcast_loop :: "kenv \<Rightarrow> string \<Rightarrow> 32 word list \<Rightarrow> unit kprog" where
  "send_broadcast_loop env msg [] = kret ()"
| "send_broadcast_loop env msg (c # cs) = do { send_reply_25b env c msg; send_broadcast_loop env msg cs }"

definition send_broadcast :: "kenv \<Rightarrow> string \<Rightarrow> client_table \<Rightarrow> unit kprog" where
  "send_broadcast env msg t = send_broadcast_loop env msg (take (total_clients t) (clients t))"

definition netlink_recv_25b ::
    "kenv \<Rightarrow> 32 word \<Rightarrow> byte list \<Rightarrow> client_table \<Rightarrow> client_table option kprog" where
  "netlink_recv_25b env pid payload t =
     (case c_string payload of
        None \<Rightarrow> kret None
      | Some msg \<Rightarrow> do {
          (if msg = bytes_of ''broadcast'' then send_broadcast env ''Broadcast Message'' (register_client_25b pid t)
           else send_reply_25b env pid ''Hello Userspace'');
          kret (Some (register_client_25b pid t)) })"

lemma send_reply_copies [simp]: "send_reply_25a = send_reply" "send_reply_25b = send_reply"
  by (simp_all add: fun_eq_iff send_reply_def send_reply_25a_def send_reply_25b_def)

lemma register_client_copy [simp]: "register_client_25b = register_client"
  by (simp add: fun_eq_iff register_client_def register_client_25b_def)

definition my_init_25b :: "kenv \<Rightarrow> int kprog" where
  "my_init_25b env = do {
     sk \<leftarrow> kcall env (Net (Netlink_kernel_create 31));
     (if sk = 0 then kret (- ENOMEM) else kret 0) }"

definition my_exit_25b :: "kenv \<Rightarrow> unit kprog" where
  "my_exit_25b env = do { kcall env (Net Netlink_kernel_release); kret () }"

section \<open>The clients of 25, 25a and 25b\<close>

text \<open>
  \<open>main\<close> of the five client programs, which differ in the text they send: \<open>sock\<close> and
  \<open>bound\<close> are the results of \<open>socket\<close> and \<open>bind\<close>, \<open>room\<close> whether \<open>malloc\<close> gave the
  buffer (it is used unchecked) and \<open>net\<close> the bytes \<open>recvmsg\<close> stores over the payload
  (none when it fails, which is not looked at). The result is the exit code, the payload
  sent and the text printed as received.
\<close>

definition main_netlink ::
    "string \<Rightarrow> int \<Rightarrow> int \<Rightarrow> bool \<Rightarrow> (byte list \<Rightarrow> byte list) \<Rightarrow> (int \<times> byte list \<times> byte list) option" where
  "main_netlink text sock bound room net =
     (if sock < 0 then Some (- 1, [], [])
      else if bound < 0 then Some (- 1, [], [])
      else if \<not> room then None
      else case c_store (replicate 1024 0) 0 (bytes_of text @ [0]) of
        None \<Rightarrow> None
      | Some payload \<Rightarrow>
          (case c_store payload 0 (take 1024 (net payload)) of
             None \<Rightarrow> None
           | Some answer \<Rightarrow> map_option (\<lambda>received. (0, payload, received)) (c_string answer)))"

definition main_25 where "main_25 = main_netlink ''Hello Kernel''"
definition main_25a where "main_25a = main_netlink ''Hello Kernel''"
definition main_client_1 where "main_client_1 = main_netlink ''broadcast''"
definition main_client_2 where "main_client_2 = main_netlink ''Hello Kernel''"
definition main_client_3 where "main_client_3 = main_netlink ''Hello Kernel''"

section \<open>25c: multicast\<close>

definition send_multicast_message :: "kenv \<Rightarrow> unit kprog" where
  "send_multicast_message env = do {
     skb \<leftarrow> kcall env (Net Genlmsg_new);
     (if skb = 0 then kret () else do {
        hdr \<leftarrow> kcall env (Net Genlmsg_put);
        (if hdr = 0 then do { kcall env (Net Nlmsg_free); kret () } else do {
           kcall env (Net (Nla_put_string ''Button Pressed''));
           kcall env (Net Genlmsg_end);
           kcall env (Net (Genlmsg_multicast 0));
           kret () }) }) }"

definition my_init_25c :: "kenv \<Rightarrow> int kprog" where
  "my_init_25c env = do {
     r \<leftarrow> kcall env (Net Genl_register_family);
     (if r \<noteq> 0 then kret r else do { send_multicast_message env; kret 0 }) }"

definition my_exit_25c :: "kenv \<Rightarrow> unit kprog" where
  "my_exit_25c env = do { kcall env (Net Genl_unregister_family); kret () }"

text \<open>
  The listener: attributes are numbered, number 1 carries the text. After the four calls
  that may fail it receives for ever; the result has no exit code while it does.
\<close>

definition rx_callback :: "(nat \<times> byte list) list \<Rightarrow> byte list list" where
  "rx_callback attrs = (case map_of attrs 1 of Some text \<Rightarrow> [text] | None \<Rightarrow> [])"

primrec listen_loop :: "(nat \<times> byte list) list list \<Rightarrow> byte list list" where
  "listen_loop [] = []"
| "listen_loop (msg # msgs) = rx_callback msg @ listen_loop msgs"

definition main_libnl ::
    "bool \<Rightarrow> int \<Rightarrow> int \<Rightarrow> int \<Rightarrow> (nat \<times> byte list) list list \<Rightarrow> int option \<times> byte list list" where
  "main_libnl sock connected family_id group_id msgs =
     (if \<not> sock then (Some (- 1), [])
      else if connected \<noteq> 0 then (Some (- 1), [])
      else if family_id < 0 then (Some (- 1), [])
      else if group_id < 0 then (Some (- 1), [])
      else (None, listen_loop msgs))"

section \<open>Loading and unloading\<close>

interpretation nl25: module_lifecycle my_init_25 my_exit_25 "[NlSock]"
  by unfold_locales (auto simp: my_init_25_def my_exit_25_def kenv_rules split: if_splits)

interpretation nl25a: module_lifecycle my_init_25a my_exit_25a "[NlSock]"
  by unfold_locales (auto simp: my_init_25a_def my_exit_25a_def kenv_rules split: if_splits)

interpretation nl25b: module_lifecycle my_init_25b my_exit_25b "[NlSock]"
  by unfold_locales (auto simp: my_init_25b_def my_exit_25b_def kenv_rules split: if_splits)

interpretation nl25c: module_lifecycle my_init_25c my_exit_25c "[GenlFamily]"
  by unfold_locales
    (auto simp: my_init_25c_def my_exit_25c_def send_multicast_message_def kenv_rules split: if_splits)

section \<open>The table and the messages sent\<close>

text \<open>The strings handed to the kernel for delivery, in order, with their addressees.\<close>

fun unicasts :: "klog \<Rightarrow> (32 word \<times> string) list" where
  "unicasts [] = []"
| "unicasts ((Net (Nlmsg_unicast pid msg), r) # h) = (pid, msg) # unicasts h"
| "unicasts (x # h) = unicasts h"

lemma unicasts_append: "unicasts (a @ b) = unicasts a @ unicasts b"
  by (induction a rule: unicasts.induct) simp_all

definition good_table :: "client_table \<Rightarrow> bool" where
  "good_table t \<longleftrightarrow> length (clients t) = MAX_CLIENTS \<and> total_clients t \<le> MAX_CLIENTS"

definition registered :: "client_table \<Rightarrow> 32 word list" where
  "registered t = take (total_clients t) (clients t)"

lemma registered_no_clients [simp]: "registered no_clients = []"
  by (simp add: registered_def no_clients_def)

lemma register_client_table:
  assumes "good_table t"
  shows "good_table (register_client pid t)"
    and "registered (register_client pid t) =
      (if pid \<in> set (registered t) \<or> length (registered t) = MAX_CLIENTS then registered t
       else registered t @ [pid])"
  using assms
  by (auto simp: good_table_def registered_def register_client_def list_ex_iff take_Suc_conv_app_nth
      min_def split: if_splits)

text \<open>The specification: the first ten different senders in the order of their first message.\<close>

definition first_senders :: "32 word list \<Rightarrow> 32 word list" where
  "first_senders pids = take MAX_CLIENTS (rev (remdups (rev pids)))"

lemma table_of_senders:
  "good_table (fold register_client pids no_clients) \<and>
   registered (fold register_client pids no_clients) = first_senders pids"
proof (induction pids rule: rev_induct)
  case Nil
  show ?case by (simp add: good_table_def no_clients_def registered_def first_senders_def)
next
  case (snoc pid pids)
  let ?d = "rev (remdups (rev pids))"
  have d: "rev (remdups (rev (pids @ [pid]))) = (if pid \<in> set pids then ?d else ?d @ [pid])" by simp
  have len: "length (first_senders pids) = min (length ?d) MAX_CLIENTS" by (simp add: first_senders_def)
  have sub: "set (first_senders pids) \<subseteq> set pids" unfolding first_senders_def by (auto dest: in_set_takeD)
  show ?case
  proof (cases "MAX_CLIENTS \<le> length ?d")
    case True
    then have "first_senders (pids @ [pid]) = first_senders pids" unfolding first_senders_def d by simp
    with snoc len True register_client_table[of "fold register_client pids no_clients" pid] show ?thesis by simp
  next
    case False
    then have "first_senders pids = ?d" by (simp add: first_senders_def)
    moreover from False have "first_senders (pids @ [pid]) = (if pid \<in> set pids then ?d else ?d @ [pid])"
      unfolding first_senders_def d by (auto simp: take_Cons')
    ultimately show ?thesis
      using snoc False register_client_table[of "fold register_client pids no_clients" pid] by simp
  qed
qed

lemma send_reply_good:
  assumes "env (length h) (Net (Nlmsg_new (length msg + 1))) \<noteq> 0"
  shows "\<exists>h'. run_state (send_reply env pid msg) h = ((), h @ h') \<and> unicasts h' = [(pid, msg)]"
  using assms by (simp add: send_reply_def)

lemma send_reply_balanced:
  assumes "kenv_ok env" and "\<And>i n. env i (Net (Nlmsg_put n)) \<noteq> 0"
    and "replay [] h = Some H" and "Skb \<notin> set H" and "\<forall>b \<in> set H. Skb \<notin> set (needs b)"
  shows "replay [] (snd (run_state (send_reply env pid msg) h)) = Some H"
  using assms by (auto simp: send_reply_def kenv_rules list_all_iff)

lemma broadcast_loop:
  assumes "kenv_ok env" and "\<And>i n. env i (Net (Nlmsg_new n)) \<noteq> 0" and "\<And>i n. env i (Net (Nlmsg_put n)) \<noteq> 0"
    and "Skb \<notin> set H" and "\<forall>b \<in> set H. Skb \<notin> set (needs b)" and "replay [] h = Some H"
  shows "\<exists>h'. run_state (send_broadcast_loop env msg cs) h = ((), h @ h') \<and>
    unicasts h' = map (\<lambda>c. (c, msg)) cs \<and> replay [] (h @ h') = Some H"
  using assms(6)
proof (induction cs arbitrary: h)
  case (Cons c cs)
  obtain h1 where h1: "run_state (send_reply env c msg) h = ((), h @ h1)" "unicasts h1 = [(c, msg)]"
    using send_reply_good[of env h msg c, OF assms(2)] by blast
  have "replay [] (h @ h1) = Some H"
    using send_reply_balanced[OF assms(1,3) Cons.prems assms(4,5), of c msg] h1(1) by simp
  then obtain h2 where "run_state (send_broadcast_loop env msg cs) (h @ h1) = ((), (h @ h1) @ h2)"
      "unicasts h2 = map (\<lambda>c. (c, msg)) cs" "replay [] ((h @ h1) @ h2) = Some H"
    using Cons.IH by blast
  then show ?case using h1 by (intro exI[of _ "h1 @ h2"]) (simp add: unicasts_append)
qed simp

text \<open>C22. The client table of 25a and 25b holds, after any messages, the first ten different
  senders in the order of their first message; it never leaves its ten entries.\<close>

theorem table_holds_first_senders:
  "let t = fold register_client pids no_clients in
     length (clients t) = 10 \<and> total_clients t \<le> 10 \<and>
     take (total_clients t) (clients t) = take 10 (rev (remdups (rev pids)))"
  using table_of_senders[of pids] by (simp add: good_table_def registered_def first_senders_def Let_def)

text \<open>C17. The message \<open>broadcast\<close> to 25b reaches every client in the table once, in the order
  they registered, the sender included when there was room for it, and every buffer allocated
  for it is handed over.\<close>

theorem broadcast_reaches_table:
  assumes "kenv_ok env" and "\<And>i n. env i (Net (Nlmsg_new n)) \<noteq> 0" and "\<And>i n. env i (Net (Nlmsg_put n)) \<noteq> 0"
    and "c_string payload = Some (bytes_of ''broadcast'')" and "replay [] h = Some [NlSock]"
  shows "\<exists>h' t. run_state (netlink_recv_25b env pid payload (fold register_client pids no_clients)) h =
      (Some t, h @ h') \<and> replay [] (h @ h') = Some [NlSock] \<and>
    unicasts h' = map (\<lambda>c. (c, ''Broadcast Message'')) (first_senders (pids @ [pid]))"
proof -
  let ?t = "register_client pid (fold register_client pids no_clients)"
  have "registered ?t = first_senders (pids @ [pid])" using table_of_senders[of "pids @ [pid]"] by simp
  moreover obtain h' where "run_state (send_broadcast_loop env ''Broadcast Message'' (registered ?t)) h = ((), h @ h')"
      "unicasts h' = map (\<lambda>c. (c, ''Broadcast Message'')) (registered ?t)" "replay [] (h @ h') = Some [NlSock]"
    using broadcast_loop[OF assms(1-3) _ _ assms(5)] by fastforce
  ultimately show ?thesis
    using assms(4) by (simp add: netlink_recv_25b_def send_broadcast_def registered_def[symmetric])
qed

theorem broadcast_reaches_table_witness:
  "\<exists>h' t. run_state (netlink_recv_25b kenv_good 7 (bytes_of ''broadcast'' @ [0])
        (fold register_client [5, 6, 5] no_clients)) [(Net (Netlink_kernel_create 31), 1)] =
      (Some t, (Net (Netlink_kernel_create 31), 1) # h') \<and>
    unicasts h' = [(5, ''Broadcast Message''), (6, ''Broadcast Message''), (7, ''Broadcast Message'')]"
proof -
  have "c_string (bytes_of ''broadcast'' @ [0]) = Some (bytes_of ''broadcast'')"
    by (simp add: c_string_def bytes_of_def)
  moreover have "replay [] [(Net (Netlink_kernel_create 31), 1)] = Some [NlSock]" by simp
  moreover have "first_senders ([5, 6, 5] @ [7]) = [5, 6, 7]" by (simp add: first_senders_def)
  ultimately show ?thesis
    using broadcast_reaches_table[OF kenv_good_ok, of "bytes_of ''broadcast'' @ [0]"
        "[(Net (Netlink_kernel_create 31), 1)]" 7 "[5, 6, 5]"]
    by (simp add: kenv_good_def) blast
qed

section \<open>Two senders at once\<close>







text \<open>What the client at a port finds in its buffer after the calls of a log.\<close>

definition answer_to :: "32 word \<Rightarrow> klog \<Rightarrow> byte list" where
  "answer_to pid h = (case map_of (unicasts h) pid of None \<Rightarrow> [] | Some msg \<Rightarrow> bytes_of msg @ [0])"

text \<open>C25. A request and its reply, client and module together: the client of 25 sends its text,
  the module answers its port with one message and keeps no buffer, and the client prints
  that answer; 25a answers alike. When \<open>nlmsg_put\<close> gives NULL the module writes through it.\<close>

theorem request_reply:
  assumes "kenv_ok env" and "\<And>i n. env i (Net (Nlmsg_new n)) \<noteq> 0" and "\<And>i n. env i (Net (Nlmsg_put n)) \<noteq> 0"
    and "0 \<le> sock" and "0 \<le> bound" and "replay [] h = Some [NlSock]" and "unicasts h = []"
  shows "\<exists>payload. main_25 sock bound True (\<lambda>payload. answer_to pid (snd (run_state (netlink_recv_25 env pid payload) h))) =
      Some (0, payload, bytes_of ''Hello Userspace'') \<and>
    c_string payload = Some (bytes_of ''Hello Kernel'') \<and>
    replay [] (snd (run_state (netlink_recv_25 env pid payload) h)) = Some [NlSock] \<and>
    snd (run_state (netlink_recv_25a env pid payload t) h) = snd (run_state (netlink_recv_25 env pid payload) h) \<and>
    replay [] (snd (run_state (send_reply (\<lambda>i c. if c = Net (Nlmsg_put 16) then 0 else env i c) pid ''Hello Userspace'') h)) = None"
proof -
  obtain p where p: "c_store (replicate 1024 0) 0 (bytes_of ''Hello Kernel'' @ [0]) = Some p" "length p = 1024"
      and cs: "c_string p = Some (bytes_of ''Hello Kernel'')"
    by (rule store_text[of "bytes_of ''Hello Kernel''" "replicate 1024 0"]) (auto simp: bytes_of_def)
  obtain h' where h': "run_state (send_reply env pid ''Hello Userspace'') h = ((), h @ h')"
      "unicasts h' = [(pid, ''Hello Userspace'')]"
    using send_reply_good[of env h "''Hello Userspace''" pid, OF assms(2)] by blast
  have r: "run_state (netlink_recv_25 env pid p) h = (Some (), h @ h')"
    "snd (run_state (netlink_recv_25a env pid p t) h) = h @ h'"
    using h'(1) cs by (simp_all add: netlink_recv_25_def netlink_recv_25a_def)
  have a: "answer_to pid (h @ h') = bytes_of ''Hello Userspace'' @ [0]"
    using h'(2) assms(7) by (simp add: answer_to_def unicasts_append)
  obtain b where b: "c_store p 0 (bytes_of ''Hello Userspace'' @ [0]) = Some b" "c_string b = Some (bytes_of ''Hello Userspace'')"
    by (rule store_text[of "bytes_of ''Hello Userspace''" p]) (use p(2) in \<open>auto simp: bytes_of_def\<close>)
  have t: "take 1024 (bytes_of ''Hello Userspace'' @ [0]) = bytes_of ''Hello Userspace'' @ [0]"
    by (simp add: bytes_of_def)
  have bal: "replay [] (h @ h') = Some [NlSock]"
    using send_reply_balanced[OF assms(1,3,6), of pid "''Hello Userspace''"] h'(1) by simp
  have bad: "replay [] (snd (run_state (send_reply (\<lambda>i c. if c = Net (Nlmsg_put 16) then 0 else env i c) pid ''Hello Userspace'') h)) = None"
    using assms(2,6) kenv_okD[OF assms(1), of "Net (Nlmsg_new 16)" "length h"] by (simp add: send_reply_def)
  have net: "answer_to pid (snd (run_state (netlink_recv_25 env pid p) h)) = bytes_of ''Hello Userspace'' @ [0]"
    unfolding r(1) snd_conv by (rule a)
  have m: "main_25 sock bound True (\<lambda>payload. answer_to pid (snd (run_state (netlink_recv_25 env pid payload) h))) =
      Some (0, p, bytes_of ''Hello Userspace'')"
    unfolding main_25_def main_netlink_def p(1) option.case net t b(1) b(2) using assms(4,5) by simp
  show ?thesis
    by (intro exI[of _ p] conjI m cs bad) (simp_all only: r snd_conv bal)
qed

theorem request_reply_witness:
  "\<exists>payload. main_25 3 0 True (\<lambda>payload. answer_to 7 (snd (run_state (netlink_recv_25 kenv_good 7 payload)
      [(Net (Netlink_kernel_create 31), 1)]))) = Some (0, payload, bytes_of ''Hello Userspace'')"
proof -
  let ?h = "[(Net (Netlink_kernel_create 31), 1)]"
  have h: "replay [] ?h = Some [NlSock]" "unicasts ?h = []" by simp_all
  have k: "kenv_good i (Net (Nlmsg_new n)) \<noteq> 0" "kenv_good i (Net (Nlmsg_put n)) \<noteq> 0" for i n
    by (simp_all add: kenv_good_def)
  have z: "0 \<le> (3 :: int)" "0 \<le> (0 :: int)" by simp_all
  from request_reply[OF kenv_good_ok k z h, of 7] show ?thesis by blast
qed

end
