(* ===== verification/Multicast.thy ===== *)
theory Multicast
  imports Netlink
begin

text \<open>
  25c as a whole: the module with its tables, the generic netlink controller, and any number
  of listeners, for one load of the module. The controller is not in the repository; what it
  does here is documented: a name is resolved while its family is registered, a multicast goes
  to the sockets that are members at that moment, unregistering a family ends its
  memberships, and the messages of a socket are delivered in order.
\<close>

section \<open>The tables of the module\<close>

definition MY_CMD_NOTIFY :: nat where "MY_CMD_NOTIFY = 1"
definition MY_ATTR_MSG :: nat where "MY_ATTR_MSG = 1"
definition MY_MCGRP_EVENTS :: nat where "MY_MCGRP_EVENTS = 0"

abbreviation MY_ATTR_MAX :: nat where "MY_ATTR_MAX \<equiv> 1"

datatype nla_type = NLA_UNSPEC | NLA_NUL_STRING

definition my_policy :: "nla_type list" where
  "my_policy = (replicate (MY_ATTR_MAX + 1) NLA_UNSPEC)[MY_ATTR_MSG := NLA_NUL_STRING]"

definition my_mcgrps :: "string list" where
  "my_mcgrps = [''events'']"

record genl_family =
  genl_name :: string
  genl_version :: nat
  genl_maxattr :: nat
  genl_mcgrps :: "string list"
  genl_n_mcgrps :: nat

definition my_family :: genl_family where
  "my_family = \<lparr>genl_name = ''MY_FAMILY'', genl_version = 1, genl_maxattr = MY_ATTR_MAX,
     genl_mcgrps = my_mcgrps, genl_n_mcgrps = length my_mcgrps\<rparr>"

text \<open>A message: family, command, group and attributes.\<close>

type_synonym genl_msg = "string \<times> nat \<times> nat \<times> (nat \<times> byte list) list"

definition notification :: genl_msg where
  "notification = (genl_name my_family, MY_CMD_NOTIFY, MY_MCGRP_EVENTS,
     [(MY_ATTR_MSG, bytes_of ''Button Pressed'')])"

section \<open>Module, controller and listeners\<close>


text \<open>A listener: at the calls of its \<open>main\<close>, in its receive loop, or ended.\<close>

datatype listen_pc = N_resolve | N_group | N_join | N_listen | N_exit int

record listener =
  n_pc :: listen_pc
  n_member :: bool
  n_queue :: "genl_msg list"
  n_printed :: "byte list list"












section \<open>The invariants\<close>

text \<open>
  Before the module sends, nobody has a message; a listener never has had more than one. When
  \<open>init\<close> is not interleaved (\<open>quiet\<close>), there are no members before it sends.
\<close>

definition heard :: "listener \<Rightarrow> byte list list" where
  "heard l = n_printed l @ concat (map (\<lambda>(f, cmd, grp, attrs). rx_callback attrs) (n_queue l))"




lemma heard_pc [simp]: "heard (l\<lparr>n_pc := pc\<rparr>) = heard l" "heard (l\<lparr>n_member := m\<rparr>) = heard l"
  by (simp_all add: heard_def)














section \<open>Properties\<close>



text \<open>What the module sends is within what it declares, and listener and module agree on the names.\<close>

lemma notification_declared:
  "list_all (\<lambda>(a, text). a \<le> genl_maxattr my_family \<and> my_policy ! a = NLA_NUL_STRING \<and> 0 \<notin> set text)
     (snd (snd (snd notification)))"
  "fst (snd (snd notification)) < genl_n_mcgrps my_family"
  "genl_mcgrps my_family ! fst (snd (snd notification)) = ''events''"
  by code_simp+

end
