(* ===== verification/Regmap.thy ===== *)
theory Regmap
  imports Kapi
begin

unbundle bit_operations_syntax

text \<open>
  The seven MPU9250 drivers \<open>26a\<close> to \<open>26g\<close> on the kernel's regmap. Regmap and the chip
  behind it are not in the repository: a record of functions on a state the drivers do not
  see, with what regmap documents as named hypotheses. A driver is a program in the state
  monad over that state and the lines it prints, each a text with a number.
\<close>

section \<open>The regmap interface\<close>

record 's regmap_api =
  rm_read :: "nat \<Rightarrow> 's \<Rightarrow> int \<times> byte \<times> 's"
  rm_write :: "nat \<Rightarrow> byte \<Rightarrow> 's \<Rightarrow> int \<times> 's"
  rm_update_bits :: "nat \<Rightarrow> byte \<Rightarrow> byte \<Rightarrow> 's \<Rightarrow> int \<times> 's"
  rm_bulk_read :: "nat \<Rightarrow> nat \<Rightarrow> 's \<Rightarrow> int \<times> byte list \<times> 's"
  rm_bulk_write :: "nat \<Rightarrow> byte list \<Rightarrow> 's \<Rightarrow> int \<times> 's"
  rm_read_poll_timeout :: "nat \<Rightarrow> (byte \<Rightarrow> bool) \<Rightarrow> nat \<Rightarrow> nat \<Rightarrow> 's \<Rightarrow> int \<times> byte \<times> 's"
  rc_cache_only :: "bool \<Rightarrow> 's \<Rightarrow> 's"
  rc_mark_dirty :: "'s \<Rightarrow> 's"
  rc_sync :: "'s \<Rightarrow> int \<times> 's"

type_synonym 's drv = "'s \<times> (string \<times> int) list"
type_synonym ('s, 'a) rprog = "('s drv, 'a) state"

abbreviation rret :: "'a \<Rightarrow> ('s, 'a) rprog" where
  "rret \<equiv> State_Monad.return"

definition call :: "('s \<Rightarrow> 'a \<times> 's) \<Rightarrow> ('s, 'a) rprog" where
  "call f = State (\<lambda>(s, out). let (a, s) = f s in (a, s, out))"

definition info :: "string \<Rightarrow> int \<Rightarrow> ('s, unit) rprog" where
  "info text v = State (\<lambda>(s, out). ((), s, out @ [(text, v)]))"

definition regmap_read :: "'s regmap_api \<Rightarrow> nat \<Rightarrow> ('s, int \<times> byte) rprog" where
  "regmap_read A r = call (\<lambda>s. let (e, v, s) = rm_read A r s in ((e, v), s))"

definition regmap_bulk_read :: "'s regmap_api \<Rightarrow> nat \<Rightarrow> nat \<Rightarrow> ('s, int \<times> byte list) rprog" where
  "regmap_bulk_read A r n = call (\<lambda>s. let (e, bs, s) = rm_bulk_read A r n s in ((e, bs), s))"

definition regmap_poll :: "'s regmap_api \<Rightarrow> nat \<Rightarrow> (byte \<Rightarrow> bool) \<Rightarrow> nat \<Rightarrow> nat \<Rightarrow> ('s, int \<times> byte) rprog" where
  "regmap_poll A r p us timeout =
     call (\<lambda>s. let (e, v, s) = rm_read_poll_timeout A r p us timeout s in ((e, v), s))"

abbreviation byte_val :: "byte \<Rightarrow> int" where "byte_val v \<equiv> uint v"
abbreviation MPU_WHO_AM_I :: nat where "MPU_WHO_AM_I \<equiv> 117"
abbreviation MPU_PWR_MGMT1 :: nat where "MPU_PWR_MGMT1 \<equiv> 107"
abbreviation MPU_ACCEL_XOUT_H :: nat where "MPU_ACCEL_XOUT_H \<equiv> 59"
abbreviation MPU_SMPLRT_DIV :: nat where "MPU_SMPLRT_DIV \<equiv> 25"
abbreviation MPU_INT_PIN_CFG :: nat where "MPU_INT_PIN_CFG \<equiv> 55"
abbreviation MPU_INT_ENABLE :: nat where "MPU_INT_ENABLE \<equiv> 56"
abbreviation MPU_INT_STATUS :: nat where "MPU_INT_STATUS \<equiv> 58"

section \<open>The drivers\<close>

text \<open>
  The beginning the seven probes share: \<open>room\<close> is the result of \<open>devm_kzalloc\<close>, \<open>rm\<close> the
  pointer \<open>devm_regmap_init_i2c\<close> returned; \<open>rest\<close> is what the probe does once the chip is
  recognised.
\<close>

definition probe_chip :: "bool \<Rightarrow> int \<Rightarrow> 's regmap_api \<Rightarrow> ('s, int) rprog \<Rightarrow> ('s, int) rprog" where
  "probe_chip room rm A rest = do {
     info ''Probe Started'' 0;
     (if \<not> room then rret (- ENOMEM)
      else if IS_ERR rm then do { info ''Failed to create regmap'' 0; rret rm }
      else do {
        (ret, val) \<leftarrow> regmap_read A MPU_WHO_AM_I;
        (if ret \<noteq> 0 then do { info ''WHO_AM_I read failed'' 0; rret ret }
         else do {
           info ''WHO_AM_I'' (byte_val val);
           (if val \<noteq> 112 \<and> val \<noteq> 113 then do { info ''Unsupported chip'' 0; rret (- ENODEV) }
            else rest) }) }) }"

definition mpu9250_probe_a :: "bool \<Rightarrow> int \<Rightarrow> 's regmap_api \<Rightarrow> ('s, int) rprog" where
  "mpu9250_probe_a room rm A = probe_chip room rm A (do {
     (ret, val) \<leftarrow> regmap_read A MPU_PWR_MGMT1;
     (if ret \<noteq> 0 then do { info ''PWR_MGMT_1 read failed'' 0; rret ret }
      else do {
        info ''PWR_MGMT_1 before'' (byte_val val);
        ret \<leftarrow> call (rm_write A MPU_PWR_MGMT1 1);
        (if ret \<noteq> 0 then do { info ''PWR_MGMT_1 write failed'' 0; rret ret }
         else do {
           (ret, val) \<leftarrow> regmap_read A MPU_PWR_MGMT1;
           (if ret \<noteq> 0 then do { info ''PWR_MGMT_1 verify failed'' 0; rret ret }
            else do {
              info ''PWR_MGMT_1 after'' (byte_val val);
              info ''Probe Successful'' 0;
              rret 0 }) }) }) })"

definition mpu9250_probe_b :: "bool \<Rightarrow> int \<Rightarrow> 's regmap_api \<Rightarrow> ('s, int) rprog" where
  "mpu9250_probe_b room rm A = probe_chip room rm A (do {
     (ret, val) \<leftarrow> regmap_read A MPU_PWR_MGMT1;
     (if ret \<noteq> 0 then do { info ''PWR_MGMT_1 read failed'' 0; rret ret }
      else do {
        info ''PWR_MGMT_1 before'' (byte_val val);
        ret \<leftarrow> call (rm_update_bits A MPU_PWR_MGMT1 64 64);
        (if ret \<noteq> 0 then do { info ''Sleep Enable Failed'' 0; rret ret }
         else do {
           (ret, val) \<leftarrow> regmap_read A MPU_PWR_MGMT1;
           (if ret \<noteq> 0 then do { info ''Sleep Verify Failed'' 0; rret ret }
            else do {
              info ''Sleep ON'' (byte_val val);
              ret \<leftarrow> call (rm_update_bits A MPU_PWR_MGMT1 64 0);
              (if ret \<noteq> 0 then do { info ''Wake Failed'' 0; rret ret }
               else do {
                 (ret, val) \<leftarrow> regmap_read A MPU_PWR_MGMT1;
                 (if ret \<noteq> 0 then do { info ''Wake Verify Failed'' 0; rret ret }
                  else do {
                    info ''Sleep OFF'' (byte_val val);
                    info ''Probe Successful'' 0;
                    rret 0 }) }) }) }) }) })"

text \<open>Two bytes, high first, as a signed 16-bit number.\<close>

definition accel_of :: "byte \<Rightarrow> byte \<Rightarrow> int" where
  "accel_of hi lo = sint (push_bit 8 (ucast hi) OR ucast lo :: 16 word)"

definition mpu9250_probe_c :: "bool \<Rightarrow> int \<Rightarrow> 's regmap_api \<Rightarrow> ('s, int) rprog" where
  "mpu9250_probe_c room rm A = probe_chip room rm A (do {
     (ret, buf) \<leftarrow> regmap_bulk_read A MPU_ACCEL_XOUT_H 6;
     (if ret \<noteq> 0 then do { info ''Bulk Read Failed'' 0; rret ret }
      else do {
        info ''Accel X'' (accel_of (buf ! 0) (buf ! 1));
        info ''Accel Y'' (accel_of (buf ! 2) (buf ! 3));
        info ''Accel Z'' (accel_of (buf ! 4) (buf ! 5));
        info ''Probe Successful'' 0;
        rret 0 }) })"

definition config_d :: "byte list" where
  "config_d = [7, 6, 24, 1]"

definition mpu9250_read_d :: "'s regmap_api \<Rightarrow> ('s, unit) rprog" where
  "mpu9250_read_d A = do {
     (ret, verify) \<leftarrow> regmap_bulk_read A MPU_SMPLRT_DIV 4;
     (if ret \<noteq> 0 then info ''Verification Failed'' 0
      else do {
        info ''SMPLRT_DIV'' (byte_val (verify ! 0));
        info ''CONFIG'' (byte_val (verify ! 1));
        info ''GYRO_CONFIG'' (byte_val (verify ! 2));
        info ''ACCEL_CFG'' (byte_val (verify ! 3)) }) }"

definition mpu9250_probe_d :: "bool \<Rightarrow> int \<Rightarrow> 's regmap_api \<Rightarrow> ('s, int) rprog" where
  "mpu9250_probe_d room rm A = probe_chip room rm A (do {
     info ''Before Bulk Write'' 0;
     mpu9250_read_d A;
     ret \<leftarrow> call (rm_bulk_write A MPU_SMPLRT_DIV config_d);
     (if ret \<noteq> 0 then do { info ''Bulk Write Failed'' 0; rret ret }
      else do {
        info ''After Bulk Write'' 0;
        mpu9250_read_d A;
        info ''Probe Successful'' 0;
        rret 0 }) })"

definition mpu9250_probe_e :: "bool \<Rightarrow> int \<Rightarrow> 's regmap_api \<Rightarrow> ('s, int) rprog" where
  "mpu9250_probe_e room rm A = probe_chip room rm A (do {
     (ret, val) \<leftarrow> regmap_read A MPU_PWR_MGMT1;
     (if ret \<noteq> 0 then do { info ''PWR_MGMT_1 read failed'' 0; rret ret }
      else do {
        info ''PWR_MGMT_1 before'' (byte_val val);
        ret \<leftarrow> call (rm_update_bits A MPU_PWR_MGMT1 64 64);
        (if ret \<noteq> 0 then do { info ''Sleep Enable Failed'' 0; rret ret }
         else do {
           (ret, val) \<leftarrow> regmap_read A MPU_PWR_MGMT1;
           (if ret \<noteq> 0 then do { info ''Sleep Verify Failed'' 0; rret ret }
            else do {
              info ''Sleep ON'' (byte_val val);
              ret \<leftarrow> call (rm_update_bits A MPU_PWR_MGMT1 64 0);
              (if ret \<noteq> 0 then do { info ''Wake Failed'' 0; rret ret }
               else do {
                 (ret, val) \<leftarrow> regmap_poll A MPU_PWR_MGMT1 (\<lambda>val. val AND 64 = 0) 1000 100000;
                 (if ret \<noteq> 0 then do { info ''Wake Timeout'' 0; rret ret }
                  else do {
                    info ''Sleep OFF'' (byte_val val);
                    info ''Probe Successful'' 0;
                    rret 0 }) }) }) }) }) })"

text \<open>
  The interrupt thread of 26f looks at neither of its two results: \<open>junk\<close> and \<open>junk_buf\<close>
  are what its local variables hold when a read stored nothing.
\<close>

definition mpu9250_irq_f :: "byte \<Rightarrow> byte list \<Rightarrow> 's regmap_api \<Rightarrow> ('s, irqreturn_t) rprog" where
  "mpu9250_irq_f junk junk_buf A = do {
     (ret, val) \<leftarrow> regmap_read A MPU_INT_STATUS;
     let status = (if ret = 0 then val else junk);
     (if status AND 1 = 0 then rret IRQ_NONE
      else do {
        (ret, buf) \<leftarrow> regmap_bulk_read A MPU_ACCEL_XOUT_H 6;
        let accel = (if ret = 0 then buf else junk_buf);
        info ''Accel X'' (accel_of (accel ! 0) (accel ! 1));
        info ''Accel Y'' (accel_of (accel ! 2) (accel ! 3));
        info ''Accel Z'' (accel_of (accel ! 4) (accel ! 5));
        rret IRQ_HANDLED }) }"

text \<open>\<open>irq\<close> is \<open>client->irq\<close>, \<open>req\<close> the result of \<open>devm_request_threaded_irq\<close>.\<close>

definition mpu9250_probe_f :: "bool \<Rightarrow> int \<Rightarrow> int \<Rightarrow> int \<Rightarrow> 's regmap_api \<Rightarrow> ('s, int) rprog" where
  "mpu9250_probe_f room rm irq req A = probe_chip room rm A (do {
     ret \<leftarrow> call (rm_write A MPU_INT_PIN_CFG 0);
     (if ret \<noteq> 0 then rret ret
      else do {
        ret \<leftarrow> call (rm_write A MPU_INT_ENABLE 1);
        (if ret \<noteq> 0 then do { info ''INT enable failed'' 0; rret ret }
         else if irq \<le> 0 then do { info ''Invalid IRQ'' 0; rret (- EINVAL) }
         else do {
           info ''IRQ'' irq;
           (if req \<noteq> 0 then do { info ''IRQ Request Failed'' 0; rret req }
            else do { info ''Probe Successful'' 0; rret 0 }) }) }) })"

text \<open>26g: the regmap has a cache; \<open>mpu_suspend\<close> and \<open>mpu_resume\<close> switch it.\<close>

definition mpu9250_probe_g :: "bool \<Rightarrow> int \<Rightarrow> 's regmap_api \<Rightarrow> ('s, int) rprog" where
  "mpu9250_probe_g room rm A = probe_chip room rm A (do {
     (ret, val) \<leftarrow> regmap_read A MPU_PWR_MGMT1;
     (if ret \<noteq> 0 then do { info ''PWR_MGMT_1 read failed'' 0; rret ret }
      else do {
        info ''PWR_MGMT_1 before'' (byte_val val);
        ret \<leftarrow> call (rm_write A MPU_PWR_MGMT1 1);
        (if ret \<noteq> 0 then do { info ''PWR_MGMT_1 write failed'' 0; rret ret }
         else do {
           (ret, val) \<leftarrow> regmap_read A MPU_PWR_MGMT1;
           (if ret \<noteq> 0 then do { info ''PWR_MGMT_1 verify failed'' 0; rret ret }
            else do {
              info ''PWR_MGMT_1 after'' (byte_val val);
              info ''Probe Successful'' 0;
              rret 0 }) }) }) })"

definition mpu_suspend :: "'s regmap_api \<Rightarrow> 's \<Rightarrow> int \<times> 's" where
  "mpu_suspend A s = (0, rc_cache_only A True s)"

definition mpu_resume :: "'s regmap_api \<Rightarrow> 's \<Rightarrow> int \<times> 's" where
  "mpu_resume A s = rc_sync A (rc_mark_dirty A (rc_cache_only A False s))"

section \<open>What regmap documents\<close>

lemma run_call [krun]: "run_state (call f) (s, out) = (fst (f s), snd (f s), out)"
  by (simp add: call_def split: prod.splits)

lemma run_info [krun]: "run_state (info t v) (s, out) = ((), s, out @ [(t, v)])"
  by (simp add: info_def)

lemma run_regmap_read [krun]:
  "run_state (regmap_read A r) (s, out) = ((fst (rm_read A r s), fst (snd (rm_read A r s))), snd (snd (rm_read A r s)), out)"
  by (simp add: regmap_read_def krun split: prod.splits)

lemma run_regmap_bulk_read [krun]:
  "run_state (regmap_bulk_read A r n) (s, out) =
     ((fst (rm_bulk_read A r n s), fst (snd (rm_bulk_read A r n s))), snd (snd (rm_bulk_read A r n s)), out)"
  by (simp add: regmap_bulk_read_def krun split: prod.splits)

lemma run_regmap_poll [krun]:
  "run_state (regmap_poll A r p a b) (s, out) =
     ((fst (rm_read_poll_timeout A r p a b s), fst (snd (rm_read_poll_timeout A r p a b s))),
      snd (snd (rm_read_poll_timeout A r p a b s)), out)"
  by (simp add: regmap_poll_def krun split: prod.splits)

text \<open>
  Without a cache, on a chip whose registers (seen by \<open>regs\<close>) hold what is written: an
  access that returns 0 has read or stored what it names and changed nothing else; a failed
  read changes nothing.
\<close>

definition regmap_ok :: "'s regmap_api \<Rightarrow> ('s \<Rightarrow> nat \<Rightarrow> byte) \<Rightarrow> bool" where
  "regmap_ok A regs \<longleftrightarrow>
     (\<forall>r s. regs (snd (snd (rm_read A r s))) = regs s \<and>
        (fst (rm_read A r s) = 0 \<longrightarrow> fst (snd (rm_read A r s)) = regs s r)) \<and>
     (\<forall>r v s. fst (rm_write A r v s) = 0 \<longrightarrow> regs (snd (rm_write A r v s)) = (regs s)(r := v)) \<and>
     (\<forall>r m v s. fst (rm_update_bits A r m v s) = 0 \<longrightarrow>
        regs (snd (rm_update_bits A r m v s)) = (regs s)(r := (regs s r AND NOT m) OR (v AND m))) \<and>
     (\<forall>r n s. regs (snd (snd (rm_bulk_read A r n s))) = regs s \<and>
        (fst (rm_bulk_read A r n s) = 0 \<longrightarrow> fst (snd (rm_bulk_read A r n s)) = map (regs s) [r ..< r + n])) \<and>
     (\<forall>r bs s. fst (rm_bulk_write A r bs s) = 0 \<longrightarrow>
        regs (snd (rm_bulk_write A r bs s)) =
          (\<lambda>k. if r \<le> k \<and> k < r + length bs then bs ! (k - r) else regs s k)) \<and>
     (\<forall>r p a b s. regs (snd (snd (rm_read_poll_timeout A r p a b s))) = regs s \<and>
        (fst (rm_read_poll_timeout A r p a b s) = 0 \<longrightarrow>
           p (fst (snd (rm_read_poll_timeout A r p a b s))) \<and>
           fst (snd (rm_read_poll_timeout A r p a b s)) = regs s r))"

text \<open>A regmap on an array of registers, and one whose call \<open>k\<close> of the six fails with \<open>e\<close>.\<close>

definition regmap_array :: "(nat \<Rightarrow> byte) regmap_api" where
  "regmap_array = \<lparr>rm_read = (\<lambda>r s. (0, s r, s)), rm_write = (\<lambda>r v s. (0, s(r := v))),
     rm_update_bits = (\<lambda>r m v s. (0, s(r := (s r AND NOT m) OR (v AND m)))),
     rm_bulk_read = (\<lambda>r n s. (0, map s [r ..< r + n], s)),
     rm_bulk_write = (\<lambda>r bs s. (0, \<lambda>k. if r \<le> k \<and> k < r + length bs then bs ! (k - r) else s k)),
     rm_read_poll_timeout = (\<lambda>r p a b s. (if p (s r) then 0 else - ETIMEDOUT, s r, s)),
     rc_cache_only = (\<lambda>b s. s), rc_mark_dirty = (\<lambda>s. s), rc_sync = (\<lambda>s. (0, s))\<rparr>"

locale regmap_chip =
  fixes A :: "'s regmap_api" and regs :: "'s \<Rightarrow> nat \<Rightarrow> byte"
  assumes regmap_laws: "regmap_ok A regs"
begin

lemma read_law:
  "regs (snd (snd (rm_read A r s))) = regs s"
  "fst (rm_read A r s) = 0 \<Longrightarrow> fst (snd (rm_read A r s)) = regs s r"
  using regmap_laws unfolding regmap_ok_def by blast+

lemma write_law: "fst (rm_write A r v s) = 0 \<Longrightarrow> regs (snd (rm_write A r v s)) = (regs s)(r := v)"
  using regmap_laws unfolding regmap_ok_def by blast

lemma update_law:
  "fst (rm_update_bits A r m v s) = 0 \<Longrightarrow>
   regs (snd (rm_update_bits A r m v s)) = (regs s)(r := (regs s r AND NOT m) OR (v AND m))"
  using regmap_laws unfolding regmap_ok_def by blast

lemma bulk_read_law:
  "regs (snd (snd (rm_bulk_read A r n s))) = regs s"
  "fst (rm_bulk_read A r n s) = 0 \<Longrightarrow> fst (snd (rm_bulk_read A r n s)) = map (regs s) [r ..< r + n]"
  using regmap_laws unfolding regmap_ok_def by blast+

lemma bulk_write_law:
  "fst (rm_bulk_write A r bs s) = 0 \<Longrightarrow> regs (snd (rm_bulk_write A r bs s)) =
     (\<lambda>k. if r \<le> k \<and> k < r + length bs then bs ! (k - r) else regs s k)"
  using regmap_laws unfolding regmap_ok_def by blast

lemma poll_law:
  "regs (snd (snd (rm_read_poll_timeout A r p a b s))) = regs s"
  "fst (rm_read_poll_timeout A r p a b s) = 0 \<Longrightarrow> p (fst (snd (rm_read_poll_timeout A r p a b s))) \<and>
     fst (snd (rm_read_poll_timeout A r p a b s)) = regs s r"
  using regmap_laws unfolding regmap_ok_def by blast+

lemmas laws = read_law write_law update_law bulk_read_law bulk_write_law poll_law

end

interpretation chip_array: regmap_chip regmap_array "\<lambda>s. s"
  by unfold_locales (simp add: regmap_ok_def regmap_array_def)

section \<open>The drivers on a chip without a cache\<close>

lemma sleep_bit:
  fixes v :: byte
  shows "v AND - 65 OR 64 = v OR 64" and "(v AND - 65 OR 64) AND - 65 = v AND - 65"
    and "(v OR 64) AND - 65 = v AND - 65"
proof -
  have n: "- 65 = (NOT 64 :: byte)" by simp
  show "v AND - 65 OR 64 = v OR 64" unfolding n
    by (rule bit_word_eqI) (auto simp only: bit_and_iff bit_or_iff bit_not_iff possible_bit_word)
  show "(v AND - 65 OR 64) AND - 65 = v AND - 65" unfolding n
    by (rule bit_word_eqI) (auto simp only: bit_and_iff bit_or_iff bit_not_iff possible_bit_word)
  show "(v OR 64) AND - 65 = v AND - 65" unfolding n
    by (rule bit_word_eqI) (auto simp only: bit_and_iff bit_or_iff bit_not_iff possible_bit_word)
qed

context regmap_chip
begin

lemma probe_chip_ok:
  assumes "run_state (probe_chip room rm A rest) (s, out) = (0, s', out')"
  obtains s1 where "regs s1 = regs s" and "regs s MPU_WHO_AM_I \<in> {112, 113}"
    and "run_state rest (s1, out @ [(''Probe Started'', 0), (''WHO_AM_I'', byte_val (regs s MPU_WHO_AM_I))]) = (0, s', out')"
  using assms read_law[of MPU_WHO_AM_I s]
  by (intro that[of "snd (snd (rm_read A MPU_WHO_AM_I s))"]) (auto simp: probe_chip_def krun split: if_splits)

lemma probe_a_ok:
  assumes "run_state (mpu9250_probe_a room rm A) (s, []) = (0, s', out)"
  shows "regs s MPU_WHO_AM_I \<in> {112, 113} \<and> regs s' = (regs s)(MPU_PWR_MGMT1 := 1) \<and>
    out = [(''Probe Started'', 0), (''WHO_AM_I'', byte_val (regs s MPU_WHO_AM_I)),
      (''PWR_MGMT_1 before'', byte_val (regs s MPU_PWR_MGMT1)), (''PWR_MGMT_1 after'', 1),
      (''Probe Successful'', 0)]"
  using assms unfolding mpu9250_probe_a_def
  by (elim probe_chip_ok) (auto simp: krun laws split: if_splits)

lemma probe_b_ok:
  assumes "run_state (mpu9250_probe_b room rm A) (s, []) = (0, s', out)"
  shows "regs s MPU_WHO_AM_I \<in> {112, 113} \<and>
    regs s' = (regs s)(MPU_PWR_MGMT1 := regs s MPU_PWR_MGMT1 AND NOT 64) \<and>
    out = [(''Probe Started'', 0), (''WHO_AM_I'', byte_val (regs s MPU_WHO_AM_I)),
      (''PWR_MGMT_1 before'', byte_val (regs s MPU_PWR_MGMT1)),
      (''Sleep ON'', byte_val (regs s MPU_PWR_MGMT1 OR 64)),
      (''Sleep OFF'', byte_val (regs s MPU_PWR_MGMT1 AND NOT 64)), (''Probe Successful'', 0)]"
  using assms unfolding mpu9250_probe_b_def
  by (elim probe_chip_ok) (auto simp: krun laws sleep_bit split: if_splits)

lemma probe_e_ok:
  assumes "run_state (mpu9250_probe_e room rm A) (s, []) = (0, s', out)"
  shows "regs s MPU_WHO_AM_I \<in> {112, 113} \<and>
    regs s' = (regs s)(MPU_PWR_MGMT1 := regs s MPU_PWR_MGMT1 AND NOT 64) \<and>
    out = [(''Probe Started'', 0), (''WHO_AM_I'', byte_val (regs s MPU_WHO_AM_I)),
      (''PWR_MGMT_1 before'', byte_val (regs s MPU_PWR_MGMT1)),
      (''Sleep ON'', byte_val (regs s MPU_PWR_MGMT1 OR 64)),
      (''Sleep OFF'', byte_val (regs s MPU_PWR_MGMT1 AND NOT 64)), (''Probe Successful'', 0)]"
  using assms unfolding mpu9250_probe_e_def
  by (elim probe_chip_ok) (auto simp: krun laws sleep_bit split: if_splits)

lemma probe_c_ok:
  assumes "run_state (mpu9250_probe_c room rm A) (s, []) = (0, s', out)"
  shows "regs s' = regs s \<and>
    drop 2 out = [(''Accel X'', accel_of (regs s 59) (regs s 60)), (''Accel Y'', accel_of (regs s 61) (regs s 62)),
      (''Accel Z'', accel_of (regs s 63) (regs s 64)), (''Probe Successful'', 0)]"
  using assms unfolding mpu9250_probe_c_def
  by (elim probe_chip_ok) (auto simp: krun laws split: if_splits)

lemma probe_d_ok:
  assumes "run_state (mpu9250_probe_d room rm A) (s, []) = (0, s', out)"
  shows "regs s' = (regs s)(25 := 7, 26 := 6, 27 := 24, 28 := 1) \<and>
    ((''Verification Failed'', 0) \<notin> set out \<longrightarrow>
     drop 7 out = [(''After Bulk Write'', 0), (''SMPLRT_DIV'', 7), (''CONFIG'', 6), (''GYRO_CONFIG'', 24),
       (''ACCEL_CFG'', 1), (''Probe Successful'', 0)])"
  using assms unfolding mpu9250_probe_d_def
  by (elim probe_chip_ok)
    (auto simp: krun laws mpu9250_read_d_def config_d_def fun_eq_iff nth_Cons' split: if_splits)

end

lemma accel_of_halves: "accel_of (ucast (drop_bit 8 x)) (ucast (x :: 16 word)) = sint x"
proof -
  have "(push_bit 8 (ucast (ucast (drop_bit 8 x) :: byte)) OR ucast (ucast x :: byte) :: 16 word) = x"
    by (rule bit_word_eqI) (auto simp: bit_simps)
  then show ?thesis by (simp add: accel_of_def)
qed

section \<open>The cached regmap\<close>

text \<open>
  With a cache (\<open>cached\<close>: the values it holds; \<open>only\<close>: the cache-only mode; \<open>chip\<close>: the
  registers of the device): a read finds a cached register in the cache; a write that returns
  0 has put the value in the cache, and in cache-only mode has left the chip alone; a sync
  that returns 0 outside that mode, after everything was marked dirty, has put every cached
  value in the chip. What a write does to the chip otherwise is the chip's affair.
\<close>

definition regcache_ok ::
    "'s regmap_api \<Rightarrow> ('s \<Rightarrow> nat \<Rightarrow> byte) \<Rightarrow> ('s \<Rightarrow> nat \<Rightarrow> byte option) \<Rightarrow> ('s \<Rightarrow> bool) \<Rightarrow> bool" where
  "regcache_ok A chip cached only \<longleftrightarrow>
     (\<forall>r s v. cached s r = Some v \<longrightarrow> rm_read A r s = (0, v, s)) \<and>
     (\<forall>r v s. fst (rm_write A r v s) = 0 \<longrightarrow>
        cached (snd (rm_write A r v s)) = (cached s)(r := Some v) \<and>
        only (snd (rm_write A r v s)) = only s \<and>
        (only s \<longrightarrow> chip (snd (rm_write A r v s)) = chip s)) \<and>
     (\<forall>b s. only (rc_cache_only A b s) = b \<and> cached (rc_cache_only A b s) = cached s \<and>
        chip (rc_cache_only A b s) = chip s) \<and>
     (\<forall>s. only (rc_mark_dirty A s) = only s \<and> cached (rc_mark_dirty A s) = cached s \<and>
        chip (rc_mark_dirty A s) = chip s) \<and>
     (\<forall>s r v. \<not> only s \<longrightarrow> fst (rc_sync A (rc_mark_dirty A s)) = 0 \<longrightarrow> cached s r = Some v \<longrightarrow>
        chip (snd (rc_sync A (rc_mark_dirty A s))) r = v)"

text \<open>A chip with a cache in front of it; the registers in \<open>stuck\<close> do not take what is written.\<close>

record cached_chip =
  cc_chip :: "nat \<Rightarrow> byte"
  cc_cache :: "nat \<Rightarrow> byte option"
  cc_only :: bool

definition regmap_cached :: "nat set \<Rightarrow> cached_chip regmap_api" where
  "regmap_cached stuck = \<lparr>
     rm_read = (\<lambda>r s. case cc_cache s r of
        Some v \<Rightarrow> (0, v, s)
      | None \<Rightarrow> if cc_only s then (- EBUSY, 0, s)
                else (0, cc_chip s r, s\<lparr>cc_cache := (cc_cache s)(r := Some (cc_chip s r))\<rparr>)),
     rm_write = (\<lambda>r v s. (0, s\<lparr>cc_cache := (cc_cache s)(r := Some v),
        cc_chip := (if cc_only s \<or> r \<in> stuck then cc_chip s else (cc_chip s)(r := v))\<rparr>)),
     rm_update_bits = (\<lambda>r m v s. (- EIO, s)), rm_bulk_read = (\<lambda>r n s. (- EIO, [], s)),
     rm_bulk_write = (\<lambda>r bs s. (- EIO, s)), rm_read_poll_timeout = (\<lambda>r p a b s. (- EIO, 0, s)),
     rc_cache_only = (\<lambda>b s. s\<lparr>cc_only := b\<rparr>), rc_mark_dirty = (\<lambda>s. s),
     rc_sync = (\<lambda>s. if cc_only s then (- EBUSY, s)
        else (0, s\<lparr>cc_chip := (\<lambda>r. case cc_cache s r of Some v \<Rightarrow> v | None \<Rightarrow> cc_chip s r)\<rparr>))\<rparr>"

text \<open>Writes made one after another, each returning 0.\<close>

fun all_written :: "'s regmap_api \<Rightarrow> (nat \<times> byte) list \<Rightarrow> 's \<Rightarrow> 's \<Rightarrow> bool" where
  "all_written A [] s s' \<longleftrightarrow> s' = s"
| "all_written A ((r, v) # ws) s s' \<longleftrightarrow>
     fst (rm_write A r v s) = 0 \<and> all_written A ws (snd (rm_write A r v s)) s'"

locale regmap_cache =
  fixes A :: "'s regmap_api" and chip :: "'s \<Rightarrow> nat \<Rightarrow> byte"
    and cached :: "'s \<Rightarrow> nat \<Rightarrow> byte option" and only :: "'s \<Rightarrow> bool"
  assumes cache_laws: "regcache_ok A chip cached only"
begin

lemma cached_read: "cached s r = Some v \<Longrightarrow> rm_read A r s = (0, v, s)"
  using cache_laws unfolding regcache_ok_def by blast

lemma cached_write:
  assumes "fst (rm_write A r v s) = 0"
  shows "cached (snd (rm_write A r v s)) = (cached s)(r := Some v)"
    and "only (snd (rm_write A r v s)) = only s"
    and "only s \<Longrightarrow> chip (snd (rm_write A r v s)) = chip s"
  using cache_laws assms unfolding regcache_ok_def by blast+

lemma cache_modes:
  "only (rc_cache_only A b s) = b" "cached (rc_cache_only A b s) = cached s"
  "chip (rc_cache_only A b s) = chip s"
  using cache_laws unfolding regcache_ok_def by blast+

lemma synced:
  "\<not> only s \<Longrightarrow> fst (rc_sync A (rc_mark_dirty A s)) = 0 \<Longrightarrow> cached s r = Some v \<Longrightarrow>
   chip (snd (rc_sync A (rc_mark_dirty A s))) r = v"
  using cache_laws unfolding regcache_ok_def by blast

lemma all_written_suspended:
  "all_written A ws s s' \<Longrightarrow> only s \<Longrightarrow> only s' \<and> chip s' = chip s \<and> cached s' = cached s ++ map_of (rev ws)"
proof (induction ws arbitrary: s)
  case (Cons w ws)
  obtain r v where w: "w = (r, v)" by (rule prod.exhaust)
  with Cons show ?case using cached_write[of r v s] by (auto simp: fun_eq_iff map_add_def split: option.splits)
qed (simp add: map_add_def)

lemma resumed:
  assumes "mpu_resume A s = (0, s')" and "cached s r = Some v"
  shows "chip s' r = v"
  using assms synced[of "rc_cache_only A False s" r v] by (simp add: mpu_resume_def cache_modes)

lemma probe_g_caches:
  assumes "run_state (mpu9250_probe_g room rm A) (s, out) = (0, s', out')"
  shows "cached s' MPU_PWR_MGMT1 = Some 1"
proof -
  have w: "cached (snd (rm_write A MPU_PWR_MGMT1 1 t)) MPU_PWR_MGMT1 = Some 1"
    if "fst (rm_write A MPU_PWR_MGMT1 1 t) = 0" for t
    using cached_write(1)[OF that] by simp
  from assms show ?thesis
    by (auto simp: mpu9250_probe_g_def probe_chip_def krun cached_read[OF w] w
      split: if_splits prod.splits)
qed

end

interpretation cached_chip: regmap_cache "regmap_cached stuck" cc_chip cc_cache cc_only for stuck
  by unfold_locales (auto simp: regcache_ok_def regmap_cached_def split: option.splits)

section \<open>The configuration of the regmap\<close>

text \<open>
  What the drivers hand to \<open>devm_regmap_init_i2c\<close>. \<open>checked\<close> is a regmap with the test the
  kernel documents for \<open>max_register\<close>: an access to a register beyond it, or a transfer that
  ends beyond it, is refused with \<open>-EIO\<close> and does not reach the bus.
\<close>

datatype regcache_type = REGCACHE_NONE | REGCACHE_RBTREE

record regmap_config =
  reg_bits :: nat
  val_bits :: nat
  max_register :: nat
  cache_type :: regcache_type

definition checked :: "regmap_config \<Rightarrow> 's regmap_api \<Rightarrow> 's regmap_api" where
  "checked c A = A\<lparr>
     rm_read := \<lambda>r s. if r \<le> max_register c then rm_read A r s else (- EIO, 0, s),
     rm_write := \<lambda>r v s. if r \<le> max_register c then rm_write A r v s else (- EIO, s),
     rm_update_bits := \<lambda>r m v s. if r \<le> max_register c then rm_update_bits A r m v s else (- EIO, s),
     rm_bulk_read := \<lambda>r n s. if r + n \<le> max_register c + 1 then rm_bulk_read A r n s else (- EIO, [], s),
     rm_bulk_write := \<lambda>r bs s. if r + length bs \<le> max_register c + 1 then rm_bulk_write A r bs s else (- EIO, s),
     rm_read_poll_timeout := \<lambda>r p a b s.
       if r \<le> max_register c then rm_read_poll_timeout A r p a b s else (- EIO, 0, s)\<rparr>"

definition mpu_regmap_config_a :: regmap_config where
  "mpu_regmap_config_a = \<lparr>reg_bits = 8, val_bits = 8, max_register = 127, cache_type = REGCACHE_NONE\<rparr>"

definition mpu_regmap_config_b :: regmap_config where
  "mpu_regmap_config_b = \<lparr>reg_bits = 8, val_bits = 8, max_register = 127, cache_type = REGCACHE_NONE\<rparr>"

definition mpu_regmap_config_c :: regmap_config where
  "mpu_regmap_config_c = \<lparr>reg_bits = 8, val_bits = 8, max_register = 127, cache_type = REGCACHE_NONE\<rparr>"

definition mpu_regmap_config_d :: regmap_config where
  "mpu_regmap_config_d = \<lparr>reg_bits = 8, val_bits = 8, max_register = 127, cache_type = REGCACHE_NONE\<rparr>"

definition mpu_regmap_config_e :: regmap_config where
  "mpu_regmap_config_e = \<lparr>reg_bits = 8, val_bits = 8, max_register = 127, cache_type = REGCACHE_NONE\<rparr>"

definition mpu_regmap_config_f :: regmap_config where
  "mpu_regmap_config_f = \<lparr>reg_bits = 8, val_bits = 8, max_register = 127, cache_type = REGCACHE_NONE\<rparr>"

definition mpu_regmap_config_g :: regmap_config where
  "mpu_regmap_config_g = \<lparr>reg_bits = 8, val_bits = 8, max_register = 127, cache_type = REGCACHE_RBTREE\<rparr>"

lemma checked_read: "r \<le> max_register c \<Longrightarrow> regmap_read (checked c A) r = regmap_read A r"
  and checked_write: "r \<le> max_register c \<Longrightarrow> call (rm_write (checked c A) r v) = call (rm_write A r v)"
  and checked_update: "r \<le> max_register c \<Longrightarrow> call (rm_update_bits (checked c A) r m v) = call (rm_update_bits A r m v)"
  and checked_bulk_read: "r + n \<le> max_register c + 1 \<Longrightarrow> regmap_bulk_read (checked c A) r n = regmap_bulk_read A r n"
  and checked_bulk_write: "r + length bs \<le> max_register c + 1 \<Longrightarrow>
    call (rm_bulk_write (checked c A) r bs) = call (rm_bulk_write A r bs)"
  and checked_poll: "r \<le> max_register c \<Longrightarrow> regmap_poll (checked c A) r p a b = regmap_poll A r p a b"
  by (simp_all add: checked_def regmap_read_def regmap_bulk_read_def regmap_poll_def call_def)

lemmas checked_simps = checked_read checked_write checked_update checked_bulk_read checked_bulk_write checked_poll

section \<open>Properties\<close>

text \<open>A successful probe of 26b or 26e recognised the chip, set the sleep bit and cleared it
  again: it prints the register before, with the bit and without it, and leaves every other
  bit and register as it was; a successful probe of 26a has read back the 1 it wrote.\<close>

theorem mpu_sleep_cycle:
  assumes "regmap_ok A regs"
    and "probe = mpu9250_probe_b room rm A \<or> probe = mpu9250_probe_e room rm A"
    and "run_state probe (s, []) = (0, s', out)"
    and "run_state (mpu9250_probe_a room rm A) (s, []) = (0, sa, outa)"
  shows "regs s MPU_WHO_AM_I \<in> {112, 113} \<and>
    regs s' = (regs s)(MPU_PWR_MGMT1 := regs s MPU_PWR_MGMT1 AND NOT 64) \<and>
    drop 2 out = [(''PWR_MGMT_1 before'', byte_val (regs s MPU_PWR_MGMT1)),
      (''Sleep ON'', byte_val (regs s MPU_PWR_MGMT1 OR 64)),
      (''Sleep OFF'', byte_val (regs s MPU_PWR_MGMT1 AND NOT 64)), (''Probe Successful'', 0)] \<and>
    regs sa = (regs s)(MPU_PWR_MGMT1 := 1) \<and> (''PWR_MGMT_1 after'', 1) \<in> set outa"
proof -
  have chip: "regmap_chip A regs" using assms(1) by (rule regmap_chip.intro)
  from assms(2) show ?thesis
  proof
    assume p: "probe = mpu9250_probe_b room rm A"
    show ?thesis using regmap_chip.probe_b_ok[OF chip assms(3)[unfolded p]] regmap_chip.probe_a_ok[OF chip assms(4)] by simp
  next
    assume p: "probe = mpu9250_probe_e room rm A"
    show ?thesis using regmap_chip.probe_e_ok[OF chip assms(3)[unfolded p]] regmap_chip.probe_a_ok[OF chip assms(4)] by simp
  qed
qed

theorem mpu_sleep_cycle_witness:
  "\<exists>s' out. run_state (mpu9250_probe_e True 1 regmap_array) (\<lambda>r. 113, []) = (0, s', out) \<and>
     s' MPU_PWR_MGMT1 = 49"
proof -
  have ok: "regmap_ok regmap_array (\<lambda>s. s)" by (rule chip_array.regmap_laws)
  obtain s' out sa outa where r: "run_state (mpu9250_probe_e True 1 regmap_array) (\<lambda>r. 113, []) = (0, s', out)"
      "run_state (mpu9250_probe_a True 1 regmap_array) (\<lambda>r. 113, []) = (0, sa, outa)"
    by (simp add: mpu9250_probe_e_def mpu9250_probe_a_def probe_chip_def krun regmap_array_def)
  show ?thesis using mpu_sleep_cycle[OF ok disjI2[OF refl] r] r(1) by auto
qed

text \<open>C29. A successful probe of 26c prints the three accelerations as the signed 16-bit numbers
  the chip holds, high byte first; one of 26d has put its four bytes in the registers from
  0x19 on, nothing else changed, and when both readings worked the second prints them.\<close>

theorem mpu_bulk_transfers:
  assumes "regmap_ok A regs"
    and "run_state (mpu9250_probe_c room rm A) (s, []) = (0, sc, outc)"
    and "regs s 59 = ucast (drop_bit 8 x)" and "regs s 60 = ucast (x :: 16 word)"
    and "run_state (mpu9250_probe_d room rm A) (s, []) = (0, sd, outd)"
    and "(''Verification Failed'', 0) \<notin> set outd"
  shows "regs sc = regs s \<and> (''Accel X'', sint x) \<in> set outc \<and>
    (''Accel Y'', accel_of (regs s 61) (regs s 62)) \<in> set outc \<and>
    (''Accel Z'', accel_of (regs s 63) (regs s 64)) \<in> set outc \<and>
    regs sd = (regs s)(25 := 7, 26 := 6, 27 := 24, 28 := 1) \<and>
    drop 7 outd = [(''After Bulk Write'', 0), (''SMPLRT_DIV'', 7), (''CONFIG'', 6), (''GYRO_CONFIG'', 24),
      (''ACCEL_CFG'', 1), (''Probe Successful'', 0)]"
proof -
  have chip: "regmap_chip A regs" using assms(1) by (rule regmap_chip.intro)
  note c = regmap_chip.probe_c_ok[OF chip assms(2)]
  have "set (drop 2 outc) \<subseteq> set outc" by (rule set_drop_subset)
  then have "(''Accel X'', sint x) \<in> set outc" "(''Accel Y'', accel_of (regs s 61) (regs s 62)) \<in> set outc"
      "(''Accel Z'', accel_of (regs s 63) (regs s 64)) \<in> set outc"
    using c assms(3,4) accel_of_halves[of x] by auto
  with c regmap_chip.probe_d_ok[OF chip assms(5)] assms(6) show ?thesis by blast
qed

theorem mpu_bulk_transfers_witness:
  "\<exists>sc outc. run_state (mpu9250_probe_c True 1 regmap_array) ((\<lambda>r. 113)(59 := 255, 60 := 254), []) = (0, sc, outc) \<and>
     (''Accel X'', - 2) \<in> set outc"
proof -
  let ?s = "(\<lambda>r :: nat. 113 :: byte)(59 := 255, 60 := 254)"
  have ok: "regmap_ok regmap_array (\<lambda>s. s)" by (rule chip_array.regmap_laws)
  obtain sc outc where c: "run_state (mpu9250_probe_c True 1 regmap_array) (?s, []) = (0, sc, outc)"
    by (simp add: mpu9250_probe_c_def probe_chip_def krun regmap_array_def)
  obtain sd outd where d: "run_state (mpu9250_probe_d True 1 regmap_array) (?s, []) = (0, sd, outd)"
      "(''Verification Failed'', 0) \<notin> set outd"
    by (simp add: mpu9250_probe_d_def mpu9250_read_d_def probe_chip_def krun regmap_array_def)
  have x: "?s 59 = ucast (drop_bit 8 (65534 :: 16 word))" "?s 60 = ucast (65534 :: 16 word)" by simp_all
  have "sint (65534 :: 16 word) = - 2" by simp
  then show ?thesis using mpu_bulk_transfers[OF ok c x d] c by auto
qed

text \<open>26f does not notice failures: when the status register cannot be read, its interrupt
  thread decides on whatever its local variable held and, with bit 0 set there, prints three
  numbers from an uninitialised buffer as data; and when the interrupt could not be requested
  the probe fails with the interrupt of the chip left enabled.\<close>

theorem mpu_irq_failures:
  assumes "fst (rm_read A MPU_INT_STATUS s) \<noteq> 0" and "junk AND 1 \<noteq> 0"
    and "\<And>s. fst (rm_bulk_read A MPU_ACCEL_XOUT_H 6 s) \<noteq> 0"
    and "regmap_ok A' regs" and "run_state (mpu9250_probe_f True 1 irq req A') (t, []) = (req, t', out')"
    and "req < 0" and "(''IRQ Request Failed'', 0) \<in> set out'"
  shows "\<exists>s'. run_state (mpu9250_irq_f junk junk_buf A) (s, out) = (IRQ_HANDLED, s',
      out @ [(''Accel X'', accel_of (junk_buf ! 0) (junk_buf ! 1)), (''Accel Y'', accel_of (junk_buf ! 2) (junk_buf ! 3)),
             (''Accel Z'', accel_of (junk_buf ! 4) (junk_buf ! 5))]) \<and>
    regs t' MPU_INT_ENABLE = 1"
proof -
  have w: "fst (rm_write A' r v x) = 0 \<Longrightarrow> regs (snd (rm_write A' r v x)) = (regs x)(r := v)" for r v x
    by (rule regmap_chip.write_law[OF regmap_chip.intro[OF assms(4)]])
  have "regs t' MPU_INT_ENABLE = 1"
    using assms(5-7) by (auto simp: mpu9250_probe_f_def probe_chip_def krun w split: if_splits)
  then show ?thesis using assms(1-3) by (simp add: mpu9250_irq_f_def krun)
qed

theorem mpu_irq_failures_witness:
  "\<exists>s'. run_state (mpu9250_irq_f 1 [0, 1, 0, 2, 0, 3] (regmap_cached {})) (\<lparr>cc_chip = \<lambda>r. 0, cc_cache = \<lambda>r. None, cc_only = True\<rparr>, []) =
     (IRQ_HANDLED, s', [(''Accel X'', 1), (''Accel Y'', 2), (''Accel Z'', 3)])"
proof -
  let ?s = "\<lparr>cc_chip = \<lambda>r. 0, cc_cache = \<lambda>r. None, cc_only = True\<rparr>"
  have b: "fst (rm_read (regmap_cached {}) MPU_INT_STATUS ?s) \<noteq> 0"
      "(1 :: byte) AND 1 \<noteq> 0" "\<And>s. fst (rm_bulk_read (regmap_cached {}) MPU_ACCEL_XOUT_H 6 s) \<noteq> 0"
    by (simp_all add: regmap_cached_def)
  have ok: "regmap_ok regmap_array (\<lambda>s. s)" by (rule chip_array.regmap_laws)
  obtain t' out' where f: "run_state (mpu9250_probe_f True 1 5 (- EBUSY) regmap_array) (\<lambda>r. 113, []) = (- EBUSY, t', out')"
      "(''IRQ Request Failed'', 0) \<in> set out'"
    by (simp add: mpu9250_probe_f_def probe_chip_def krun regmap_array_def)
  have e: "- EBUSY < (0 :: int)" by simp
  show ?thesis using mpu_irq_failures[OF b ok f(1) e f(2), of "[0, 1, 0, 2, 0, 3]" "[]"]
    by (simp add: accel_of_def)
qed

text \<open>C16. Suspend and resume of 26g: registers written while the device is suspended do not touch
  the chip, and after a resume that returns 0 the chip holds the last value written to each of
  them and every other cached value, whatever it lost while it had no power.\<close>

theorem suspend_resume_restores:
  assumes "regcache_ok A chip cached only"
    and "mpu_suspend A s = (r, s1)" and "all_written A ws s1 s2"
    and "cached s3 = cached s2" and "only s3 = only s2" and "mpu_resume A s3 = (0, s4)"
    and "(cached s ++ map_of (rev ws)) k = Some v"
  shows "r = 0 \<and> chip s2 = chip s \<and> chip s4 k = v"
proof -
  have loc: "regmap_cache A chip cached only" using assms(1) by (rule regmap_cache.intro)
  have s1: "r = 0" "only s1" "chip s1 = chip s" "cached s1 = cached s"
    using assms(2) regmap_cache.cache_modes[OF loc] by (auto simp: mpu_suspend_def)
  from regmap_cache.all_written_suspended[OF loc assms(3) s1(2)]
  have "chip s2 = chip s" "cached s3 k = Some v" using s1 assms(4,7) by auto
  with s1(1) regmap_cache.resumed[OF loc assms(6)] show ?thesis by blast
qed

theorem suspend_resume_restores_witness:
  "cc_chip (snd (mpu_resume (regmap_cached {}) \<lparr>cc_chip = \<lambda>r. 0, cc_cache = [107 \<mapsto> 1, 25 \<mapsto> 7], cc_only = True\<rparr>)) 25 = 7"
proof -
  let ?A = "regmap_cached {}" and ?s = "\<lparr>cc_chip = \<lambda>r. 9, cc_cache = [107 \<mapsto> 1], cc_only = False\<rparr>"
  let ?s3 = "\<lparr>cc_chip = \<lambda>r. 0, cc_cache = [107 \<mapsto> 1, 25 \<mapsto> 7], cc_only = True\<rparr>"
  have ok: "regcache_ok ?A cc_chip cc_cache cc_only" by (rule cached_chip.cache_laws)
  have su: "mpu_suspend ?A ?s = (0, ?s\<lparr>cc_only := True\<rparr>)" by (simp add: mpu_suspend_def regmap_cached_def)
  have wr: "all_written ?A [(25, 7)] (?s\<lparr>cc_only := True\<rparr>) (snd (rm_write ?A 25 7 (?s\<lparr>cc_only := True\<rparr>)))"
    by (simp add: regmap_cached_def)
  have po: "cc_cache ?s3 = cc_cache (snd (rm_write ?A 25 7 (?s\<lparr>cc_only := True\<rparr>)))"
      "cc_only ?s3 = cc_only (snd (rm_write ?A 25 7 (?s\<lparr>cc_only := True\<rparr>)))"
    by (simp_all add: regmap_cached_def)
  have re: "mpu_resume ?A ?s3 = (0, snd (mpu_resume ?A ?s3))" by (simp add: mpu_resume_def regmap_cached_def)
  have v: "(cc_cache ?s ++ map_of (rev [(25, 7)])) 25 = Some 7" by simp
  show ?thesis using suspend_resume_restores[OF ok su wr po re v] by simp
qed

text \<open>The read-back in the probe of 26g verifies nothing: the register is cached, so after a
  write that returned 0 the probe prints 1 and succeeds whatever the chip holds; on a chip
  that did not take the value it still does.\<close>

theorem probe_g_reads_cache:
  assumes "regcache_ok A chip cached only" and "cached s MPU_WHO_AM_I = Some 113"
    and "cached s MPU_PWR_MGMT1 = Some v" and "fst (rm_write A MPU_PWR_MGMT1 1 s) = 0"
  shows "\<exists>s' out. run_state (mpu9250_probe_g True 1 A) (s, []) = (0, s', out) \<and>
    (''PWR_MGMT_1 after'', 1) \<in> set out \<and> chip s' = chip (snd (rm_write A MPU_PWR_MGMT1 1 s))"
proof -
  have loc: "regmap_cache A chip cached only" using assms(1) by (rule regmap_cache.intro)
  have c: "cached (snd (rm_write A MPU_PWR_MGMT1 1 s)) MPU_PWR_MGMT1 = Some 1"
    using regmap_cache.cached_write(1)[OF loc assms(4)] by simp
  show ?thesis
    using regmap_cache.cached_read[OF loc assms(2)] regmap_cache.cached_read[OF loc assms(3)]
      regmap_cache.cached_read[OF loc c] assms(4)
    by (simp add: mpu9250_probe_g_def probe_chip_def krun)
qed

theorem probe_g_reads_cache_witness:
  "\<exists>s' out. run_state (mpu9250_probe_g True 1 (regmap_cached {107}))
      (\<lparr>cc_chip = \<lambda>r. 64, cc_cache = [117 \<mapsto> 113, 107 \<mapsto> 64], cc_only = False\<rparr>, []) = (0, s', out) \<and>
    (''PWR_MGMT_1 after'', 1) \<in> set out \<and> cc_chip s' 107 = 64"
proof -
  let ?s = "\<lparr>cc_chip = \<lambda>r. 64, cc_cache = [117 \<mapsto> 113, 107 \<mapsto> 64], cc_only = False\<rparr>"
  have ok: "regcache_ok (regmap_cached {107}) cc_chip cc_cache cc_only" by (rule cached_chip.cache_laws)
  have h: "cc_cache ?s MPU_WHO_AM_I = Some 113" "cc_cache ?s MPU_PWR_MGMT1 = Some 64"
      "fst (rm_write (regmap_cached {107}) MPU_PWR_MGMT1 1 ?s) = 0"
    by (simp_all add: regmap_cached_def)
  have k: "cc_chip (snd (rm_write (regmap_cached {107}) MPU_PWR_MGMT1 1 ?s)) 107 = 64"
    by (simp add: regmap_cached_def)
  obtain s' out where "run_state (mpu9250_probe_g True 1 (regmap_cached {107})) (?s, []) = (0, s', out)"
      "(''PWR_MGMT_1 after'', 1) \<in> set out"
      "cc_chip s' = cc_chip (snd (rm_write (regmap_cached {107}) MPU_PWR_MGMT1 1 ?s))"
    using probe_g_reads_cache[OF ok h] by blast
  with k show ?thesis by metis
qed

text \<open>C19. No access of 26a to 26g is outside the registers its \<open>mpu_regmap_config\<close> declares: on a
  regmap that refuses accesses beyond \<open>max_register\<close> every probe and the interrupt thread do
  exactly what they do on one that does not, whatever the chip answers.\<close>

theorem mpu_within_max_register:
  "mpu9250_probe_a room rm (checked mpu_regmap_config_a A) = mpu9250_probe_a room rm A \<and>
   mpu9250_probe_b room rm (checked mpu_regmap_config_b A) = mpu9250_probe_b room rm A \<and>
   mpu9250_probe_c room rm (checked mpu_regmap_config_c A) = mpu9250_probe_c room rm A \<and>
   mpu9250_probe_d room rm (checked mpu_regmap_config_d A) = mpu9250_probe_d room rm A \<and>
   mpu9250_probe_e room rm (checked mpu_regmap_config_e A) = mpu9250_probe_e room rm A \<and>
   mpu9250_probe_f room rm irq req (checked mpu_regmap_config_f A) = mpu9250_probe_f room rm irq req A \<and>
   mpu9250_irq_f junk junk_buf (checked mpu_regmap_config_f A) = mpu9250_irq_f junk junk_buf A \<and>
   mpu9250_probe_g room rm (checked mpu_regmap_config_g A) = mpu9250_probe_g room rm A"
  by (simp add: mpu9250_probe_a_def mpu9250_probe_b_def mpu9250_probe_c_def mpu9250_probe_d_def
    mpu9250_probe_e_def mpu9250_probe_f_def mpu9250_probe_g_def mpu9250_irq_f_def mpu9250_read_d_def
    probe_chip_def config_d_def checked_simps mpu_regmap_config_a_def mpu_regmap_config_b_def
    mpu_regmap_config_c_def mpu_regmap_config_d_def mpu_regmap_config_e_def mpu_regmap_config_f_def
    mpu_regmap_config_g_def cong: if_cong split del: if_split)

end
