(* ===== verification/SocketPrograms.thy ===== *)
theory SocketPrograms
  imports CStdio
begin

text \<open>
  The two TCP programs of \<open>21.Streaming_DMA/userspace\<close>. What the socket calls return is an
  argument; the stream between them may cut the bytes sent into any pieces.
\<close>

section \<open>The sender\<close>



section \<open>The receiver\<close>



section \<open>The transfer\<close>







end
