(* ===== verification/Ring.thy ===== *)
theory Ring
  imports Kapi
begin

text \<open>
  The ring buffers two modules share: \<open>27c.Shared_ring_buffer_bw_modules\<close> (suffix \<open>c\<close>)
  and \<open>27d.Threadsafe_ring_buffer_bw_modules\<close> (suffix \<open>d\<close>: spin lock and wait queue).
  Module A provides \<open>ring_push\<close> and \<open>ring_pop\<close>; module B is the client. The interface is
  the locale \<open>bounded_fifo\<close> (a bounded queue, with pop only defined on a non-empty one) and
  its extension \<open>checked_fifo\<close> (pop refuses an empty queue); both rings refine the list of
  queued packets. The consumer threads of 27d run as a step relation.

  A packet is the C string it holds, without its NUL.
\<close>

section \<open>The two rings\<close>

abbreviation RING_SIZE :: nat where "RING_SIZE \<equiv> 8"
abbreviation MAX_PACKET :: nat where "MAX_PACKET \<equiv> 64"

record ring_buffer =
  data :: "string list"
  head :: nat
  tail :: nat

text \<open>\<open>strscpy(dst, src, n)\<close>: at most \<open>n - 1\<close> characters, always terminated.\<close>

definition strscpy :: "string \<Rightarrow> nat \<Rightarrow> string" where
  "strscpy src n = take (n - 1) src"

text \<open>\<open>kzalloc\<close>: every slot the empty string, both indices 0.\<close>

definition ring_alloc :: ring_buffer where
  "ring_alloc = \<lparr>data = replicate RING_SIZE [], head = 0, tail = 0\<rparr>"

subsection \<open>27c, module A\<close>

definition ring_push_c :: "string \<Rightarrow> ring_buffer \<Rightarrow> int \<times> ring_buffer" where
  "ring_push_c msg ring =
     (let nxt = (head ring + 1) mod RING_SIZE
      in if nxt = tail ring then (- ENOSPC, ring)
         else (0, ring\<lparr>data := (data ring)[head ring := strscpy msg MAX_PACKET], head := nxt\<rparr>))"

text \<open>\<open>buf\<close> is what the caller's buffer held; a failed pop leaves it alone.\<close>

definition ring_pop_c :: "string \<Rightarrow> ring_buffer \<Rightarrow> int \<times> string \<times> ring_buffer" where
  "ring_pop_c buf ring =
     (if head ring = tail ring then (- ENOENT, buf, ring)
      else (0, strscpy (data ring ! tail ring) MAX_PACKET,
            ring\<lparr>tail := (tail ring + 1) mod RING_SIZE\<rparr>))"

definition module_a_init_c :: "bool \<Rightarrow> int \<times> ring_buffer option" where
  "module_a_init_c alloc_ok = (if \<not> alloc_ok then (- ENOMEM, None) else (0, Some ring_alloc))"

subsection \<open>27c, module B\<close>

text \<open>\<open>while (!ring_pop(buf)) pr_info(buf)\<close>: the packets printed, if the loop ends.\<close>

partial_function (option) ring_drain ::
    "(string \<Rightarrow> 'q \<Rightarrow> int \<times> string \<times> 'q) \<Rightarrow> string \<Rightarrow> 'q \<Rightarrow> (string list \<times> 'q) option" where
  "ring_drain pop buf q =
     (case pop buf q of (ret, buf', q') \<Rightarrow>
        if ret \<noteq> 0 then Some ([], q')
        else Option.bind (ring_drain pop buf' q') (\<lambda>(out, q''). Some (buf' # out, q'')))"

definition module_b_init_c :: "ring_buffer \<Rightarrow> (int \<times> string list \<times> ring_buffer) option" where
  "module_b_init_c ring =
     (let ring = snd (ring_push_c ''Packet A'' ring);
          ring = snd (ring_push_c ''Packet B'' ring);
          ring = snd (ring_push_c ''Packet C'' ring)
      in map_option (\<lambda>(out, ring). (0, out, ring)) (ring_drain ring_pop_c [] ring))"

subsection \<open>27d, module A\<close>

text \<open>The sections under \<open>ring->lock\<close>; each runs without interleaving.\<close>

definition ring_push_d :: "string \<Rightarrow> ring_buffer \<Rightarrow> int \<times> ring_buffer" where
  "ring_push_d msg ring =
     (let nxt = (head ring + 1) mod RING_SIZE
      in if nxt = tail ring then (- ENOSPC, ring)
         else (0, ring\<lparr>data := (data ring)[head ring := strscpy msg MAX_PACKET], head := nxt\<rparr>))"

text \<open>The part of \<open>ring_pop\<close> after \<open>wait_event_interruptible\<close>.\<close>

definition ring_pop_locked_d :: "string \<Rightarrow> ring_buffer \<Rightarrow> int \<times> string \<times> ring_buffer" where
  "ring_pop_locked_d buf ring =
     (0, strscpy (data ring ! tail ring) MAX_PACKET,
      ring\<lparr>tail := (tail ring + 1) mod RING_SIZE\<rparr>)"

definition module_a_init_d :: "bool \<Rightarrow> int \<times> ring_buffer option" where
  "module_a_init_d alloc_ok = (if \<not> alloc_ok then (- ENOMEM, None) else (0, Some ring_alloc))"

section \<open>The queue contract\<close>

locale bounded_fifo =
  fixes push :: "string \<Rightarrow> 'q \<Rightarrow> int \<times> 'q"
    and pop :: "string \<Rightarrow> 'q \<Rightarrow> int \<times> string \<times> 'q"
    and queued :: "'q \<Rightarrow> string list"
    and good :: "'q \<Rightarrow> bool"
    and cap :: nat
    and clip :: "string \<Rightarrow> string"
  assumes push_ok: "good q \<Longrightarrow> length (queued q) < cap \<Longrightarrow>
      \<exists>q'. push m q = (0, q') \<and> good q' \<and> queued q' = queued q @ [clip m]"
    and push_full: "good q \<Longrightarrow> cap \<le> length (queued q) \<Longrightarrow> push m q = (- ENOSPC, q)"
    and pop_ok: "good q \<Longrightarrow> queued q = x # xs \<Longrightarrow>
      \<exists>q'. pop b q = (0, x, q') \<and> good q' \<and> queued q' = xs"

text \<open>A client pushing a list of packets: the return values and the final queue.\<close>

fun push_all :: "(string \<Rightarrow> 'q \<Rightarrow> int \<times> 'q) \<Rightarrow> string list \<Rightarrow> 'q \<Rightarrow> int list \<times> 'q" where
  "push_all push [] q = ([], q)"
| "push_all push (m # ms) q =
     (case push m q of (r, q') \<Rightarrow> case push_all push ms q' of (rs, q'') \<Rightarrow> (r # rs, q''))"

context bounded_fifo
begin

text \<open>Packets that fit are accepted in order; the rest are refused and change nothing.\<close>

lemma push_all_queued:
  "good q \<Longrightarrow> length (queued q) \<le> cap \<Longrightarrow>
   \<exists>q'. push_all push ms q =
      (replicate (min (length ms) (cap - length (queued q))) 0 @
       replicate (length ms - (cap - length (queued q))) (- ENOSPC), q') \<and>
     good q' \<and> queued q' = queued q @ take (cap - length (queued q)) (map clip ms)"
proof (induction ms arbitrary: q)
  case Nil
  then show ?case by simp
next
  case (Cons m ms)
  show ?case
  proof (cases "length (queued q) < cap")
    case True
    then obtain q1 where q1: "push m q = (0, q1)" "good q1" "queued q1 = queued q @ [clip m]"
      using push_ok Cons.prems(1) by blast
    obtain k where k: "cap - length (queued q) = Suc k"
      using True by (metis Suc_diff_Suc)
    then have k1: "cap - length (queued q1) = k" and "length (queued q1) \<le> cap"
      using q1(3) True by simp_all
    from Cons.IH[OF q1(2) this(2)] q1(1,3) show ?thesis unfolding k k1 by auto
  next
    case False
    then have p: "push m q = (- ENOSPC, q)" using push_full Cons.prems(1) by simp
    have z: "cap - length (queued q) = 0" using False by simp
    from Cons.IH[OF Cons.prems] p show ?thesis by (auto simp: z)
  qed
qed

end

locale checked_fifo = bounded_fifo +
  assumes pop_empty: "good q \<Longrightarrow> queued q = [] \<Longrightarrow> pop b q = (- ENOENT, b, q)"
begin

text \<open>The drain loop ends, hands out the queue in order and leaves it empty.\<close>

lemma drain_queued:
  "good q \<Longrightarrow> \<exists>q'. ring_drain pop b q = Some (queued q, q') \<and> good q' \<and> queued q' = []"
proof (induction "queued q" arbitrary: q b)
  case Nil
  then show ?case using pop_empty[of q b] by (subst ring_drain.simps) simp
next
  case (Cons x xs)
  then obtain q1 where q1: "pop b q = (0, x, q1)" "good q1" "queued q1 = xs"
    using pop_ok[of q x xs b] by auto
  with Cons.hyps(1)[of q1 x] Cons.hyps(2) show ?case by (subst ring_drain.simps) auto
qed

end

section \<open>Both rings are bounded queues\<close>

definition ring_inv :: "ring_buffer \<Rightarrow> bool" where
  "ring_inv r \<longleftrightarrow> length (data r) = RING_SIZE \<and> head r < RING_SIZE \<and> tail r < RING_SIZE \<and>
     (\<forall>s \<in> set (data r). length s < MAX_PACKET)"

definition ring_count :: "ring_buffer \<Rightarrow> nat" where
  "ring_count r = (head r + RING_SIZE - tail r) mod RING_SIZE"

definition ring_list :: "ring_buffer \<Rightarrow> string list" where
  "ring_list r = map (\<lambda>k. data r ! ((tail r + k) mod RING_SIZE)) [0..<ring_count r]"

lemma ring_list_length [simp]: "length (ring_list r) = ring_count r"
  by (simp add: ring_list_def)

lemma ring_inv_alloc: "ring_inv ring_alloc"
  by (simp add: ring_inv_def ring_alloc_def)

lemma ring_list_alloc: "ring_list ring_alloc = []"
  by (simp add: ring_list_def ring_count_def ring_alloc_def)

lemma mod_ring_Suc: "h < RING_SIZE \<Longrightarrow> (h + 1) mod RING_SIZE = (if h = 7 then 0 else h + 1)"
  by auto

lemma mod_ring_add:
  "h < RING_SIZE \<Longrightarrow> k < RING_SIZE \<Longrightarrow>
   (h + k) mod RING_SIZE = (if h + k < RING_SIZE then h + k else h + k - RING_SIZE)"
  by (simp add: mod_if)

lemma ring_count_alt:
  "ring_inv r \<Longrightarrow> ring_count r =
     (if tail r \<le> head r then head r - tail r else head r + RING_SIZE - tail r)"
  unfolding ring_inv_def ring_count_def by (auto simp: mod_if)

lemma ring_count_le: "ring_count r \<le> RING_SIZE - 1"
  using mod_less_divisor[of RING_SIZE "head r + RING_SIZE - tail r"] by (simp add: ring_count_def)

lemma ring_full_iff:
  assumes "ring_inv r"
  shows "(head r + 1) mod RING_SIZE = tail r \<longleftrightarrow> RING_SIZE - 1 \<le> ring_count r"
proof -
  have "head r < RING_SIZE" "tail r < RING_SIZE" using assms by (simp_all add: ring_inv_def)
  then show ?thesis using mod_ring_Suc[of "head r"] by (auto simp: ring_count_alt[OF assms])
qed

lemma ring_empty_iff:
  assumes "ring_inv r"
  shows "head r = tail r \<longleftrightarrow> ring_list r = []"
proof -
  have "head r < RING_SIZE" "tail r < RING_SIZE" using assms by (simp_all add: ring_inv_def)
  then have "head r = tail r \<longleftrightarrow> ring_count r = 0" by (auto simp: ring_count_alt[OF assms])
  then show ?thesis by (simp add: ring_list_def)
qed

lemma ring_push_c_refines:
  assumes i: "ring_inv r"
  shows "ring_count r < RING_SIZE - 1 \<Longrightarrow>
      \<exists>r'. ring_push_c m r = (0, r') \<and> ring_inv r' \<and>
           ring_list r' = ring_list r @ [strscpy m MAX_PACKET]"
    and "RING_SIZE - 1 \<le> ring_count r \<Longrightarrow> ring_push_c m r = (- ENOSPC, r)"
proof -
  assume c: "ring_count r < RING_SIZE - 1"
  let ?s = "strscpy m MAX_PACKET"
  let ?r = "r\<lparr>data := (data r)[head r := ?s], head := (head r + 1) mod RING_SIZE\<rparr>"
  have nf: "(head r + 1) mod RING_SIZE \<noteq> tail r" using ring_full_iff[OF i] c by simp
  have len: "length ?s < MAX_PACKET" by (simp add: strscpy_def)
  have b: "head r < RING_SIZE" "tail r < RING_SIZE" "length (data r) = RING_SIZE"
    using i by (simp_all add: ring_inv_def)
  have inv': "ring_inv ?r"
    using i len by (auto simp: ring_inv_def dest!: subsetD[OF set_update_subset_insert])
  have cnt: "ring_count ?r = Suc (ring_count r)"
    unfolding ring_count_alt[OF i] ring_count_alt[OF inv']
    using b nf mod_ring_Suc[of "head r"] by auto
  have at: "(tail r + k) mod RING_SIZE = head r \<longleftrightarrow> k = ring_count r" if "k \<le> ring_count r" for k
    using that b mod_ring_add[of "tail r" k] ring_count_le[of r]
    by (auto simp: ring_count_alt[OF i] split: if_splits)
  have "ring_list ?r = map (\<lambda>k. data ?r ! ((tail r + k) mod RING_SIZE)) ([0..<ring_count r] @ [ring_count r])"
    unfolding ring_list_def cnt by simp
  also have "\<dots> = ring_list r @ [?s]"
  proof -
    have "data ?r ! ((tail r + k) mod RING_SIZE) = data r ! ((tail r + k) mod RING_SIZE)"
      if "k < ring_count r" for k
      using at[of k] that by simp
    moreover have "(tail r + ring_count r) mod RING_SIZE = head r" using at[of "ring_count r"] by simp
    ultimately show ?thesis using b by (simp add: ring_list_def)
  qed
  finally have "ring_list ?r = ring_list r @ [?s]" .
  with nf inv' show "\<exists>r'. ring_push_c m r = (0, r') \<and> ring_inv r' \<and> ring_list r' = ring_list r @ [?s]"
    by (simp add: ring_push_c_def Let_def)
next
  assume "RING_SIZE - 1 \<le> ring_count r"
  then show "ring_push_c m r = (- ENOSPC, r)"
    using ring_full_iff[OF i] by (simp add: ring_push_c_def)
qed

lemma ring_push_d_eq: "ring_push_d = ring_push_c"
  by (simp add: fun_eq_iff ring_push_c_def ring_push_d_def)

lemma ring_pop_d_refines:
  assumes i: "ring_inv r" and l: "ring_list r = x # xs"
  shows "\<exists>r'. ring_pop_locked_d b r = (0, x, r') \<and> ring_inv r' \<and> ring_list r' = xs"
proof -
  let ?r = "r\<lparr>tail := (tail r + 1) mod RING_SIZE\<rparr>"
  have b: "head r < RING_SIZE" "tail r < RING_SIZE" "length (data r) = RING_SIZE"
    using i by (simp_all add: ring_inv_def)
  have inv': "ring_inv ?r" using i by (simp add: ring_inv_def)
  have "length (ring_list r) = Suc (length xs)" using l by simp
  then have cnt: "ring_count r = Suc (length xs)" by simp
  obtain t' where t': "(tail r + 1) mod RING_SIZE = t'" "t' = (if tail r = 7 then 0 else tail r + 1)"
    using mod_ring_Suc[OF b(2)] by blast
  then have cnt': "ring_count ?r = length xs"
    using cnt b inv' unfolding ring_count_alt[OF i] t'(1)
    by (auto simp: ring_count_alt split: if_splits)
  have "x # xs = data r ! tail r #
      map (\<lambda>k. data r ! ((tail r + k) mod RING_SIZE)) [1..<Suc (length xs)]"
    unfolding l[symmetric] using b by (simp add: ring_list_def cnt upt_conv_Cons del: upt_Suc)
  note split = this[unfolded list.inject]
  note x = split[THEN conjunct1] and xs = split[THEN conjunct2]
  have shift: "((tail r + 1) mod RING_SIZE + k) mod RING_SIZE = (tail r + Suc k) mod RING_SIZE" for k
  proof -
    have "tail r + Suc k = tail r + 1 + k" by simp
    then show ?thesis by (simp only: mod_add_left_eq)
  qed
  then have "ring_list ?r = map (\<lambda>k. data r ! ((tail r + Suc k) mod RING_SIZE)) [0..<length xs]"
    using cnt' by (simp add: ring_list_def)
  also have "\<dots> = map (\<lambda>k. data r ! ((tail r + k) mod RING_SIZE)) (map Suc [0..<length xs])" by simp
  also have "\<dots> = map (\<lambda>k. data r ! ((tail r + k) mod RING_SIZE)) [1..<Suc (length xs)]"
    by (simp only: map_Suc_upt One_nat_def)
  also have "\<dots> = xs" by (rule xs[symmetric])
  finally have "ring_list ?r = xs" .
  moreover have "x \<in> set (data r)" using x b by simp
  then have "length x < MAX_PACKET" using i by (simp add: ring_inv_def)
  then have "strscpy (data r ! tail r) MAX_PACKET = x" using x by (simp add: strscpy_def)
  ultimately show ?thesis using inv' by (simp add: ring_pop_locked_d_def)
qed

lemma ring_pop_c_eq:
  "head r \<noteq> tail r \<Longrightarrow> ring_pop_c b r = ring_pop_locked_d b r"
  by (simp add: ring_pop_c_def ring_pop_locked_d_def)

interpretation ring_c: checked_fifo ring_push_c ring_pop_c ring_list ring_inv "RING_SIZE - 1"
  "\<lambda>m. strscpy m MAX_PACKET"
proof
  fix q x xs b
  assume i: "ring_inv q" and l: "ring_list q = x # xs"
  then have "head q \<noteq> tail q" using ring_empty_iff by fastforce
  then show "\<exists>q'. ring_pop_c b q = (0, x, q') \<and> ring_inv q' \<and> ring_list q' = xs"
    using ring_pop_d_refines[OF i l] by (simp add: ring_pop_c_eq)
qed (use ring_push_c_refines ring_empty_iff in \<open>auto simp: ring_pop_c_def\<close>)

interpretation ring_d: bounded_fifo ring_push_d ring_pop_locked_d ring_list ring_inv
  "RING_SIZE - 1" "\<lambda>m. strscpy m MAX_PACKET"
  by unfold_locales (use ring_push_c_refines ring_pop_d_refines in \<open>auto simp: ring_push_d_eq\<close>)

section \<open>27d, module B: the consumer threads\<close>

text \<open>
  Where a consumer thread is: about to test \<open>kthread_should_stop()\<close>, inside
  \<open>wait_event_interruptible\<close>, past it and before the spin lock, or returned.
\<close>

datatype cpc = Loop | Waiting | Locking | Exited

record ring_sys =
  shared :: ring_buffer
  pcs :: "cpc list"
  stops :: "bool list"
  bufs :: "string list"
  pushed :: "string list"
  delivered :: "string list"

text \<open>
  One step of the modules together. \<open>sig\<close> says whether a signal can end the wait; the code
  ignores the result of \<open>wait_event_interruptible\<close>, so the thread goes on either way.
  \<open>pushed\<close> and \<open>delivered\<close> record the packets accepted and the packets printed.
\<close>

inductive ring_step :: "bool \<Rightarrow> ring_sys \<Rightarrow> ring_sys \<Rightarrow> bool" for sig where
  Push: "ring_push_d m (shared s) = (ret, r') \<Longrightarrow>
    ring_step sig s (s\<lparr>shared := r',
      pushed := pushed s @ (if ret = 0 then [strscpy m MAX_PACKET] else [])\<rparr>)"
| Stop_request: "i < length (pcs s) \<Longrightarrow> ring_step sig s (s\<lparr>stops := (stops s)[i := True]\<rparr>)"
| Leave: "i < length (pcs s) \<Longrightarrow> pcs s ! i = Loop \<Longrightarrow> stops s ! i \<Longrightarrow>
    ring_step sig s (s\<lparr>pcs := (pcs s)[i := Exited]\<rparr>)"
| Enter: "i < length (pcs s) \<Longrightarrow> pcs s ! i = Loop \<Longrightarrow> \<not> stops s ! i \<Longrightarrow>
    ring_step sig s (s\<lparr>pcs := (pcs s)[i := Waiting]\<rparr>)"
| Wait_over: "i < length (pcs s) \<Longrightarrow> pcs s ! i = Waiting \<Longrightarrow> head (shared s) \<noteq> tail (shared s) \<Longrightarrow>
    ring_step sig s (s\<lparr>pcs := (pcs s)[i := Locking]\<rparr>)"
| Wait_signal: "sig \<Longrightarrow> i < length (pcs s) \<Longrightarrow> pcs s ! i = Waiting \<Longrightarrow>
    ring_step sig s (s\<lparr>pcs := (pcs s)[i := Locking]\<rparr>)"
| Pop: "i < length (pcs s) \<Longrightarrow> pcs s ! i = Locking \<Longrightarrow>
    ring_pop_locked_d (bufs s ! i) (shared s) = (ret, msg, r') \<Longrightarrow>
    ring_step sig s (s\<lparr>shared := r', bufs := (bufs s)[i := msg], pcs := (pcs s)[i := Loop],
      delivered := delivered s @ (if ret = 0 then [msg] else [])\<rparr>)"

definition ring_start :: "nat \<Rightarrow> ring_sys" where
  "ring_start n = \<lparr>shared = ring_alloc, pcs = replicate n Loop, stops = replicate n False,
     bufs = replicate n [], pushed = [], delivered = []\<rparr>"

text \<open>
  \<open>init\<close> and \<open>exit\<close> of module B: the returned value, the static \<open>consumer\<close> and the packets
  pushed, each a \<open>Push\<close> step of the system.
\<close>

definition module_b_init_d :: "kenv \<Rightarrow> (int \<times> int \<times> string list) kprog" where
  "module_b_init_d env = do {
     consumer \<leftarrow> kcall env (Task (Kthread_run ''consumer''));
     kret (0, consumer, [''Packet A'', ''Packet B'', ''Packet C''])
   }"

definition module_b_exit_d :: "kenv \<Rightarrow> int \<Rightarrow> unit kprog" where
  "module_b_exit_d env consumer =
     (if consumer \<noteq> 0 then do { _ \<leftarrow> kcall env (Task (Kthread_stop ''consumer'')); kret () }
      else kret ())"

text \<open>With one consumer and no signals, being past the wait means there is a packet.\<close>

definition one_consumer :: "ring_sys \<Rightarrow> bool" where
  "one_consumer s \<longleftrightarrow> (\<exists>pc b. pcs s = [pc] \<and> length (stops s) = 1 \<and> bufs s = [b] \<and>
     (pc = Locking \<longrightarrow> ring_list (shared s) \<noteq> [])) \<and> ring_inv (shared s) \<and>
     pushed s = delivered s @ ring_list (shared s)"

lemma one_consumer_start: "one_consumer (ring_start (Suc 0))"
  by (simp add: one_consumer_def ring_start_def ring_inv_alloc ring_list_alloc)

lemma ring_push_d_cases:
  assumes "ring_inv r" and "ring_push_d m r = (ret, r')"
  shows "ring_inv r' \<and> ring_list r' = ring_list r @ (if ret = 0 then [strscpy m MAX_PACKET] else [])"
  using ring_d.push_ok[of r m] ring_d.push_full[of r m] assms
  by (cases "ring_count r < RING_SIZE - 1") auto

lemma one_consumer_step: "ring_step False s s' \<Longrightarrow> one_consumer s \<Longrightarrow> one_consumer s'"
proof (induction rule: ring_step.induct)
  case (Push m s ret r')
  then show ?case using ring_push_d_cases[of "shared s" m ret r'] by (auto simp: one_consumer_def)
next
  case (Wait_over i s)
  then show ?case using ring_empty_iff[of "shared s"] by (auto simp: one_consumer_def)
next
  case (Pop i s ret msg r')
  then obtain b where s: "i = 0" "bufs s = [b]" and i: "ring_inv (shared s)"
    and p: "pushed s = delivered s @ ring_list (shared s)" and "ring_list (shared s) \<noteq> []"
    by (auto simp: one_consumer_def)
  then obtain x xs where x: "ring_list (shared s) = x # xs" by (cases "ring_list (shared s)") auto
  have "ret = 0 \<and> msg = x \<and> ring_inv r' \<and> ring_list r' = xs"
    using ring_d.pop_ok[OF i x, of b] Pop.hyps(3) s by auto
  with Pop x p show ?case by (auto simp: one_consumer_def)
qed (auto simp: one_consumer_def)

lemma one_consumer_reach: "(ring_step False)\<^sup>*\<^sup>* (ring_start (Suc 0)) s \<Longrightarrow> one_consumer s"
  by (induction rule: rtranclp_induct) (auto intro: one_consumer_start one_consumer_step)


lemma pushed_mono: "ring_step sig s s' \<Longrightarrow> length (pushed s) \<le> length (pushed s')"
  by (induction rule: ring_step.induct) auto

lemma pushed_mono_star: "(ring_step sig)\<^sup>*\<^sup>* s s' \<Longrightarrow> length (pushed s) \<le> length (pushed s')"
  by (induction rule: rtranclp_induct) (auto dest: pushed_mono)


text \<open>The consumer alone empties the ring.\<close>

lemma consumer_round:
  assumes "one_consumer s" and "pcs s = [Loop]" and "stops s = [False]"
    and "ring_list (shared s) = x # xs"
  shows "\<exists>s'. (ring_step False)\<^sup>*\<^sup>* s s' \<and> one_consumer s' \<and> pcs s' = [Loop] \<and>
     stops s' = [False] \<and> ring_list (shared s') = xs \<and> pushed s' = pushed s"
proof -
  let ?s1 = "s\<lparr>pcs := (pcs s)[0 := Waiting]\<rparr>"
  let ?s2 = "?s1\<lparr>pcs := (pcs ?s1)[0 := Locking]\<rparr>"
  have i: "ring_inv (shared s)" using assms(1) by (simp add: one_consumer_def)
  have ne: "head (shared s) \<noteq> tail (shared s)" using ring_empty_iff[OF i] assms(4) by simp
  obtain r' where r': "ring_pop_locked_d (bufs ?s2 ! 0) (shared ?s2) = (0, x, r')"
    "ring_inv r'" "ring_list r' = xs"
    using ring_d.pop_ok[OF i assms(4), of "bufs ?s2 ! 0"] by auto
  have "ring_step False s ?s1" using assms by (intro ring_step.Enter) auto
  moreover have "ring_step False ?s1 ?s2" using assms ne by (intro ring_step.Wait_over) auto
  moreover have "ring_step False ?s2 (?s2\<lparr>shared := r', bufs := (bufs ?s2)[0 := x],
      pcs := (pcs ?s2)[0 := Loop], delivered := delivered ?s2 @ (if (0::int) = 0 then [x] else [])\<rparr>)"
    (is "ring_step False ?s2 ?s3")
    using assms by (intro ring_step.Pop[OF _ _ r'(1)]) auto
  ultimately have st: "(ring_step False)\<^sup>*\<^sup>* s ?s3" by (meson rtranclp.intros)
  have "one_consumer ?s3"
    using st assms(1) by (induction rule: rtranclp_induct) (auto intro: one_consumer_step)
  with st r' assms show ?thesis by (intro exI[of _ ?s3]) simp
qed

lemma consumer_drain:
  "one_consumer s \<Longrightarrow> pcs s = [Loop] \<Longrightarrow> stops s = [False] \<Longrightarrow>
   \<exists>s'. (ring_step False)\<^sup>*\<^sup>* s s' \<and> one_consumer s' \<and> ring_list (shared s') = [] \<and>
     pushed s' = pushed s"
proof (induction "ring_list (shared s)" arbitrary: s)
  case Nil
  then show ?case by (intro exI[of _ s]) simp
next
  case (Cons x xs)
  obtain s1 where s1: "(ring_step False)\<^sup>*\<^sup>* s s1" "one_consumer s1" "pcs s1 = [Loop]"
    "stops s1 = [False]" "ring_list (shared s1) = xs" "pushed s1 = pushed s"
    using consumer_round[OF Cons.prems Cons.hyps(2)[symmetric]] by blast
  from Cons.hyps(1)[OF s1(5)[symmetric] s1(2,3,4)] s1(1,6) show ?case
    by (metis rtranclp_trans)
qed

section \<open>Properties\<close>

text \<open>C5. The ring of \<open>27c\<close> is a FIFO of seven packets: pushing any list of packets to an
  empty ring accepts the first seven, each cut to 63 characters, and refuses the others
  with \<open>-ENOSPC\<close>; draining it as module B does then ends, prints exactly the accepted
  packets in order and leaves the ring empty.\<close>

theorem ring_c_fifo:
  assumes "ring_inv q" and "ring_list q = []"
  shows "\<exists>q' q''. push_all ring_push_c ms q =
      (replicate (min (length ms) 7) 0 @ replicate (length ms - 7) (- ENOSPC), q') \<and>
    ring_drain ring_pop_c b q' = Some (take 7 (map (\<lambda>m. take 63 m) ms), q'') \<and>
    ring_inv q'' \<and> ring_list q'' = []"
proof -
  obtain q' where q': "push_all ring_push_c ms q =
      (replicate (min (length ms) 7) 0 @ replicate (length ms - 7) (- ENOSPC), q')"
    "ring_inv q'" "ring_list q' = take 7 (map (\<lambda>m. strscpy m MAX_PACKET) ms)"
    using ring_c.push_all_queued[OF assms(1), of ms] assms(2) by auto
  with ring_c.drain_queued[OF q'(2), of b] show ?thesis by (auto simp: strscpy_def)
qed

theorem ring_c_fifo_witness:
  "\<exists>q' q''. push_all ring_push_c (replicate 9 ''ping'') ring_alloc =
      (replicate 7 0 @ [- ENOSPC, - ENOSPC], q') \<and>
    ring_drain ring_pop_c [] q' = Some (replicate 7 ''ping'', q'')"
proof -
  have "replicate (2::nat) (- ENOSPC) = [- ENOSPC, - ENOSPC]" by (simp add: numeral_2_eq_2)
  with ring_c_fifo[OF ring_inv_alloc ring_list_alloc, of "replicate 9 ''ping''" "[]"]
  show ?thesis by auto
qed

lemma module_b_c_run:
  assumes "ring_inv q" and "ring_list q = []"
  shows "\<exists>q'. module_b_init_c q = Some (0, [''Packet A'', ''Packet B'', ''Packet C''], q') \<and>
    ring_inv q' \<and> ring_list q' = []"
proof -
  have "\<exists>q'. push_all ring_push_c [''Packet A'', ''Packet B'', ''Packet C''] q = ([0, 0, 0], q') \<and>
      ring_inv q' \<and> ring_list q' = [''Packet A'', ''Packet B'', ''Packet C'']"
    using ring_c.push_all_queued[OF assms(1), of "[''Packet A'', ''Packet B'', ''Packet C'']"] assms(2)
    by (simp add: strscpy_def numeral_3_eq_3 del: push_all.simps)
  then obtain q' where q': "snd (push_all ring_push_c [''Packet A'', ''Packet B'', ''Packet C''] q) = q'"
    "ring_inv q'" "ring_list q' = [''Packet A'', ''Packet B'', ''Packet C'']"
    by (auto simp del: push_all.simps)
  then have "module_b_init_c q = map_option (\<lambda>(out, ring). (0, out, ring)) (ring_drain ring_pop_c [] q')"
    by (auto simp: module_b_init_c_def Let_def split: prod.splits)
  with ring_c.drain_queued[OF q'(2), of "[]"] q'(3) show ?thesis by auto
qed

text \<open>Module B of \<open>27c\<close>, loaded on the ring module A created: its drain loop ends, the
  three packets are printed in the order they were pushed, and it returns 0.\<close>

theorem module_b_c_prints:
  "\<exists>ring. snd (module_a_init_c True) = Some ring \<and>
     (\<exists>ring'. module_b_init_c ring = Some (0, [''Packet A'', ''Packet B'', ''Packet C''], ring'))"
  using module_b_c_run[OF ring_inv_alloc ring_list_alloc] by (auto simp: module_a_init_c_def)



text \<open>No packet waits for ever in \<open>27d\<close>: from any reachable state in which the consumer
  is at the head of its loop and was not asked to stop, its own steps print everything that
  was pushed.\<close>

theorem ring_d_consumer_catches_up:
  assumes "(ring_step False)\<^sup>*\<^sup>* (ring_start 1) s" and "pcs s = [Loop]" and "stops s = [False]"
  shows "\<exists>s'. (ring_step False)\<^sup>*\<^sup>* s s' \<and> delivered s' = pushed s"
proof -
  have "one_consumer s" using one_consumer_reach assms(1) by simp
  from consumer_drain[OF this assms(2,3)] show ?thesis by (auto simp: one_consumer_def)
qed

theorem ring_d_consumer_catches_up_witness:
  "\<exists>s s'. pushed s = [''hi''] \<and> (ring_step False)\<^sup>*\<^sup>* s s' \<and> delivered s' = [''hi'']"
proof -
  obtain r' where r': "ring_push_d ''hi'' (shared (ring_start 1)) = (0, r')"
    using ring_d.push_ok[OF ring_inv_alloc, of "''hi''"] by (auto simp: ring_start_def ring_list_alloc)
  let ?s = "(ring_start 1)\<lparr>shared := r', pushed := pushed (ring_start 1) @
    (if (0::int) = 0 then [strscpy ''hi'' MAX_PACKET] else [])\<rparr>"
  have st: "(ring_step False)\<^sup>*\<^sup>* (ring_start 1) ?s"
    by (rule r_into_rtranclp, rule ring_step.Push[OF r'])
  have p: "pushed ?s = [''hi'']" by (simp add: ring_start_def strscpy_def)
  obtain s' where "(ring_step False)\<^sup>*\<^sup>* ?s s'" "delivered s' = pushed ?s"
    using ring_d_consumer_catches_up[OF st] by (auto simp: ring_start_def)
  with p show ?thesis by metis
qed



text \<open>The unlocked emptiness check of \<open>ring_pop\<close> in \<open>27d\<close> is only sound for a single
  consumer: with two of them, one packet pushed leads to two packets printed (the second
  pop copies a slot that holds no packet), and the ring then refuses the next push with
  \<open>-ENOSPC\<close> although nothing is queued.\<close>

theorem ring_d_two_consumers_race:
  "\<exists>s. (ring_step False)\<^sup>*\<^sup>* (ring_start 2) s \<and> pushed s = [''A''] \<and> delivered s = [''A'', []] \<and>
       fst (ring_push_d m (shared s)) = - ENOSPC"
proof -
  let ?r1 = "\<lparr>data = ''A'' # replicate 7 [], head = 1, tail = 0\<rparr>"
  let ?S = "\<lambda>r ps bs pu de. \<lparr>shared = r, pcs = ps, stops = [False, False], bufs = bs,
    pushed = pu, delivered = de\<rparr>"
  have s0: "ring_start 2 = ?S ring_alloc [Loop, Loop] [[], []] [] []"
    by (simp add: ring_start_def numeral_2_eq_2)
  have push: "ring_push_d ''A'' ring_alloc = (0, ?r1)"
  proof -
    have r: "replicate 8 [] = ([] :: string) # replicate 7 []" by (simp add: eval_nat_numeral)
    show ?thesis unfolding ring_alloc_def r by (simp add: ring_push_d_def strscpy_def)
  qed
  have pop: "ring_pop_locked_d [] ?r1 = (0, ''A'', ?r1\<lparr>tail := 1\<rparr>)"
    "ring_pop_locked_d [] (?r1\<lparr>tail := 1\<rparr>) = (0, [], ?r1\<lparr>tail := 2\<rparr>)"
    by (simp_all add: ring_pop_locked_d_def strscpy_def numeral_2_eq_2)
  have s1: "ring_step False (ring_start 2) (?S ring_alloc [Waiting, Loop] [[], []] [] [])"
    using ring_step.Enter[of 0 "ring_start 2" False] by (simp add: s0)
  have s2: "ring_step False (?S ring_alloc [Waiting, Loop] [[], []] [] [])
      (?S ring_alloc [Waiting, Waiting] [[], []] [] [])"
    using ring_step.Enter[of 1 "?S ring_alloc [Waiting, Loop] [[], []] [] []" False] by simp
  have s3: "ring_step False (?S ring_alloc [Waiting, Waiting] [[], []] [] [])
      (?S ?r1 [Waiting, Waiting] [[], []] [''A''] [])"
    using ring_step.Push[of "''A''" "?S ring_alloc [Waiting, Waiting] [[], []] [] []" 0 ?r1 False] push
    by (simp add: strscpy_def)
  have s4: "ring_step False (?S ?r1 [Waiting, Waiting] [[], []] [''A''] [])
      (?S ?r1 [Locking, Waiting] [[], []] [''A''] [])"
    using ring_step.Wait_over[of 0 "?S ?r1 [Waiting, Waiting] [[], []] [''A''] []" False] by simp
  have s5: "ring_step False (?S ?r1 [Locking, Waiting] [[], []] [''A''] [])
      (?S ?r1 [Locking, Locking] [[], []] [''A''] [])"
    using ring_step.Wait_over[of 1 "?S ?r1 [Locking, Waiting] [[], []] [''A''] []" False] by simp
  have s6: "ring_step False (?S ?r1 [Locking, Locking] [[], []] [''A''] [])
      (?S (?r1\<lparr>tail := 1\<rparr>) [Loop, Locking] [''A'', []] [''A''] [''A''])"
    using ring_step.Pop[of 0 "?S ?r1 [Locking, Locking] [[], []] [''A''] []" 0 "''A''"] pop(1) by simp
  have s7: "ring_step False (?S (?r1\<lparr>tail := 1\<rparr>) [Loop, Locking] [''A'', []] [''A''] [''A''])
      (?S (?r1\<lparr>tail := 2\<rparr>) [Loop, Loop] [''A'', []] [''A''] [''A'', []])" (is "ring_step _ _ ?last")
    using ring_step.Pop[of 1 "?S (?r1\<lparr>tail := 1\<rparr>) [Loop, Locking] [''A'', []] [''A''] [''A'']" 0 "[]"]
      pop(2) by simp
  note go = converse_rtranclp_into_rtranclp[of "ring_step False"]
  have "(ring_step False)\<^sup>*\<^sup>* (ring_start 2) ?last"
    by (rule go[OF s1 go[OF s2 go[OF s3 go[OF s4 go[OF s5 go[OF s6 r_into_rtranclp[of "ring_step False", OF s7]]]]]]])
  moreover have "fst (ring_push_d m (?r1\<lparr>tail := 2\<rparr>)) = - ENOSPC"
    by (simp add: ring_push_d_def)
  ultimately show ?thesis by (intro exI[of _ ?last]) simp
qed

text \<open>Module B of \<open>27d\<close> stores the result of \<open>kthread_run\<close> unchecked, returns 0, and its
  \<open>exit\<close> tests for NULL only: when the thread could not be created, \<open>exit\<close> stops a thread
  that does not exist.\<close>

theorem module_b_d_stops_error_pointer:
  assumes "\<And>i. env i (Task (Kthread_run ''consumer'')) < 0"
  shows "\<exists>consumer ps h. run_state (module_b_init_d env) [] = ((0, consumer, ps), h) \<and>
     replay [] h = Some [] \<and>
     replay [] (snd (run_state (module_b_exit_d env consumer) h)) = None"
  using assms[of 0] by (simp add: module_b_init_d_def module_b_exit_d_def)

theorem module_b_d_stops_error_pointer_witness:
  "\<exists>consumer h. replay [] (snd (run_state
     (module_b_exit_d (kenv_fail (Task (Kthread_run ''consumer'')) (- 12)) consumer) h)) = None"
  using module_b_d_stops_error_pointer[of "kenv_fail (Task (Kthread_run ''consumer'')) (- 12)"]
  by (auto simp: kenv_fail_def)

end
