(* ===== verification/Modules.thy ===== *)
theory Modules
  imports Kapi "HOL-Library.Multiset"
begin

text \<open>
  Modules that share code and data through exported symbols: the counter
  (\<open>27a._Exporting_API\<close>), the shared buffer (\<open>27b.Zero_copy_buffer_sharing\<close>), the callback
  slot (\<open>27e.Callback_Registration_Framework\<close>), the callback list
  (\<open>27f.Multiple_Callback_Registration\<close>) and the notifier chain
  (\<open>27g.Linux_notifier_chain\<close>). Module A is the provider, the other modules its clients;
  the static variables of module A are the state. \<open>callback_registry\<close> is the contract the
  clients of 27e and 27f rely on.
\<close>

section \<open>27a: an exported counter\<close>

text \<open>\<open>int shared_counter\<close>; the kernel is built with wrapping signed arithmetic.\<close>

type_synonym counter = "32 word"

definition increment_counter :: "counter \<Rightarrow> counter" where
  "increment_counter shared_counter = shared_counter + 1"

definition get_counter :: "counter \<Rightarrow> int" where
  "get_counter shared_counter = sint shared_counter"

text \<open>\<open>init\<close> of module B: the value returned, the number printed, the counter.\<close>

definition module_b_init_27a :: "counter \<Rightarrow> int \<times> int \<times> counter" where
  "module_b_init_27a c =
     (let c = increment_counter c; c = increment_counter c; c = increment_counter c
      in (0, get_counter c, c))"

primrec counter_loads :: "nat \<Rightarrow> counter \<Rightarrow> int list" where
  "counter_loads 0 c = []"
| "counter_loads (Suc n) c =
     (case module_b_init_27a c of (ret, shown, c') \<Rightarrow> shown # counter_loads n c')"

section \<open>27b: a shared buffer\<close>

abbreviation BUFFER_SIZE :: nat where "BUFFER_SIZE \<equiv> 256"

definition c_strcpy :: "byte list \<Rightarrow> byte list \<Rightarrow> byte list option" where
  "c_strcpy buf s = c_store buf 0 (s @ [0])"

definition c_snprintf :: "byte list \<Rightarrow> nat \<Rightarrow> byte list \<Rightarrow> byte list option" where
  "c_snprintf buf n s = (if n = 0 then Some buf else c_store buf 0 (take (n - 1) s @ [0]))"

text \<open>The static pointer of module A: no buffer, or its bytes.\<close>

type_synonym shared_buffer = "byte list option"

definition get_shared_buffer :: "shared_buffer \<Rightarrow> shared_buffer" where
  "get_shared_buffer shared = shared"

definition get_shared_buffer_size :: nat where
  "get_shared_buffer_size = BUFFER_SIZE"

definition module_a_init_27b :: "bool \<Rightarrow> (int \<times> shared_buffer) option" where
  "module_a_init_27b alloc_ok =
     (if \<not> alloc_ok then Some (- ENOMEM, None)
      else do {
        buf \<leftarrow> c_strcpy (replicate BUFFER_SIZE 0) (bytes_of ''Hello from Module A'');
        _ \<leftarrow> c_string buf;
        Some (0, Some buf)
      })"

text \<open>\<open>init\<close> of module B: the value returned, the two texts printed, the buffer.\<close>

definition module_b_init_27b ::
    "shared_buffer \<Rightarrow> (int \<times> byte list list \<times> shared_buffer) option" where
  "module_b_init_27b shared =
     (case get_shared_buffer shared of
        None \<Rightarrow> Some (- ENOMEM, [], None)
      | Some buf \<Rightarrow> do {
          original \<leftarrow> c_string buf;
          buf \<leftarrow> c_snprintf buf get_shared_buffer_size (bytes_of ''Modified by Module B'');
          modified \<leftarrow> c_string buf;
          Some (0, [original, modified], Some buf)
        })"

section \<open>27e and 27f: callbacks\<close>

text \<open>A function pointer is identified by the module it belongs to.\<close>

type_synonym cb = string

subsection \<open>One slot\<close>

definition register_event_callback_e :: "cb \<Rightarrow> cb option \<Rightarrow> int \<times> cb option" where
  "register_event_callback_e cb callback =
     (if callback \<noteq> None then (- EBUSY, callback) else (0, Some cb))"

definition unregister_event_callback_e :: "cb option \<Rightarrow> cb option" where
  "unregister_event_callback_e callback = None"

definition notify_event_e :: "string \<Rightarrow> cb option \<Rightarrow> (cb \<times> string) list" where
  "notify_event_e msg callback = (case callback of None \<Rightarrow> [] | Some cb \<Rightarrow> [(cb, msg)])"

definition module_b_init_e :: "cb \<Rightarrow> cb option \<Rightarrow> int \<times> (cb \<times> string) list \<times> cb option" where
  "module_b_init_e my_callback callback =
     (let callback = snd (register_event_callback_e my_callback callback)
      in (0, notify_event_e ''Packet Received'' callback @ notify_event_e ''CAN Frame'' callback @
             notify_event_e ''Interrupt'' callback, callback))"

definition module_b_exit_e :: "cb option \<Rightarrow> cb option" where
  "module_b_exit_e callback = unregister_event_callback_e callback"

subsection \<open>A list\<close>

text \<open>The nodes of \<open>callback_list\<close> in order; \<open>alloc_ok\<close> is what \<open>kmalloc\<close> answers.\<close>

definition register_event_callback_f :: "bool \<Rightarrow> cb \<Rightarrow> cb list \<Rightarrow> int \<times> cb list" where
  "register_event_callback_f alloc_ok cb callback_list =
     (if \<not> alloc_ok then (- ENOMEM, callback_list) else (0, callback_list @ [cb]))"

text \<open>\<open>list_for_each_entry_safe\<close> up to the first node that holds \<open>cb\<close>.\<close>

fun unregister_event_callback_f :: "cb \<Rightarrow> cb list \<Rightarrow> cb list" where
  "unregister_event_callback_f cb [] = []"
| "unregister_event_callback_f cb (node # rest) =
     (if node = cb then rest else node # unregister_event_callback_f cb rest)"

fun notify_event_f :: "string \<Rightarrow> cb list \<Rightarrow> (cb \<times> string) list" where
  "notify_event_f msg [] = []"
| "notify_event_f msg (node # rest) = (node, msg) # notify_event_f msg rest"

text \<open>Modules B and C register in \<open>init\<close>, ignoring the result, and unregister in \<open>exit\<close>.\<close>

definition module_init_f :: "bool \<Rightarrow> cb \<Rightarrow> cb list \<Rightarrow> int \<times> cb list" where
  "module_init_f alloc_ok my_cb callback_list =
     (0, snd (register_event_callback_f alloc_ok my_cb callback_list))"

definition module_exit_f :: "cb \<Rightarrow> cb list \<Rightarrow> cb list" where
  "module_exit_f my_cb callback_list = unregister_event_callback_f my_cb callback_list"

definition module_d_init_f :: "cb list \<Rightarrow> int \<times> (cb \<times> string) list" where
  "module_d_init_f callback_list =
     (0, notify_event_f ''Packet Received'' callback_list @ notify_event_f ''CAN Frame'' callback_list @
         notify_event_f ''Interrupt'' callback_list)"

subsection \<open>The contract\<close>

locale callback_registry =
  fixes reg :: "cb \<Rightarrow> 's \<Rightarrow> int \<times> 's"
    and unreg :: "cb \<Rightarrow> 's \<Rightarrow> 's"
    and ntf :: "string \<Rightarrow> 's \<Rightarrow> (cb \<times> string) list"
    and cbs :: "'s \<Rightarrow> cb list"
  assumes reg_done: "reg c s = (0, s') \<Longrightarrow> cbs s' = cbs s @ [c]"
    and reg_failed: "reg c s = (r, s') \<Longrightarrow> r \<noteq> 0 \<Longrightarrow> r < 0 \<and> cbs s' = cbs s"
    and unreg_member: "c \<in> set (cbs s) \<Longrightarrow> cbs (unreg c s) = remove1 c (cbs s)"
    and ntf_all: "ntf m s = map (\<lambda>c. (c, m)) (cbs s)"
begin

text \<open>A client that registered successfully hears every message until it unregisters.\<close>

lemma client_hears:
  assumes "reg c s = (0, s')"
  shows "(c, m) \<in> set (ntf m s')" and "mset (cbs (unreg c s')) = mset (cbs s)"
  using reg_done[OF assms] unreg_member[of c s'] by (simp_all add: ntf_all)

lemma hears_nothing_foreign: "(c, m') \<in> set (ntf m s) \<Longrightarrow> c \<in> set (cbs s) \<and> m' = m"
  by (auto simp: ntf_all)

end

interpretation slot_e: callback_registry register_event_callback_e
  "\<lambda>_. unregister_event_callback_e" notify_event_e "\<lambda>s. case s of None \<Rightarrow> [] | Some c \<Rightarrow> [c]"
  by unfold_locales
    (auto simp: register_event_callback_e_def unregister_event_callback_e_def notify_event_e_def
      split: if_splits option.splits)

lemma unregister_f_remove1: "unregister_event_callback_f c cs = remove1 c cs"
  by (induction cs) auto

lemma notify_f_map: "notify_event_f m cs = map (\<lambda>c. (c, m)) cs"
  by (induction cs) auto

interpretation list_f: callback_registry "register_event_callback_f ok"
  unregister_event_callback_f notify_event_f "\<lambda>s. s" for ok
  by unfold_locales
    (auto simp: register_event_callback_f_def unregister_f_remove1 notify_f_map split: if_splits)

text \<open>
  The modules of 27f over time: a client loads (with what \<open>kmalloc\<close> answers) or unloads, or
  module D loads and notifies. A module is loaded at most once at a time.
\<close>

record cb_sys =
  cb_nodes :: "cb list"
  cb_loaded :: "cb set"
  cb_calls :: "(cb \<times> string) list"

inductive cb_step :: "cb_sys \<Rightarrow> cb_sys \<Rightarrow> bool" where
  Load: "m \<notin> cb_loaded s \<Longrightarrow> module_init_f ok m (cb_nodes s) = (0, ns) \<Longrightarrow>
    cb_step s (s\<lparr>cb_nodes := ns, cb_loaded := insert m (cb_loaded s)\<rparr>)"
| Unload: "m \<in> cb_loaded s \<Longrightarrow>
    cb_step s (s\<lparr>cb_nodes := module_exit_f m (cb_nodes s), cb_loaded := cb_loaded s - {m}\<rparr>)"
| Notify: "module_d_init_f (cb_nodes s) = (0, calls) \<Longrightarrow> cb_step s (s\<lparr>cb_calls := calls\<rparr>)"

definition cb_start :: cb_sys where
  "cb_start = \<lparr>cb_nodes = [], cb_loaded = {}, cb_calls = []\<rparr>"

lemma cb_step_inv:
  "cb_step s s' \<Longrightarrow> distinct (cb_nodes s) \<and> set (cb_nodes s) \<subseteq> cb_loaded s \<Longrightarrow>
   distinct (cb_nodes s') \<and> set (cb_nodes s') \<subseteq> cb_loaded s'"
  by (induction rule: cb_step.induct)
    (auto simp: module_init_f_def module_exit_f_def register_event_callback_f_def
      unregister_f_remove1 split: if_splits)

lemma cb_reach_inv:
  "cb_step\<^sup>*\<^sup>* cb_start s \<Longrightarrow> distinct (cb_nodes s) \<and> set (cb_nodes s) \<subseteq> cb_loaded s"
  by (induction rule: rtranclp_induct) (use cb_step_inv in \<open>auto simp: cb_start_def\<close>)

section \<open>27g: a notifier chain\<close>

text \<open>
  A notifier block: its priority and the module its callback belongs to. The chain
  functions of the kernel are parameters.
\<close>

record notifier_block =
  nb_call :: cb
  nb_priority :: int

record chain_api =
  blocking_register :: "notifier_block \<Rightarrow> notifier_block list \<Rightarrow> int \<times> notifier_block list"
  blocking_unregister :: "notifier_block \<Rightarrow> notifier_block list \<Rightarrow> int \<times> notifier_block list"
  blocking_call :: "(cb \<Rightarrow> int) \<Rightarrow> notifier_block list \<Rightarrow> cb list"

abbreviation NOTIFY_OK :: int where "NOTIFY_OK \<equiv> 1"
abbreviation NOTIFY_STOP_MASK :: int where "NOTIFY_STOP_MASK \<equiv> 32768"

definition by_priority :: "notifier_block list \<Rightarrow> bool" where
  "by_priority chain \<longleftrightarrow> sorted_wrt (\<lambda>a b. nb_priority a \<ge> nb_priority b) chain"

text \<open>
  Documented behaviour: a chain is kept in order of descending priority, a block already
  on it is refused, and the callbacks run in chain order while they do not ask to stop.
\<close>

definition chain_api_ok :: "chain_api \<Rightarrow> bool" where
  "chain_api_ok A \<longleftrightarrow>
     (\<forall>nb ch. by_priority ch \<longrightarrow>
        by_priority (snd (blocking_register A nb ch)) \<and>
        mset (snd (blocking_register A nb ch)) = (if nb \<in> set ch then mset ch else add_mset nb (mset ch)) \<and>
        by_priority (snd (blocking_unregister A nb ch)) \<and>
        mset (snd (blocking_unregister A nb ch)) = mset ch - {#nb#}) \<and>
     (\<forall>f ch. (\<forall>nb \<in> set ch. f (nb_call nb) < NOTIFY_STOP_MASK) \<longrightarrow>
        blocking_call A f ch = map nb_call ch)"

definition register_my_notifier :: "chain_api \<Rightarrow> notifier_block \<Rightarrow> notifier_block list \<Rightarrow> int \<times> notifier_block list" where
  "register_my_notifier A nb my_chain = blocking_register A nb my_chain"

definition unregister_my_notifier :: "chain_api \<Rightarrow> notifier_block \<Rightarrow> notifier_block list \<Rightarrow> int \<times> notifier_block list" where
  "unregister_my_notifier A nb my_chain = blocking_unregister A nb my_chain"

text \<open>Both callbacks print the event and return \<open>NOTIFY_OK\<close>.\<close>

definition notifier_result :: "cb \<Rightarrow> int" where
  "notifier_result c = NOTIFY_OK"

definition send_event :: "chain_api \<Rightarrow> nat \<Rightarrow> string \<Rightarrow> notifier_block list \<Rightarrow> (cb \<times> nat \<times> string) list" where
  "send_event A event msg my_chain =
     map (\<lambda>c. (c, event, msg)) (blocking_call A notifier_result my_chain)"

definition my_nb :: notifier_block where
  "my_nb = \<lparr>nb_call = ''my_callback'', nb_priority = 10\<rparr>"

definition nb2 :: notifier_block where
  "nb2 = \<lparr>nb_call = ''callback2'', nb_priority = 20\<rparr>"

definition module_b_init_g :: "chain_api \<Rightarrow> notifier_block list \<Rightarrow> int \<times> notifier_block list" where
  "module_b_init_g A my_chain = (0, snd (register_my_notifier A my_nb my_chain))"

definition module_c_init_g ::
    "chain_api \<Rightarrow> notifier_block list \<Rightarrow> int \<times> (cb \<times> nat \<times> string) list \<times> notifier_block list" where
  "module_c_init_g A my_chain =
     (let my_chain = snd (register_my_notifier A nb2 my_chain)
      in (0, send_event A 1 ''Packet'' my_chain @ send_event A 2 ''CAN'' my_chain @
             send_event A 3 ''IRQ'' my_chain, my_chain))"

text \<open>A chain with the documented behaviour.\<close>

fun insert_nb :: "notifier_block \<Rightarrow> notifier_block list \<Rightarrow> notifier_block list" where
  "insert_nb nb [] = [nb]"
| "insert_nb nb (x # xs) = (if nb_priority x < nb_priority nb then nb # x # xs else x # insert_nb nb xs)"

fun call_until :: "(cb \<Rightarrow> int) \<Rightarrow> notifier_block list \<Rightarrow> cb list" where
  "call_until f [] = []"
| "call_until f (x # xs) =
     nb_call x # (if f (nb_call x) \<ge> NOTIFY_STOP_MASK then [] else call_until f xs)"

definition chain_plain :: chain_api where
  "chain_plain = \<lparr>
     blocking_register = (\<lambda>nb ch. if nb \<in> set ch then (- 17, ch) else (0, insert_nb nb ch)),
     blocking_unregister = (\<lambda>nb ch. (if nb \<in> set ch then 0 else - ENOENT, remove1 nb ch)),
     blocking_call = call_until\<rparr>"

lemma insert_nb_mset: "mset (insert_nb nb ch) = add_mset nb (mset ch)"
  by (induction ch) auto

lemma insert_nb_set: "set (insert_nb nb ch) = insert nb (set ch)"
  by (metis insert_nb_mset set_mset_add_mset_insert set_mset_mset)

lemma insert_nb_sorted: "by_priority ch \<Longrightarrow> by_priority (insert_nb nb ch)"
  by (induction ch) (auto simp: by_priority_def insert_nb_set)

lemma remove1_sorted: "by_priority ch \<Longrightarrow> by_priority (remove1 nb ch)"
  by (induction ch) (auto simp: by_priority_def dest: notin_set_remove1 in_set_remove1[THEN iffD1, rotated]
      intro: set_remove1_subset[THEN subsetD])

lemma call_until_all:
  "\<forall>nb \<in> set ch. f (nb_call nb) < NOTIFY_STOP_MASK \<Longrightarrow> call_until f ch = map nb_call ch"
  by (induction ch) auto

lemma chain_plain_ok: "chain_api_ok chain_plain"
  by (auto simp: chain_api_ok_def chain_plain_def insert_nb_mset insert_nb_sorted remove1_sorted
      call_until_all)

lemma load_both:
  assumes "chain_api_ok A"
  shows "snd (register_my_notifier A nb2 (snd (register_my_notifier A my_nb []))) = [nb2, my_nb]"
    and "snd (register_my_notifier A my_nb (snd (register_my_notifier A nb2 []))) = [nb2, my_nb]"
proof -
  have two: "ch = [nb2, my_nb]" if p: "by_priority ch" and m: "mset ch = {#nb2, my_nb#}" for ch
  proof -
    have "length ch = Suc (Suc 0)" using arg_cong[OF m, of size] by simp
    then obtain x y where ch: "ch = [x, y]" by (auto simp: length_Suc_conv)
    have "nb_priority x \<ge> nb_priority y" using p ch by (simp add: by_priority_def)
    moreover have "{x, y} = {nb2, my_nb}" using arg_cong[OF m, of set_mset] ch by simp
    ultimately show ?thesis using ch by (auto simp: doubleton_eq_iff my_nb_def nb2_def)
  qed
  have e: "by_priority []" by (simp add: by_priority_def)
  have ne: "my_nb \<noteq> nb2" by (simp add: my_nb_def nb2_def)
  have reg: "by_priority (snd (register_my_notifier A nb ch)) \<and>
      mset (snd (register_my_notifier A nb ch)) = (if nb \<in> set ch then mset ch else add_mset nb (mset ch))"
    if "by_priority ch" for nb ch
    using assms that unfolding chain_api_ok_def register_my_notifier_def by blast
  have one: "snd (register_my_notifier A nb []) = [nb]" for nb
    using reg[OF e, of nb] by simp
  have s: "by_priority [nb]" for nb by (simp add: by_priority_def)
  show "snd (register_my_notifier A nb2 (snd (register_my_notifier A my_nb []))) = [nb2, my_nb]"
    unfolding one using reg[OF s, of nb2 my_nb] ne by (intro two) simp_all
  show "snd (register_my_notifier A my_nb (snd (register_my_notifier A nb2 []))) = [nb2, my_nb]"
    unfolding one using reg[OF s, of my_nb nb2] ne
    by (intro two) (simp_all add: add_mset_commute)
qed

lemma send_event_all:
  "chain_api_ok A \<Longrightarrow> send_event A e m ch = map (\<lambda>nb. (nb_call nb, e, m)) ch"
  by (simp add: send_event_def chain_api_ok_def notifier_result_def)

section \<open>Properties\<close>

text \<open>The callback list of 27f never keeps a pointer into an unloaded module: after any
  history of loads, unloads and notifications, failed allocations included, what module D
  triggers is each message once per node, every one of them for a module that is loaded.\<close>

theorem callbacks_only_loaded:
  assumes "cb_step\<^sup>*\<^sup>* cb_start s" and "module_d_init_f (cb_nodes s) = (r, calls)"
  shows "r = 0 \<and> distinct calls \<and> fst ` set calls \<subseteq> cb_loaded s \<and> length calls = 3 * length (cb_nodes s)"
  using cb_reach_inv[OF assms(1)] assms(2)
  by (auto simp: module_d_init_f_def notify_f_map distinct_map inj_on_def)

theorem callbacks_only_loaded_witness:
  "\<exists>(s :: cb_sys) calls. cb_loaded s = {''B''} \<and> module_d_init_f (cb_nodes s) = (0, calls) \<and> length calls = 3 \<and>
     distinct calls"
proof -
  have st: "cb_step cb_start (cb_start\<lparr>cb_nodes := [''B''], cb_loaded := {''B''}\<rparr>)"
    using cb_step.Load[of "''B''" cb_start True "[''B'']"]
    by (simp add: cb_start_def module_init_f_def register_event_callback_f_def)
  obtain r calls where c: "module_d_init_f [''B''] = (r, calls)" by fastforce
  have "r = 0 \<and> distinct calls \<and> length calls = 3"
    using callbacks_only_loaded[OF r_into_rtranclp[of cb_step, OF st], of r calls] c by simp
  with c show ?thesis
    by (intro exI[of _ "cb_start\<lparr>cb_nodes := [''B''], cb_loaded := {''B''}\<rparr>"] exI[of _ calls] conjI)
      simp_all
qed

text \<open>The slot of 27e serves the first client only, and its clients do not look at the
  result: a second module loads with 0 although its registration was refused, its three
  messages reach the first client, and unloading it silences the first client.\<close>

theorem slot_second_client:
  assumes "register_event_callback_e c1 None = (r1, s1)" and "module_b_init_e c2 s1 = (r2, calls, s2)"
  shows "r1 = 0 \<and> r2 = 0 \<and> fst (register_event_callback_e c2 s1) = - EBUSY \<and>
     calls = [(c1, ''Packet Received''), (c1, ''CAN Frame''), (c1, ''Interrupt'')] \<and>
     notify_event_e m (module_b_exit_e s2) = []"
  using assms
  by (auto simp: register_event_callback_e_def module_b_init_e_def notify_event_e_def
      module_b_exit_e_def unregister_event_callback_e_def Let_def)

theorem slot_second_client_witness:
  "notify_event_e ''x'' (module_b_exit_e (snd (snd (module_b_init_e ''second'' (Some ''first''))))) = []"
proof -
  have r: "register_event_callback_e ''first'' None = (0, Some ''first'')"
    by (simp add: register_event_callback_e_def)
  obtain r2 calls s2 where b: "module_b_init_e ''second'' (Some ''first'') = (r2, calls, s2)"
    by (rule prod_cases3)
  from slot_second_client[OF r b, of "''x''"] b show ?thesis by simp
qed

text \<open>In 27g module C (priority 20) hears every event before module B (priority 10),
  whichever of the two was loaded first.\<close>

theorem notifier_priority_order:
  assumes "chain_api_ok A"
  shows "module_c_init_g A (snd (module_b_init_g A [])) =
      (0, [(''callback2'', 1, ''Packet''), (''my_callback'', 1, ''Packet''),
           (''callback2'', 2, ''CAN''), (''my_callback'', 2, ''CAN''),
           (''callback2'', 3, ''IRQ''), (''my_callback'', 3, ''IRQ'')], [nb2, my_nb]) \<and>
    module_b_init_g A (snd (snd (module_c_init_g A []))) = (0, [nb2, my_nb])"
  using load_both[OF assms]
  by (simp add: module_b_init_g_def module_c_init_g_def send_event_all[OF assms] Let_def
      nb2_def my_nb_def)

theorem notifier_priority_order_witness:
  "module_b_init_g chain_plain (snd (snd (module_c_init_g chain_plain []))) = (0, [nb2, my_nb])"
  using notifier_priority_order[OF chain_plain_ok] by blast

text \<open>The buffer shared in 27b: module A's text is what module B finds, module B's text
  replaces it in place, and neither leaves the 256 bytes; without the buffer module B
  returns \<open>-ENOMEM\<close>.\<close>

theorem shared_buffer_handover:
  "\<exists>buf buf'. module_a_init_27b True = Some (0, Some buf) \<and> length buf = BUFFER_SIZE \<and>
     module_b_init_27b (Some buf) =
       Some (0, [bytes_of ''Hello from Module A'', bytes_of ''Modified by Module B''], Some buf') \<and>
     length buf' = BUFFER_SIZE \<and> module_b_init_27b None = Some (- ENOMEM, [], None)"
proof -
  let ?h = "bytes_of ''Hello from Module A''" and ?m = "bytes_of ''Modified by Module B''"
  let ?b = "?h @ 0 # replicate 236 0"
  let ?c = "?m @ 0 # drop 21 ?b"
  have h: "length ?h = 19" "takeWhile (\<lambda>b. b \<noteq> 0) ?h = ?h" by (simp_all add: bytes_of_def)
  have m: "length ?m = 20" "takeWhile (\<lambda>b. b \<noteq> 0) ?m = ?m" by (simp_all add: bytes_of_def)
  have a: "c_strcpy (replicate BUFFER_SIZE 0) ?h = Some ?b"
    using h by (simp add: c_strcpy_def c_store_def)
  have p: "c_snprintf ?b 256 ?m = Some ?c"
    using h m by (simp add: c_snprintf_def c_store_def)
  have s: "c_string ?b = Some ?h" "c_string ?c = Some ?m"
    using h(2) m(2) takeWhile_nz_append_zero[of ?h] takeWhile_nz_append_zero[of ?m]
    by (simp_all add: c_string_def)
  have l: "length ?b = 256" "length ?c = 256" using h(1) m(1) by simp_all
  have "module_a_init_27b True = Some (0, Some ?b)"
    using a s(1) by (simp add: module_a_init_27b_def)
  moreover have "module_b_init_27b (Some ?b) = Some (0, [?h, ?m], Some ?c)"
    using s p by (simp add: module_b_init_27b_def get_shared_buffer_def get_shared_buffer_size_def)
  moreover have "module_b_init_27b None = Some (- ENOMEM, [], None)"
    by (simp add: module_b_init_27b_def get_shared_buffer_def)
  ultimately show ?thesis using l by blast
qed

text \<open>The exported counter of 27a: the \<open>n\<close>-th load of module B prints \<open>3 * n\<close> as long as
  the \<open>int\<close> does not wrap, that is for the first 715827882 loads; the next one prints a
  negative number.\<close>

theorem counter_loads_values:
  assumes "3 * n < 2 ^ 31"
  shows "counter_loads n 0 = map (\<lambda>k. 3 * (int k + 1)) [0..<n] \<and>
         fst (snd (module_b_init_27a (of_nat (3 * 715827882)))) = - 2147483647"
proof -
  have "3 * (k + n) < 2 ^ 31 \<Longrightarrow>
      counter_loads n (of_nat (3 * k)) = map (\<lambda>i. 3 * (int i + 1)) [k..<k + n]" for k
  proof (induction n arbitrary: k)
    case (Suc n)
    have "sint (of_nat (3 * k + 3) :: 32 word) = int (3 * k + 3)"
      using Suc.prems by (subst signed_of_nat) (simp add: signed_take_bit_int_eq_self)
    then have "sint (3 + 3 * of_nat k :: 32 word) = 3 * int k + 3" by (simp add: add.commute)
    moreover have "(of_nat (3 * k) + 1 + 1 + 1 :: 32 word) = of_nat (3 * Suc k)" by simp
    ultimately show ?case using Suc.IH[of "Suc k"] Suc.prems
      by (simp add: module_b_init_27a_def increment_counter_def get_counter_def Let_def upt_conv_Cons
          add.commute del: upt_Suc)
  qed simp
  from this[of 0] assms show ?thesis
    by (simp add: module_b_init_27a_def increment_counter_def get_counter_def Let_def)
qed

theorem counter_loads_values_witness: "counter_loads 3 0 = [3, 6, 9]"
  using counter_loads_values[of 3] by (simp add: upt_rec)

end
