(* ===== verification/ModuleLinks.thy ===== *)
theory ModuleLinks
  imports Modules Ring
begin

text \<open>
  The modules of 27a to 27g as the kernel links them: module A exports functions, the others
  are loaded only while all they import is exported by a loaded module, and A can be unloaded
  only while no loaded module imports from it. The loader is not in the repository; the step
  below is its documented behaviour. A call of a function of a module that is not in memory,
  through an import or a stored function pointer, is undefined (\<open>None\<close>).
\<close>

section \<open>The loader\<close>

text \<open>
  \<open>mod_init\<close> and \<open>mod_exit\<close> get the modules in memory, the module itself included, and the
  variables of the family; \<open>'e\<close> is what the kernel calls made by \<open>init\<close> answer.
\<close>

record ('e, 's) kmodule =
  exports :: "string list"
  imports_of :: "string list"
  mod_init :: "'e \<Rightarrow> nat list \<Rightarrow> 's \<Rightarrow> (int \<times> 's) option"
  mod_exit :: "nat list \<Rightarrow> 's \<Rightarrow> 's option"

datatype 'e load_event = Load_module nat 'e | Unload_module nat

definition resolved :: "('e, 's) kmodule list \<Rightarrow> nat list \<Rightarrow> nat \<Rightarrow> bool" where
  "resolved mods L i \<longleftrightarrow>
     list_all (\<lambda>sym. list_ex (\<lambda>j. sym \<in> set (exports (mods ! j))) L) (imports_of (mods ! i))"

definition uses :: "('e, 's) kmodule list \<Rightarrow> nat \<Rightarrow> nat \<Rightarrow> bool" where
  "uses mods j i \<longleftrightarrow> list_ex (\<lambda>sym. sym \<in> set (exports (mods ! i))) (imports_of (mods ! j))"

fun load_step ::
    "('e, 's) kmodule list \<Rightarrow> 'e load_event \<Rightarrow> nat list \<times> 's \<Rightarrow> (int \<times> nat list \<times> 's) option" where
  "load_step mods (Load_module i e) (L, s) =
     (if length mods \<le> i then Some (- ENOENT, L, s)
      else if i \<in> set L then Some (- EEXIST, L, s)
      else if \<not> resolved mods L i then Some (- ENOENT, L, s)
      else map_option (\<lambda>(r, s'). (r, if r < 0 then L else i # L, s')) (mod_init (mods ! i) e (i # L) s))"
| "load_step mods (Unload_module i) (L, s) =
     (if i \<notin> set L then Some (- ENOENT, L, s)
      else if list_ex (\<lambda>j. uses mods j i) (remove1 i L) then Some (- EAGAIN, L, s)
      else map_option (\<lambda>s'. (0, remove1 i L, s')) (mod_exit (mods ! i) L s))"

fun load_run ::
    "('e, 's) kmodule list \<Rightarrow> 'e load_event list \<Rightarrow> nat list \<times> 's \<Rightarrow> (int list \<times> nat list \<times> 's) option" where
  "load_run mods [] Ls = Some ([], Ls)"
| "load_run mods (e # es) Ls = do {
     (r, Ls) \<leftarrow> load_step mods e Ls;
     (rs, Ls) \<leftarrow> load_run mods es Ls;
     Some (r # rs, Ls)
   }"

text \<open>What the loader keeps: every import of a loaded module is exported by a loaded one.\<close>

definition linked :: "('e, 's) kmodule list \<Rightarrow> nat list \<Rightarrow> bool" where
  "linked mods L \<longleftrightarrow> distinct L \<and> (\<forall>i \<in> set L. i < length mods \<and> resolved mods L i)"

lemma resolved_mono: "set L \<subseteq> set L' \<Longrightarrow> resolved mods L i \<Longrightarrow> resolved mods L' i"
  by (fastforce simp: resolved_def list_all_iff list_ex_iff)

lemma resolved_without:
  "resolved mods L j \<Longrightarrow> \<not> uses mods j i \<Longrightarrow> set L - {i} \<subseteq> set L' \<Longrightarrow> resolved mods L' j"
  by (fastforce simp: resolved_def uses_def list_all_iff list_ex_iff)

lemma linked_load: "linked mods L \<Longrightarrow> i < length mods \<Longrightarrow> i \<notin> set L \<Longrightarrow> resolved mods L i \<Longrightarrow> linked mods (i # L)"
  using resolved_mono[of L "i # L" mods] by (auto simp: linked_def)

lemma linked_unload:
  assumes "linked mods L" and "i \<in> set L" and "\<forall>j \<in> set L - {i}. \<not> uses mods j i"
  shows "linked mods (remove1 i L)"
proof -
  have d: "set (remove1 i L) = set L - {i}" using assms(1) by (simp add: linked_def set_remove1_eq)
  with assms show ?thesis
    using resolved_without[of mods L _ i "remove1 i L"] by (auto simp: linked_def)
qed

text \<open>
  The contract of a family: an invariant that relates the modules in memory to the variables,
  under which every \<open>init\<close> and \<open>exit\<close> the loader runs is defined.
\<close>

locale module_family =
  fixes mods :: "('e, 's) kmodule list" and good :: "nat set \<Rightarrow> 's \<Rightarrow> bool"
  assumes init_ok: "linked mods L \<Longrightarrow> linked mods (i # L) \<Longrightarrow> good (set L) s \<Longrightarrow>
      \<exists>r s'. mod_init (mods ! i) e (i # L) s = Some (r, s') \<and> good (if r < 0 then set L else insert i (set L)) s'"
    and exit_ok: "linked mods L \<Longrightarrow> i \<in> set L \<Longrightarrow> \<forall>j \<in> set L - {i}. \<not> uses mods j i \<Longrightarrow> good (set L) s \<Longrightarrow>
      \<exists>s'. mod_exit (mods ! i) L s = Some s' \<and> good (set L - {i}) s'"
begin

lemma step_ok:
  assumes "linked mods L" and "good (set L) s"
  shows "\<exists>r L' s'. load_step mods ev (L, s) = Some (r, L', s') \<and> linked mods L' \<and> good (set L') s'"
proof (cases ev)
  case (Load_module i e)
  show ?thesis
  proof (cases "i < length mods \<and> i \<notin> set L \<and> resolved mods L i")
    case True
    then have l: "linked mods (i # L)" using linked_load assms(1) by blast
    with init_ok[OF assms(1) l assms(2), of e] assms(1) True Load_module show ?thesis by (auto split: if_splits)
  qed (use assms Load_module in auto)
next
  case (Unload_module i)
  have d: "distinct L" using assms(1) by (simp add: linked_def)
  show ?thesis
  proof (cases "i \<in> set L \<and> (\<forall>j \<in> set L - {i}. \<not> uses mods j i)")
    case True
    with exit_ok[OF assms(1), of i s] linked_unload[OF assms(1), of i] assms(2) Unload_module d
    show ?thesis by (auto simp: list_ex_iff set_remove1_eq)
  qed (use assms Unload_module d in \<open>auto simp: list_ex_iff set_remove1_eq\<close>)
qed

lemma run_ok:
  "linked mods L \<Longrightarrow> good (set L) s \<Longrightarrow>
   \<exists>rs L' s'. load_run mods es (L, s) = Some (rs, L', s') \<and> linked mods L' \<and> good (set L') s'"
proof (induction es arbitrary: L s)
  case (Cons e es)
  obtain r L1 s1 where s: "load_step mods e (L, s) = Some (r, L1, s1)" "linked mods L1" "good (set L1) s1"
    using step_ok[OF Cons.prems, of e] by blast
  with Cons.IH[OF s(2,3)] show ?case by auto
qed auto

lemma run_from_start: "good {} s \<Longrightarrow>
   \<exists>rs L s'. load_run mods es ([], s) = Some (rs, L, s') \<and> linked mods L \<and> good (set L) s'"
  using run_ok[of "[]" s es] by (simp add: linked_def)

end

section \<open>The families\<close>

text \<open>A function of module \<open>j\<close> is called: its code has to be in memory.\<close>

definition call_module :: "nat list \<Rightarrow> nat \<Rightarrow> 'a \<Rightarrow> 'a option" where
  "call_module L j x = (if j \<in> set L then Some x else None)"

text \<open>What \<open>init\<close> and \<open>exit\<close> only print is left out below.\<close>

subsection \<open>27a\<close>

definition module_a_init_27a :: "counter \<times> int list \<Rightarrow> int \<times> counter \<times> int list" where
  "module_a_init_27a s = (0, s)"

definition module_a_exit_27a :: "counter \<times> int list \<Rightarrow> counter \<times> int list" where
  "module_a_exit_27a s = s"

definition module_b_exit_27a :: "counter \<times> int list \<Rightarrow> counter \<times> int list" where
  "module_b_exit_27a s = s"

text \<open>
  The variables are the counter, which is 0 when module A is put in memory, and the numbers
  module B printed since.
\<close>

definition family_27a :: "(unit, counter \<times> int list) kmodule list" where
  "family_27a =
     [\<lparr>exports = [''increment_counter'', ''get_counter''], imports_of = [],
       mod_init = \<lambda>_ L s. Some (module_a_init_27a (0, [])), mod_exit = \<lambda>L s. Some (module_a_exit_27a s)\<rparr>,
      \<lparr>exports = [], imports_of = [''increment_counter'', ''get_counter''],
       mod_init = \<lambda>_ L (c, shown). map_option (\<lambda>(r, n, c'). (r, c', shown @ [n]))
         (call_module L 0 (module_b_init_27a c)),
       mod_exit = \<lambda>L s. Some (module_b_exit_27a s)\<rparr>]"

text \<open>27b and 27c keep a pointer to memory of their own; \<open>live\<close> counts what was not freed.\<close>

record 'b heap_mod =
  heap_ptr :: "'b option"
  live :: nat

definition kzalloc_ptr :: "'b option \<Rightarrow> 'b heap_mod \<Rightarrow> 'b heap_mod" where
  "kzalloc_ptr p s = \<lparr>heap_ptr = p, live = live s + (if p = None then 0 else 1)\<rparr>"

definition kfree_ptr :: "'b heap_mod \<Rightarrow> 'b heap_mod option" where
  "kfree_ptr s = (if heap_ptr s = None then Some s
     else if live s = 0 then None else Some (s\<lparr>live := live s - 1\<rparr>))"

definition live_ptr :: "'b heap_mod \<Rightarrow> 'b option" where
  "live_ptr s = (if live s = 0 then None else heap_ptr s)"

subsection \<open>27b\<close>

definition module_a_exit_27b :: "byte list heap_mod \<Rightarrow> byte list heap_mod option" where
  "module_a_exit_27b s = kfree_ptr s"

definition module_b_exit_27b :: "byte list heap_mod \<Rightarrow> byte list heap_mod" where
  "module_b_exit_27b s = s"

definition family_27b :: "(bool, byte list heap_mod) kmodule list" where
  "family_27b =
     [\<lparr>exports = [''get_shared_buffer'', ''get_shared_buffer_size''], imports_of = [],
       mod_init = \<lambda>ok L s. map_option (\<lambda>(r, p). (r, kzalloc_ptr p s)) (module_a_init_27b ok),
       mod_exit = \<lambda>L s. module_a_exit_27b s\<rparr>,
      \<lparr>exports = [], imports_of = [''get_shared_buffer'', ''get_shared_buffer_size''],
       mod_init = \<lambda>_ L s. do {
         p \<leftarrow> call_module L 0 (heap_ptr s);
         (if p \<noteq> None \<and> live s = 0 then None
          else map_option (\<lambda>(r, _, p'). (r, s\<lparr>heap_ptr := p'\<rparr>)) (module_b_init_27b p)) },
       mod_exit = \<lambda>L s. Some (module_b_exit_27b s)\<rparr>]"

subsection \<open>27c\<close>

definition module_a_exit_c :: "ring_buffer heap_mod \<Rightarrow> ring_buffer heap_mod option" where
  "module_a_exit_c s = kfree_ptr s"

definition module_b_exit_c :: "ring_buffer heap_mod \<Rightarrow> ring_buffer heap_mod" where
  "module_b_exit_c s = s"

definition get_ring :: "ring_buffer heap_mod \<Rightarrow> ring_buffer option" where
  "get_ring s = heap_ptr s"

definition family_27c :: "(bool, ring_buffer heap_mod) kmodule list" where
  "family_27c =
     [\<lparr>exports = [''get_ring'', ''ring_push'', ''ring_pop''], imports_of = [],
       mod_init = \<lambda>ok L s. Some (case module_a_init_c ok of (r, p) \<Rightarrow> (r, kzalloc_ptr p s)),
       mod_exit = \<lambda>L s. module_a_exit_c s\<rparr>,
      \<lparr>exports = [], imports_of = [''ring_push'', ''ring_pop''],
       mod_init = \<lambda>_ L s. do {
         p \<leftarrow> call_module L 0 (live_ptr s);
         ring \<leftarrow> p;
         (r, _, ring') \<leftarrow> module_b_init_c ring;
         Some (r, s\<lparr>heap_ptr := Some ring'\<rparr>) },
       mod_exit = \<lambda>L s. Some (module_b_exit_c s)\<rparr>]"

subsection \<open>27e to 27g: function pointers\<close>

text \<open>A stored pointer is called: its module has to be in memory.\<close>

definition callbacks_ok :: "(cb \<Rightarrow> nat) \<Rightarrow> nat list \<Rightarrow> cb list \<Rightarrow> bool" where
  "callbacks_ok module_of L cs \<longleftrightarrow> list_all (\<lambda>c. module_of c \<in> set L) cs"

definition module_a_init_e :: "cb option \<Rightarrow> int \<times> cb option" where
  "module_a_init_e callback = (0, callback)"

definition module_a_exit_e :: "cb option \<Rightarrow> cb option" where
  "module_a_exit_e callback = None"

definition family_27e :: "(unit, cb option) kmodule list" where
  "family_27e =
     [\<lparr>exports = [''register_event_callback'', ''unregister_event_callback'', ''notify_event''], imports_of = [],
       mod_init = \<lambda>_ L s. Some (module_a_init_e None), mod_exit = \<lambda>L s. Some (module_a_exit_e s)\<rparr>,
      \<lparr>exports = [], imports_of = [''register_event_callback'', ''unregister_event_callback'', ''notify_event''],
       mod_init = \<lambda>_ L s. do {
         (r, calls, s') \<leftarrow> call_module L 0 (module_b_init_e ''my_callback'' s);
         (if callbacks_ok (\<lambda>_. 1) L (map fst calls) then Some (r, s') else None) },
       mod_exit = \<lambda>L s. call_module L 0 (module_b_exit_e s)\<rparr>]"

text \<open>
  27f: nodes of the list that module A leaves behind when it goes are lost. Modules B, C and D
  are at 1, 2 and 3.
\<close>

record callback_mod =
  callback_list :: "cb list"
  lost :: nat

definition module_of_f :: "cb \<Rightarrow> nat" where
  "module_of_f c = (if c = ''callback_B'' then 1 else 2)"

definition module_a_init_f :: "cb list \<Rightarrow> int \<times> cb list" where
  "module_a_init_f l = (0, l)"

definition module_a_exit_f :: "callback_mod \<Rightarrow> callback_mod" where
  "module_a_exit_f s = s\<lparr>lost := lost s + length (callback_list s), callback_list := []\<rparr>"

definition module_b_init_f :: "bool \<Rightarrow> cb list \<Rightarrow> int \<times> cb list" where
  "module_b_init_f ok l = module_init_f ok ''callback_B'' l"

definition module_b_exit_f :: "cb list \<Rightarrow> cb list" where
  "module_b_exit_f l = module_exit_f ''callback_B'' l"

definition module_c_init_f :: "bool \<Rightarrow> cb list \<Rightarrow> int \<times> cb list" where
  "module_c_init_f ok l = module_init_f ok ''callback_C'' l"

definition module_c_exit_f :: "cb list \<Rightarrow> cb list" where
  "module_c_exit_f l = module_exit_f ''callback_C'' l"

definition module_d_exit_f :: "callback_mod \<Rightarrow> callback_mod" where
  "module_d_exit_f s = s"

definition family_27f :: "(bool, callback_mod) kmodule list" where
  "family_27f =
     [\<lparr>exports = [''register_event_callback'', ''unregister_event_callback'', ''notify_event''], imports_of = [],
       mod_init = \<lambda>_ L s. Some (case module_a_init_f [] of (r, l) \<Rightarrow> (r, s\<lparr>callback_list := l\<rparr>)),
       mod_exit = \<lambda>L s. Some (module_a_exit_f s)\<rparr>,
      \<lparr>exports = [], imports_of = [''register_event_callback'', ''unregister_event_callback''],
       mod_init = \<lambda>ok L s. map_option (\<lambda>(r, l). (r, s\<lparr>callback_list := l\<rparr>))
         (call_module L 0 (module_b_init_f ok (callback_list s))),
       mod_exit = \<lambda>L s. map_option (\<lambda>l. s\<lparr>callback_list := l\<rparr>)
         (call_module L 0 (module_b_exit_f (callback_list s)))\<rparr>,
      \<lparr>exports = [], imports_of = [''register_event_callback'', ''unregister_event_callback''],
       mod_init = \<lambda>ok L s. map_option (\<lambda>(r, l). (r, s\<lparr>callback_list := l\<rparr>))
         (call_module L 0 (module_c_init_f ok (callback_list s))),
       mod_exit = \<lambda>L s. map_option (\<lambda>l. s\<lparr>callback_list := l\<rparr>)
         (call_module L 0 (module_c_exit_f (callback_list s)))\<rparr>,
      \<lparr>exports = [], imports_of = [''notify_event''],
       mod_init = \<lambda>_ L s. do {
         (r, calls) \<leftarrow> call_module L 0 (module_d_init_f (callback_list s));
         (if callbacks_ok module_of_f L (map fst calls) then Some (r, s) else None) },
       mod_exit = \<lambda>L s. Some (module_d_exit_f s)\<rparr>]"

text \<open>27g: modules B and C are at 1 and 2.\<close>

definition module_of_g :: "cb \<Rightarrow> nat" where
  "module_of_g c = (if c = ''my_callback'' then 1 else 2)"

definition module_a_init_g :: "notifier_block list \<Rightarrow> int \<times> notifier_block list" where
  "module_a_init_g my_chain = (0, my_chain)"

definition module_a_exit_g :: "notifier_block list \<Rightarrow> notifier_block list" where
  "module_a_exit_g my_chain = my_chain"

definition module_b_exit_g :: "chain_api \<Rightarrow> notifier_block list \<Rightarrow> notifier_block list" where
  "module_b_exit_g A my_chain = snd (unregister_my_notifier A my_nb my_chain)"

definition module_c_exit_g :: "chain_api \<Rightarrow> notifier_block list \<Rightarrow> notifier_block list" where
  "module_c_exit_g A my_chain = snd (unregister_my_notifier A nb2 my_chain)"

definition family_27g :: "chain_api \<Rightarrow> (unit, notifier_block list) kmodule list" where
  "family_27g A =
     [\<lparr>exports = [''register_my_notifier'', ''unregister_my_notifier'', ''send_event''], imports_of = [],
       mod_init = \<lambda>_ L s. Some (module_a_init_g []), mod_exit = \<lambda>L s. Some (module_a_exit_g s)\<rparr>,
      \<lparr>exports = [], imports_of = [''register_my_notifier'', ''unregister_my_notifier''],
       mod_init = \<lambda>_ L s. call_module L 0 (module_b_init_g A s),
       mod_exit = \<lambda>L s. call_module L 0 (module_b_exit_g A s)\<rparr>,
      \<lparr>exports = [], imports_of = [''register_my_notifier'', ''unregister_my_notifier'', ''send_event''],
       mod_init = \<lambda>_ L s. do {
         (r, calls, s') \<leftarrow> call_module L 0 (module_c_init_g A s);
         (if callbacks_ok module_of_g L (map fst calls) then Some (r, s') else None) },
       mod_exit = \<lambda>L s. call_module L 0 (module_c_exit_g A s)\<rparr>]"

lemma family_sizes [simp]:
  "length family_27a = 2" "length family_27b = 2" "length family_27c = 2" "length family_27e = 2"
  "length family_27f = 4" "length (family_27g A) = 3"
  by (simp_all add: family_27a_def family_27b_def family_27c_def family_27e_def family_27f_def family_27g_def)

section \<open>The families meet the contract\<close>

text \<open>In every family module A provides, and the others import something of it.\<close>

definition provided_by_a :: "('e, 's) kmodule list \<Rightarrow> bool" where
  "provided_by_a mods \<longleftrightarrow> (\<forall>j < length mods. j \<noteq> 0 \<longrightarrow> exports (mods ! j) = [] \<and> uses mods j 0 \<and>
     (\<exists>sym \<in> set (imports_of (mods ! j)). True))"

lemma needs_a:
  assumes "provided_by_a mods" and "linked mods L" and "j \<in> set L" and "j \<noteq> 0"
  shows "0 \<in> set L"
proof -
  have j: "j < length mods" "resolved mods L j" using assms(2,3) by (auto simp: linked_def)
  then obtain sym where "sym \<in> set (imports_of (mods ! j))" using assms(1,4) by (auto simp: provided_by_a_def)
  with j(2) obtain k where k: "k \<in> set L" "sym \<in> set (exports (mods ! k))"
    by (auto simp: resolved_def list_all_iff list_ex_iff)
  then have "k < length mods" using assms(2) by (auto simp: linked_def)
  with k assms(1) show ?thesis by (cases "k = 0") (auto simp: provided_by_a_def)
qed

lemma provided [simp]:
  "provided_by_a family_27a" "provided_by_a family_27b" "provided_by_a family_27c" "provided_by_a family_27e"
  "provided_by_a family_27f" "provided_by_a (family_27g A)"
  by (auto simp: provided_by_a_def uses_def less_Suc_eq numeral_eq_Suc family_27a_def family_27b_def
    family_27c_def family_27e_def family_27f_def family_27g_def)

lemma alone_when_a_goes:
  "provided_by_a mods \<Longrightarrow> linked mods L \<Longrightarrow> \<forall>j \<in> set L - {0}. \<not> uses mods j 0 \<Longrightarrow> 0 \<in> set L \<Longrightarrow> set L = {0}"
  by (auto simp: provided_by_a_def linked_def)

lemma module_familyI:
  assumes p: "provided_by_a mods"
    and a_init: "\<And>e s. good {} s \<Longrightarrow>
      \<exists>r s'. mod_init (mods ! 0) e [0] s = Some (r, s') \<and> good (if r < 0 then {} else {0}) s'"
    and a_exit: "\<And>L s. set L = {0} \<Longrightarrow> good {0} s \<Longrightarrow> \<exists>s'. mod_exit (mods ! 0) L s = Some s' \<and> good {} s'"
    and b_init: "\<And>i e L s. 0 < i \<Longrightarrow> i < length mods \<Longrightarrow> i \<notin> set L \<Longrightarrow> 0 \<in> set L \<Longrightarrow> good (set L) s \<Longrightarrow>
      \<exists>r s'. mod_init (mods ! i) e (i # L) s = Some (r, s') \<and> good (if r < 0 then set L else insert i (set L)) s'"
    and b_exit: "\<And>i L s. 0 < i \<Longrightarrow> i < length mods \<Longrightarrow> i \<in> set L \<Longrightarrow> 0 \<in> set L \<Longrightarrow> good (set L) s \<Longrightarrow>
      \<exists>s'. mod_exit (mods ! i) L s = Some s' \<and> good (set L - {i}) s'"
  shows "module_family mods good"
proof
  fix L i s e
  assume l: "linked mods L" "linked mods (i # L)" and g: "good (set L) s"
  have i: "i < length mods" "i \<notin> set L" using l(2) by (auto simp: linked_def)
  show "\<exists>r s'. mod_init (mods ! i) e (i # L) s = Some (r, s') \<and> good (if r < 0 then set L else insert i (set L)) s'"
  proof (cases "i = 0")
    case True
    then have nil: "L = []" using needs_a[OF p l(1)] i(2) by (metis list.set_intros(1) neq_Nil_conv)
    show ?thesis using a_init[of s e] g unfolding True nil list.set by blast
  next
    case False
    then have "0 \<in> set L" using needs_a[OF p l(2), of i] by simp
    with b_init[of i L s e] False i g show ?thesis by (simp split del: if_split)
  qed
next
  fix L i s
  assume l: "linked mods L" "i \<in> set L" "\<forall>j \<in> set L - {i}. \<not> uses mods j i" and g: "good (set L) s"
  show "\<exists>s'. mod_exit (mods ! i) L s = Some s' \<and> good (set L - {i}) s'"
  proof (cases "i = 0")
    case True
    then have "set L = {0}" using alone_when_a_goes[OF p l(1)] l(2,3) by blast
    with a_exit[of L s] g True show ?thesis by simp
  next
    case False
    then have "0 \<in> set L" "i < length mods" using needs_a[OF p l(1,2)] l(1,2) by (auto simp: linked_def)
    with b_exit[of i L s] False l(2) g show ?thesis by simp
  qed
qed

definition counted :: "nat set \<Rightarrow> counter \<times> int list \<Rightarrow> bool" where
  "counted L s \<longleftrightarrow> fst s = of_nat (3 * length (snd s)) \<and>
     snd s = map (\<lambda>k. sint (of_nat (3 * (k + 1)) :: counter)) [0..<length (snd s)]"

lemma b_27a: "module_b_init_27a (of_nat (3 * n)) =
    (0, sint (of_nat (3 * (n + 1)) :: counter), of_nat (3 * (n + 1)))"
  by (simp add: module_b_init_27a_def increment_counter_def get_counter_def Let_def algebra_simps)

interpretation links_a: module_family family_27a counted
proof (rule module_familyI[OF provided(1)])
  fix i e L and s :: "counter \<times> int list"
  assume "0 < i" "i < length family_27a" "0 \<in> set L" "counted (set L) s"
  moreover obtain c shown where s: "s = (c, shown)" by (rule prod.exhaust)
  ultimately show "\<exists>r s'. mod_init (family_27a ! i) e (i # L) s = Some (r, s') \<and>
      counted (if r < 0 then set L else insert i (set L)) s'"
    using b_27a[of "length shown"] by (auto simp: family_27a_def less_Suc_eq numeral_2_eq_2 call_module_def counted_def)
qed (auto simp: family_27a_def less_Suc_eq numeral_2_eq_2 counted_def module_a_init_27a_def module_a_exit_27a_def
      module_b_exit_27a_def)

text \<open>Memory of module A is there exactly while it is loaded, with what \<open>P\<close> says in it.\<close>

definition heap_good :: "('b \<Rightarrow> bool) \<Rightarrow> nat set \<Rightarrow> 'b heap_mod \<Rightarrow> bool" where
  "heap_good P L s \<longleftrightarrow> live s = (if 0 \<in> L then 1 else 0) \<and> (0 \<in> L \<longrightarrow> (\<exists>b. heap_ptr s = Some b \<and> P b))"

definition text_256 :: "byte list \<Rightarrow> bool" where
  "text_256 b \<longleftrightarrow> length b = BUFFER_SIZE \<and> 0 \<in> set b"

lemma a_27b: "\<exists>b. module_a_init_27b True = Some (0, Some b) \<and> text_256 b"
proof -
  have "length (bytes_of ''Hello from Module A'') = 19" by (simp add: bytes_of_def)
  then show ?thesis
    by (auto simp: module_a_init_27b_def c_strcpy_def c_store_def c_string_def text_256_def)
qed

lemma b_27b: "text_256 b \<Longrightarrow> \<exists>out b'. module_b_init_27b (Some b) = Some (0, out, Some b') \<and> text_256 b'"
proof -
  assume b: "text_256 b"
  have "length (bytes_of ''Modified by Module B'') = 20" by (simp add: bytes_of_def)
  with b show ?thesis
    by (auto simp: module_b_init_27b_def get_shared_buffer_def get_shared_buffer_size_def c_snprintf_def c_store_def
      c_string_def text_256_def)
qed

interpretation links_b: module_family family_27b "heap_good text_256"
proof (rule module_familyI[OF provided(2)])
  fix e :: bool and s
  assume "heap_good text_256 {} s"
  then show "\<exists>r s'. mod_init (family_27b ! 0) e [0] s = Some (r, s') \<and>
      heap_good text_256 (if r < 0 then {} else {0}) s'"
  proof (cases e)
    case True
    obtain b where "module_a_init_27b True = Some (0, Some b)" "text_256 b" using a_27b by blast
    with True \<open>heap_good text_256 {} s\<close> show ?thesis
      by (intro exI[of _ 0] exI[of _ "kzalloc_ptr (Some b) s"]) (simp add: family_27b_def heap_good_def kzalloc_ptr_def)
  qed (simp add: family_27b_def heap_good_def kzalloc_ptr_def module_a_init_27b_def)
next
  fix i e L s
  assume "0 < i" "i < length family_27b" "0 \<in> set L" "heap_good text_256 (set L) s"
  then show "\<exists>r s'. mod_init (family_27b ! i) e (i # L) s = Some (r, s') \<and>
      heap_good text_256 (if r < 0 then set L else insert i (set L)) s'"
    using b_27b by (fastforce simp: family_27b_def less_Suc_eq numeral_2_eq_2 call_module_def heap_good_def)
qed (auto simp: family_27b_def less_Suc_eq numeral_2_eq_2 heap_good_def module_a_exit_27b_def kfree_ptr_def
      module_b_exit_27b_def)

definition ring_empty :: "ring_buffer \<Rightarrow> bool" where
  "ring_empty r \<longleftrightarrow> ring_inv r \<and> ring_list r = []"

lemma b_27c: "ring_empty r \<Longrightarrow> \<exists>r'. module_b_init_c r = Some (0, [''Packet A'', ''Packet B'', ''Packet C''], r') \<and> ring_empty r'"
  using module_b_c_run by (auto simp: ring_empty_def)

interpretation links_c: module_family family_27c "heap_good ring_empty"
proof (rule module_familyI[OF provided(3)])
  fix i e L s
  assume "0 < i" "i < length family_27c" "0 \<in> set L" "heap_good ring_empty (set L) s"
  then show "\<exists>r s'. mod_init (family_27c ! i) e (i # L) s = Some (r, s') \<and>
      heap_good ring_empty (if r < 0 then set L else insert i (set L)) s'"
    using b_27c by (fastforce simp: family_27c_def less_Suc_eq numeral_2_eq_2 call_module_def heap_good_def live_ptr_def)
qed (auto simp: family_27c_def less_Suc_eq numeral_2_eq_2 heap_good_def module_a_exit_c_def kfree_ptr_def
      module_b_exit_c_def module_a_init_c_def kzalloc_ptr_def ring_empty_def ring_inv_alloc ring_list_alloc)

definition slot_good :: "nat set \<Rightarrow> cb option \<Rightarrow> bool" where
  "slot_good L s \<longleftrightarrow> (0 \<in> L \<longrightarrow> s = (if 1 \<in> L then Some ''my_callback'' else None))"

lemmas slot_defs = module_b_init_e_def register_event_callback_e_def notify_event_e_def module_b_exit_e_def
  unregister_event_callback_e_def module_a_init_e_def module_a_exit_e_def

interpretation links_e: module_family family_27e slot_good
  by (rule module_familyI[OF provided(4)])
    (auto simp: family_27e_def less_Suc_eq numeral_2_eq_2 call_module_def slot_good_def slot_defs callbacks_ok_def)

definition names_ok :: "nat set \<Rightarrow> cb list \<Rightarrow> bool" where
  "names_ok L cs \<longleftrightarrow> distinct cs \<and>
     (\<forall>c \<in> set cs. (c = ''callback_B'' \<and> 1 \<in> L) \<or> (c = ''callback_C'' \<and> 2 \<in> L))"

definition list_good :: "nat set \<Rightarrow> callback_mod \<Rightarrow> bool" where
  "list_good L s \<longleftrightarrow> lost s = 0 \<and> (0 \<in> L \<longrightarrow> names_ok L (callback_list s))"

lemma names_more: "names_ok L cs \<Longrightarrow> names_ok (insert i L) cs"
  by (auto simp: names_ok_def)

lemma names_add:
  "names_ok L cs \<Longrightarrow> 1 \<notin> L \<Longrightarrow> names_ok (insert 1 L) (cs @ [''callback_B''])"
  "names_ok L cs \<Longrightarrow> 2 \<notin> L \<Longrightarrow> names_ok (insert 2 L) (cs @ [''callback_C''])"
  by (auto simp: names_ok_def)

lemma names_remove:
  "names_ok L cs \<Longrightarrow> names_ok (L - {1}) (remove1 ''callback_B'' cs)"
  "names_ok L cs \<Longrightarrow> names_ok (L - {2}) (remove1 ''callback_C'' cs)"
  "names_ok L cs \<Longrightarrow> names_ok (L - {3}) cs"
  by (auto simp: names_ok_def set_remove1_eq)

lemma names_none: "names_ok {0} cs \<Longrightarrow> cs = []"
  by (cases cs) (auto simp: names_ok_def)

lemma callbacks_ok_triple:
  "callbacks_ok f L (map fst (snd (module_d_init_f cs))) \<longleftrightarrow> callbacks_ok f L cs"
  by (auto simp: callbacks_ok_def list_all_iff module_d_init_f_def notify_f_map)

lemma names_in_memory: "names_ok (set L) cs \<Longrightarrow> callbacks_ok module_of_f (3 # L) cs"
  unfolding names_ok_def callbacks_ok_def list_all_iff module_of_f_def by fastforce

lemmas list_defs = module_b_init_f_def module_c_init_f_def module_b_exit_f_def module_c_exit_f_def module_init_f_def
  module_exit_f_def register_event_callback_f_def unregister_f_remove1 module_a_init_f_def module_a_exit_f_def
  module_d_exit_f_def

lemma up_to_3: "0 < (i :: nat) \<Longrightarrow> i < 4 \<Longrightarrow> i = 1 \<or> i = 2 \<or> i = 3"
  by auto

interpretation links_f: module_family family_27f list_good
proof (rule module_familyI[OF provided(5)])
  fix i and e :: bool and L s
  assume i: "0 < i" "i < length family_27f" "i \<notin> set L" "0 \<in> set L" and g: "list_good (set L) s"
  then consider "i = 1" | "i = 2" | "i = 3" using up_to_3[of i] by auto
  then show "\<exists>r s'. mod_init (family_27f ! i) e (i # L) s = Some (r, s') \<and>
      list_good (if r < 0 then set L else insert i (set L)) s'"
  proof cases
    case 1
    then show ?thesis using i g names_add(1)[of "set L" "callback_list s"] names_more[of "set L" "callback_list s"]
      by (intro exI[of _ 0]) (cases e; simp add: family_27f_def call_module_def list_good_def list_defs)
  next
    case 2
    then show ?thesis using i g names_add(2)[of "set L" "callback_list s"] names_more[of "set L" "callback_list s"]
      by (intro exI[of _ 0]) (cases e; simp add: family_27f_def call_module_def list_good_def list_defs)
  next
    case 3
    have "fst (module_d_init_f (callback_list s)) = 0" by (simp add: module_d_init_f_def)
    with 3 show ?thesis using i g names_in_memory[of L "callback_list s"] names_more[of "set L" "callback_list s"]
      by (intro exI[of _ 0]) (simp add: family_27f_def call_module_def list_good_def split_beta callbacks_ok_triple)
  qed
next
  fix i L s
  assume i: "0 < i" "i < length family_27f" "i \<in> set L" "0 \<in> set L" and g: "list_good (set L) s"
  then consider "i = 1" | "i = 2" | "i = 3" using up_to_3[of i] by auto
  then show "\<exists>s'. mod_exit (family_27f ! i) L s = Some s' \<and> list_good (set L - {i}) s'"
  proof cases
    case 1
    with i g names_remove(1)[of "set L" "callback_list s"] show ?thesis
      by (simp add: family_27f_def call_module_def list_good_def list_defs)
  next
    case 2
    with i g names_remove(2)[of "set L" "callback_list s"] show ?thesis
      by (simp add: family_27f_def call_module_def list_good_def list_defs)
  next
    case 3
    with i g names_remove(3)[of "set L" "callback_list s"] show ?thesis
      by (simp add: family_27f_def list_good_def list_defs)
  qed
next
  fix L :: "nat list" and s
  assume "set L = {0}" "list_good {0} s"
  then show "\<exists>s'. mod_exit (family_27f ! 0) L s = Some s' \<and> list_good {} s'"
    using names_none[of "callback_list s"] by (simp add: family_27f_def list_good_def list_defs)
qed (auto simp: family_27f_def list_good_def list_defs names_ok_def)

text \<open>The chain holds the blocks of the modules in memory, in the order of their priorities.\<close>

definition chain_good :: "nat set \<Rightarrow> notifier_block list \<Rightarrow> bool" where
  "chain_good L ch \<longleftrightarrow> (0 \<in> L \<longrightarrow> by_priority ch \<and>
     mset ch = (if 1 \<in> L then {#my_nb#} else {#}) + (if 2 \<in> L then {#nb2#} else {#}))"

lemma chain_members:
  assumes "chain_good L ch" and "0 \<in> L"
  shows "set ch = (if 1 \<in> L then {my_nb} else {}) \<union> (if 2 \<in> L then {nb2} else {})"
proof -
  have "set ch = set_mset ((if 1 \<in> L then {#my_nb#} else {#}) + (if 2 \<in> L then {#nb2#} else {#}))"
    using assms set_mset_mset[of ch] unfolding chain_good_def by metis
  then show ?thesis by (simp split: if_splits)
qed

lemma nbs_differ [simp]: "my_nb \<noteq> nb2" "nb2 \<noteq> my_nb"
  by (simp_all add: my_nb_def nb2_def)

lemma chain_reg:
  assumes "chain_api_ok A" and "chain_good L ch" and "0 \<in> L"
  shows "1 \<notin> L \<Longrightarrow> chain_good (insert 1 L) (snd (register_my_notifier A my_nb ch))"
    and "2 \<notin> L \<Longrightarrow> chain_good (insert 2 L) (snd (register_my_notifier A nb2 ch))"
proof -
  have r: "by_priority (snd (register_my_notifier A nb ch)) \<and>
      mset (snd (register_my_notifier A nb ch)) = (if nb \<in> set ch then mset ch else add_mset nb (mset ch))" for nb
    using assms unfolding chain_api_ok_def register_my_notifier_def chain_good_def by blast
  have m: "set ch = (if 1 \<in> L then {my_nb} else {}) \<union> (if 2 \<in> L then {nb2} else {})"
    using chain_members assms by blast
  show "1 \<notin> L \<Longrightarrow> chain_good (insert 1 L) (snd (register_my_notifier A my_nb ch))"
    using r[of my_nb] m assms(2,3) by (simp add: chain_good_def)
  show "2 \<notin> L \<Longrightarrow> chain_good (insert 2 L) (snd (register_my_notifier A nb2 ch))"
    using r[of nb2] m assms(2,3) by (simp add: chain_good_def)
qed

lemma chain_unreg:
  assumes "chain_api_ok A" and "chain_good L ch" and "0 \<in> L"
  shows "1 \<in> L \<Longrightarrow> chain_good (L - {1}) (module_b_exit_g A ch)"
    and "2 \<in> L \<Longrightarrow> chain_good (L - {2}) (module_c_exit_g A ch)"
proof -
  have r: "by_priority (snd (unregister_my_notifier A nb ch)) \<and>
      mset (snd (unregister_my_notifier A nb ch)) = mset ch - {#nb#}" for nb
    using assms unfolding chain_api_ok_def unregister_my_notifier_def chain_good_def by blast
  show "1 \<in> L \<Longrightarrow> chain_good (L - {1}) (module_b_exit_g A ch)"
    using r[of my_nb] assms(2,3) by (simp add: chain_good_def module_b_exit_g_def)
  show "2 \<in> L \<Longrightarrow> chain_good (L - {2}) (module_c_exit_g A ch)"
    using r[of nb2] assms(2,3) by (simp add: chain_good_def module_c_exit_g_def)
qed

lemma module_c_calls:
  assumes "chain_api_ok A" and "module_c_init_g A ch = (r, calls, ch')"
  shows "r = 0" and "ch' = snd (register_my_notifier A nb2 ch)" and "set (map fst calls) = nb_call ` set ch'"
  using assms by (auto simp: module_c_init_g_def Let_def send_event_all image_Un image_image)

lemma links_g:
  assumes "chain_api_ok A"
  shows "module_family (family_27g A) chain_good"
proof (rule module_familyI[OF provided(6)])
  fix i and e :: unit and L s
  assume i: "0 < i" "i < length (family_27g A)" "i \<notin> set L" "0 \<in> set L" and g: "chain_good (set L) s"
  then consider "i = 1" | "i = 2" using up_to_3[of i] by auto
  then show "\<exists>r s'. mod_init (family_27g A ! i) e (i # L) s = Some (r, s') \<and>
      chain_good (if r < 0 then set L else insert i (set L)) s'"
  proof cases
    case 1
    then show ?thesis using i chain_reg(1)[OF assms g]
      by (intro exI[of _ 0]) (simp add: family_27g_def call_module_def module_b_init_g_def)
  next
    case 2
    obtain r calls ch' where c: "module_c_init_g A s = (r, calls, ch')" by (rule prod_cases3)
    note c' = module_c_calls[OF assms c]
    have g': "chain_good (insert 2 (set L)) ch'" using chain_reg(2)[OF assms g] i 2 c'(2) by simp
    have "set ch' = (if 1 \<in> set L then {my_nb} else {}) \<union> {nb2}" using chain_members[OF g'] i(4) by simp
    then have "callbacks_ok module_of_g (2 # L) (map fst calls)"
      using c'(3) unfolding callbacks_ok_def list_all_iff by (auto simp: module_of_g_def my_nb_def nb2_def split: if_splits)
    with 2 i c c'(1) g' show ?thesis by (intro exI[of _ 0]) (simp add: family_27g_def call_module_def)
  qed
next
  fix i L s
  assume i: "0 < i" "i < length (family_27g A)" "i \<in> set L" "0 \<in> set L" and g: "chain_good (set L) s"
  then consider "i = 1" | "i = 2" using up_to_3[of i] by auto
  then show "\<exists>s'. mod_exit (family_27g A ! i) L s = Some s' \<and> chain_good (set L - {i}) s'"
  proof cases
    case 1
    then show ?thesis using i chain_unreg(1)[OF assms g] by (simp add: family_27g_def call_module_def)
  next
    case 2
    then show ?thesis using i chain_unreg(2)[OF assms g] by (simp add: family_27g_def call_module_def)
  qed
qed (auto simp: family_27g_def chain_good_def module_a_init_g_def module_a_exit_g_def by_priority_def)

interpretation links_plain: module_family "family_27g chain_plain" chain_good
  by (rule links_g[OF chain_plain_ok])

section \<open>Properties\<close>

text \<open>C10. The modules of 27a to 27c and 27e to 27g never call or use what is not in memory: through any
  sequence of loads and unloads the loader lets through, with any answers of the kernel, every
  \<open>init\<close> and \<open>exit\<close> is defined. What holds afterwards in each family: the numbers 27a printed
  count up by three; the buffer of 27b and the ring of 27c are allocated exactly while module
  A is loaded, and the ring is empty; the slot of 27e is module B's exactly while it is
  loaded; 27f lost no node and keeps only callbacks of loaded modules; the chain of 27g holds
  the blocks of the loaded modules.\<close>

theorem module_links_safe:
  assumes "chain_api_ok A"
  shows "(\<exists>rs L c shown. load_run family_27a ea ([], 0, []) = Some (rs, L, c, shown) \<and> linked family_27a L \<and>
      shown = map (\<lambda>k. sint (of_nat (3 * (k + 1)) :: counter)) [0..<length shown]) \<and>
    (\<exists>rs L s. load_run family_27b eb ([], \<lparr>heap_ptr = None, live = 0\<rparr>) = Some (rs, L, s) \<and>
      linked family_27b L \<and> live s = (if 0 \<in> set L then 1 else 0)) \<and>
    (\<exists>rs L s. load_run family_27c ec ([], \<lparr>heap_ptr = None, live = 0\<rparr>) = Some (rs, L, s) \<and>
      linked family_27c L \<and> live s = (if 0 \<in> set L then 1 else 0) \<and>
      (0 \<in> set L \<longrightarrow> (\<exists>ring. get_ring s = Some ring \<and> ring_list ring = []))) \<and>
    (\<exists>rs L s. load_run family_27e ee ([], None) = Some (rs, L, s) \<and> linked family_27e L \<and>
      (0 \<in> set L \<longrightarrow> s = (if 1 \<in> set L then Some ''my_callback'' else None))) \<and>
    (\<exists>rs L s. load_run family_27f ef ([], \<lparr>callback_list = [], lost = 0\<rparr>) = Some (rs, L, s) \<and>
      linked family_27f L \<and> lost s = 0 \<and> (0 \<in> set L \<longrightarrow> names_ok (set L) (callback_list s))) \<and>
    (\<exists>rs L s. load_run (family_27g A) eg ([], []) = Some (rs, L, s) \<and> linked (family_27g A) L \<and>
      (0 \<in> set L \<longrightarrow> by_priority s \<and>
         mset s = (if 1 \<in> set L then {#my_nb#} else {#}) + (if 2 \<in> set L then {#nb2#} else {#})))"
proof (intro conjI)
  have "counted {} (0, [])" by (simp add: counted_def)
  from links_a.run_from_start[OF this, of ea]
  show "\<exists>rs L c shown. load_run family_27a ea ([], 0, []) = Some (rs, L, c, shown) \<and> linked family_27a L \<and>
      shown = map (\<lambda>k. sint (of_nat (3 * (k + 1)) :: counter)) [0..<length shown]"
    unfolding counted_def by fastforce
  have e: "heap_good P {} \<lparr>heap_ptr = None, live = 0\<rparr>" for P :: "'b \<Rightarrow> bool" by (simp add: heap_good_def)
  from links_b.run_from_start[OF e, of eb]
  show "\<exists>rs L s. load_run family_27b eb ([], \<lparr>heap_ptr = None, live = 0\<rparr>) = Some (rs, L, s) \<and>
      linked family_27b L \<and> live s = (if 0 \<in> set L then 1 else 0)" unfolding heap_good_def by blast
  from links_c.run_from_start[OF e, of ec]
  show "\<exists>rs L s. load_run family_27c ec ([], \<lparr>heap_ptr = None, live = 0\<rparr>) = Some (rs, L, s) \<and>
      linked family_27c L \<and> live s = (if 0 \<in> set L then 1 else 0) \<and>
      (0 \<in> set L \<longrightarrow> (\<exists>ring. get_ring s = Some ring \<and> ring_list ring = []))"
    unfolding heap_good_def get_ring_def ring_empty_def by blast
  have "slot_good {} None" by (simp add: slot_good_def)
  from links_e.run_from_start[OF this, of ee]
  show "\<exists>rs L s. load_run family_27e ee ([], None) = Some (rs, L, s) \<and> linked family_27e L \<and>
      (0 \<in> set L \<longrightarrow> s = (if 1 \<in> set L then Some ''my_callback'' else None))" unfolding slot_good_def .
  have "list_good {} \<lparr>callback_list = [], lost = 0\<rparr>" by (simp add: list_good_def)
  from links_f.run_from_start[OF this, of ef]
  show "\<exists>rs L s. load_run family_27f ef ([], \<lparr>callback_list = [], lost = 0\<rparr>) = Some (rs, L, s) \<and>
      linked family_27f L \<and> lost s = 0 \<and> (0 \<in> set L \<longrightarrow> names_ok (set L) (callback_list s))"
    unfolding list_good_def .
  have "chain_good {} []" by (simp add: chain_good_def)
  from module_family.run_from_start[OF links_g[OF assms] this, of eg]
  show "\<exists>rs L s. load_run (family_27g A) eg ([], []) = Some (rs, L, s) \<and> linked (family_27g A) L \<and>
      (0 \<in> set L \<longrightarrow> by_priority s \<and>
         mset s = (if 1 \<in> set L then {#my_nb#} else {#}) + (if 2 \<in> set L then {#nb2#} else {#}))"
    unfolding chain_good_def .
qed

text \<open>
  27f: module B does not load before A; with A, C and D loaded A cannot go; after C and D it can.
\<close>

definition links_demo :: "bool load_event list" where
  "links_demo = [Load_module 1 True, Load_module 0 True, Load_module 2 True, Load_module 3 True,
     Unload_module 0, Unload_module 2, Unload_module 3, Unload_module 0]"

theorem module_links_safe_witness:
  "\<exists>s. load_run family_27f links_demo ([], \<lparr>callback_list = [], lost = 0\<rparr>) =
     Some ([- ENOENT, 0, 0, 0, - EAGAIN, 0, 0, 0], [], s) \<and> lost s = 0"
proof -
  have "map_option (\<lambda>(rs, L, s). (rs, L)) (load_run family_27f links_demo ([], \<lparr>callback_list = [], lost = 0\<rparr>)) =
      Some ([- ENOENT, 0, 0, 0, - EAGAIN, 0, 0, 0], [])" by code_simp
  moreover obtain rs L s where "load_run family_27f links_demo ([], \<lparr>callback_list = [], lost = 0\<rparr>) = Some (rs, L, s)"
      "lost s = 0"
    using module_links_safe[OF chain_plain_ok, of "[]" "[]" "[]" "[]" links_demo "[]"] by blast
  ultimately show ?thesis by auto
qed

end
