(* ===== verification/Vfs.thy ===== *)
theory Vfs
  imports CharIface
begin

text \<open>
  How user processes reach a character driver: the table \<open>struct file_operations\<close> and the
  system calls the kernel dispatches through it. The kernel side is not in the repository;
  the machine below is what its documentation says of a table: which error a missing method
  gives, that \<open>.owner = THIS_MODULE\<close> holds the module while a file is open, that a method
  sees the \<open>private_data\<close> its \<open>open\<close> stored and the file offset it left. Calls are made
  one at a time; a \<open>None\<close> is a method that leaves its memory or that runs after the module
  is gone.

  Two contracts are stated over it: \<open>file_driver\<close>, from which every sequence of system calls
  is type safe, and \<open>memo_driver\<close>, from which such a sequence cannot be told from one on a
  plain array of texts.
\<close>

section \<open>Tables and system calls\<close>

record ofile =
  f_minor :: nat
  private_data :: int
  f_pos :: int

definition new_file :: "nat \<Rightarrow> ofile" where
  "new_file m = \<lparr>f_minor = m, private_data = 0, f_pos = 0\<rparr>"

text \<open>
  A method left out of the table is \<open>None\<close>. \<open>fop_read\<close> yields the value returned, the bytes
  that reached the user, the new \<open>*off\<close> and the state; \<open>fop_ioctl\<close> gets the command, the
  argument and the user memory it points to.
\<close>

record 's file_operations =
  owner :: bool
  fop_open :: "(ofile \<Rightarrow> 's \<Rightarrow> (int \<times> ofile) option) option"
  fop_release :: "(ofile \<Rightarrow> 's \<Rightarrow> int option) option"
  fop_read :: "(uapi \<Rightarrow> ofile \<Rightarrow> nat \<Rightarrow> 's \<Rightarrow> (int \<times> byte list \<times> int \<times> 's) option) option"
  fop_write :: "(uapi \<Rightarrow> ofile \<Rightarrow> byte list \<Rightarrow> nat \<Rightarrow> 's \<Rightarrow> (int \<times> 's) option) option"
  fop_ioctl :: "(uapi \<Rightarrow> ofile \<Rightarrow> 32 word \<Rightarrow> 64 word \<Rightarrow> byte list \<Rightarrow> 's \<Rightarrow>
                  (int \<times> byte list \<times> 's) option) option"
  fop_poll :: "('s \<Rightarrow> 32 word) option"
  fop_mmap :: "(64 word \<Rightarrow> 64 word \<Rightarrow> 64 word \<Rightarrow> 's \<Rightarrow> (int \<times> 's) option) option"

text \<open>
  The calls of user processes on a device node; a handle is a number that is never used
  again. \<open>Sys_insmod\<close> is a load that succeeded.
\<close>

datatype sys_call =
    Sys_open nat | Sys_close nat
  | Sys_read nat uapi nat | Sys_pread nat uapi nat int
  | Sys_write nat uapi "byte list" nat
  | Sys_ioctl nat uapi "32 word" "64 word" "byte list"
  | Sys_poll nat | Sys_mmap nat "64 word" "64 word" "64 word"
  | Sys_insmod | Sys_rmmod

record 's vfs =
  vfs_loaded :: bool
  vfs_refs :: nat
  vfs_files :: "ofile option list"
  vfs_dev :: 's

definition vfs_start :: "'s \<Rightarrow> 's vfs" where
  "vfs_start s = \<lparr>vfs_loaded = True, vfs_refs = 0, vfs_files = [], vfs_dev = s\<rparr>"

text \<open>\<open>poll\<close> without a method: always readable and writable.\<close>

abbreviation DEFAULT_POLLMASK :: int where "DEFAULT_POLLMASK \<equiv> 325"

definition open_handle :: "nat \<Rightarrow> ofile option list \<Rightarrow> ofile option" where
  "open_handle h fs = (if h < length fs then fs ! h else None)"

text \<open>A call on a handle: refused when it is not open, undefined when the code is gone.\<close>

definition on_file ::
    "nat \<Rightarrow> 's vfs \<Rightarrow> (ofile \<Rightarrow> ((int \<times> byte list) \<times> 's vfs) option) \<Rightarrow>
     ((int \<times> byte list) \<times> 's vfs) option" where
  "on_file h v body = (case open_handle h (vfs_files v) of
      None \<Rightarrow> Some ((- EBADF, []), v)
    | Some f \<Rightarrow> if vfs_loaded v then body f else None)"

definition set_handle :: "nat \<Rightarrow> ofile option \<Rightarrow> 's vfs \<Rightarrow> 's vfs" where
  "set_handle h x v = v\<lparr>vfs_files := (vfs_files v)[h := x]\<rparr>"

definition vfs_open ::
    "'s file_operations \<Rightarrow> nat \<Rightarrow> nat \<Rightarrow> 's vfs \<Rightarrow> ((int \<times> byte list) \<times> 's vfs) option" where
  "vfs_open F minors m v =
     (if \<not> vfs_loaded v \<or> minors \<le> m then Some ((- ENXIO, []), v)
      else do {
        (r, f) \<leftarrow> (case fop_open F of None \<Rightarrow> Some (0, new_file m)
                   | Some op \<Rightarrow> op (new_file m) (vfs_dev v));
        (if r \<noteq> 0 then Some ((r, []), v)
         else Some ((int (length (vfs_files v)), []),
                v\<lparr>vfs_files := vfs_files v @ [Some f],
                  vfs_refs := vfs_refs v + (if owner F then 1 else 0)\<rparr>)) })"

definition vfs_close ::
    "'s file_operations \<Rightarrow> nat \<Rightarrow> 's vfs \<Rightarrow> ((int \<times> byte list) \<times> 's vfs) option" where
  "vfs_close F h v = on_file h v (\<lambda>f. do {
     _ \<leftarrow> (case fop_release F of None \<Rightarrow> Some 0 | Some rel \<Rightarrow> rel f (vfs_dev v));
     Some ((0, []), (set_handle h None v)\<lparr>vfs_refs := vfs_refs v - (if owner F then 1 else 0)\<rparr>) })"

text \<open>\<open>read\<close> passes the offset of the file and, unless it fails, keeps what the method makes of it.\<close>

definition vfs_read ::
    "'s file_operations \<Rightarrow> nat \<Rightarrow> uapi \<Rightarrow> nat \<Rightarrow> 's vfs \<Rightarrow> ((int \<times> byte list) \<times> 's vfs) option" where
  "vfs_read F h K n v = on_file h v (\<lambda>f. case fop_read F of
      None \<Rightarrow> Some ((- EINVAL, []), v)
    | Some rd \<Rightarrow> do {
        (r, out, off, s) \<leftarrow> rd K f n (vfs_dev v);
        Some ((r, out), (set_handle h (Some (f\<lparr>f_pos := if 0 \<le> r then off else f_pos f\<rparr>)) v)
          \<lparr>vfs_dev := s\<rparr>) })"

definition vfs_pread ::
    "'s file_operations \<Rightarrow> nat \<Rightarrow> uapi \<Rightarrow> nat \<Rightarrow> int \<Rightarrow> 's vfs \<Rightarrow>
     ((int \<times> byte list) \<times> 's vfs) option" where
  "vfs_pread F h K n pos v = on_file h v (\<lambda>f.
     if pos < 0 then Some ((- EINVAL, []), v)
     else case fop_read F of
      None \<Rightarrow> Some ((- EINVAL, []), v)
    | Some rd \<Rightarrow> do {
        (r, out, off, s) \<leftarrow> rd K (f\<lparr>f_pos := pos\<rparr>) n (vfs_dev v);
        Some ((r, out), v\<lparr>vfs_dev := s\<rparr>) })"

definition vfs_write ::
    "'s file_operations \<Rightarrow> nat \<Rightarrow> uapi \<Rightarrow> byte list \<Rightarrow> nat \<Rightarrow> 's vfs \<Rightarrow>
     ((int \<times> byte list) \<times> 's vfs) option" where
  "vfs_write F h K u n v = on_file h v (\<lambda>f. case fop_write F of
      None \<Rightarrow> Some ((- EINVAL, []), v)
    | Some wr \<Rightarrow> do {
        (r, s) \<leftarrow> wr K f u n (vfs_dev v);
        Some ((r, []), v\<lparr>vfs_dev := s\<rparr>) })"

definition vfs_ioctl ::
    "'s file_operations \<Rightarrow> nat \<Rightarrow> uapi \<Rightarrow> 32 word \<Rightarrow> 64 word \<Rightarrow> byte list \<Rightarrow> 's vfs \<Rightarrow>
     ((int \<times> byte list) \<times> 's vfs) option" where
  "vfs_ioctl F h K cmd arg mem v = on_file h v (\<lambda>f. case fop_ioctl F of
      None \<Rightarrow> Some ((- ENOTTY, []), v)
    | Some io \<Rightarrow> do {
        (r, out, s) \<leftarrow> io K f cmd arg mem (vfs_dev v);
        Some ((r, out), v\<lparr>vfs_dev := s\<rparr>) })"

definition vfs_poll :: "'s file_operations \<Rightarrow> nat \<Rightarrow> 's vfs \<Rightarrow> ((int \<times> byte list) \<times> 's vfs) option" where
  "vfs_poll F h v = on_file h v (\<lambda>f.
     Some ((case fop_poll F of None \<Rightarrow> DEFAULT_POLLMASK | Some p \<Rightarrow> uint (p (vfs_dev v)), []), v))"

definition vfs_mmap ::
    "'s file_operations \<Rightarrow> nat \<Rightarrow> 64 word \<Rightarrow> 64 word \<Rightarrow> 64 word \<Rightarrow> 's vfs \<Rightarrow>
     ((int \<times> byte list) \<times> 's vfs) option" where
  "vfs_mmap F h vm_start vm_end vm_pgoff v = on_file h v (\<lambda>f. case fop_mmap F of
      None \<Rightarrow> Some ((- ENODEV, []), v)
    | Some mm \<Rightarrow> do {
        (r, s) \<leftarrow> mm vm_start vm_end vm_pgoff (vfs_dev v);
        Some ((r, []), v\<lparr>vfs_dev := s\<rparr>) })"

text \<open>A module in use cannot be unloaded; a load gives the device its initial state.\<close>

definition vfs_insmod :: "'s \<Rightarrow> 's vfs \<Rightarrow> (int \<times> byte list) \<times> 's vfs" where
  "vfs_insmod init v = (if vfs_loaded v then ((- EEXIST, []), v)
     else ((0, []), v\<lparr>vfs_loaded := True, vfs_dev := init\<rparr>))"

definition vfs_rmmod :: "'s vfs \<Rightarrow> (int \<times> byte list) \<times> 's vfs" where
  "vfs_rmmod v = (if \<not> vfs_loaded v then ((- ENOENT, []), v)
     else if 0 < vfs_refs v then ((- EAGAIN, []), v)
     else ((0, []), v\<lparr>vfs_loaded := False\<rparr>))"

fun vfs_step ::
    "'s file_operations \<Rightarrow> nat \<Rightarrow> 's \<Rightarrow> sys_call \<Rightarrow> 's vfs \<Rightarrow> ((int \<times> byte list) \<times> 's vfs) option" where
  "vfs_step F minors init (Sys_open m) v = vfs_open F minors m v"
| "vfs_step F minors init (Sys_close h) v = vfs_close F h v"
| "vfs_step F minors init (Sys_read h K n) v = vfs_read F h K n v"
| "vfs_step F minors init (Sys_pread h K n pos) v = vfs_pread F h K n pos v"
| "vfs_step F minors init (Sys_write h K u n) v = vfs_write F h K u n v"
| "vfs_step F minors init (Sys_ioctl h K cmd arg mem) v = vfs_ioctl F h K cmd arg mem v"
| "vfs_step F minors init (Sys_poll h) v = vfs_poll F h v"
| "vfs_step F minors init (Sys_mmap h a b p) v = vfs_mmap F h a b p v"
| "vfs_step F minors init Sys_insmod v = Some (vfs_insmod init v)"
| "vfs_step F minors init Sys_rmmod v = Some (vfs_rmmod v)"

fun vfs_run ::
    "'s file_operations \<Rightarrow> nat \<Rightarrow> 's \<Rightarrow> sys_call list \<Rightarrow> 's vfs \<Rightarrow> ((int \<times> byte list) list \<times> 's vfs) option" where
  "vfs_run F minors init [] v = Some ([], v)"
| "vfs_run F minors init (c # cs) v = do {
     (x, v) \<leftarrow> vfs_step F minors init c v;
     (xs, v) \<leftarrow> vfs_run F minors init cs v;
     Some (x # xs, v) }"

section \<open>Types of the results\<close>

text \<open>What the documentation of each call allows as a result, as user space decodes it.\<close>

fun typed :: "sys_call \<Rightarrow> int \<times> byte list \<Rightarrow> bool" where
  "typed (Sys_open _) x \<longleftrightarrow> is_errno (fst x) \<or> 0 \<le> fst x"
| "typed (Sys_close _) x \<longleftrightarrow> is_errno (fst x) \<or> fst x = 0"
| "typed (Sys_read _ _ n) x \<longleftrightarrow> count_result n (fst x) (snd x)"
| "typed (Sys_pread _ _ n _) x \<longleftrightarrow> count_result n (fst x) (snd x)"
| "typed (Sys_write _ _ _ n) x \<longleftrightarrow> is_errno (fst x) \<or> (0 \<le> fst x \<and> fst x \<le> int n)"
| "typed (Sys_ioctl _ _ _ _ _) x \<longleftrightarrow> is_errno (fst x) \<or> 0 \<le> fst x"
| "typed (Sys_poll _) x \<longleftrightarrow> is_errno (fst x) \<or> 0 \<le> fst x"
| "typed (Sys_mmap _ _ _ _) x \<longleftrightarrow> is_errno (fst x) \<or> fst x = 0"
| "typed Sys_insmod x \<longleftrightarrow> is_errno (fst x) \<or> fst x = 0"
| "typed Sys_rmmod x \<longleftrightarrow> is_errno (fst x) \<or> fst x = 0"

fun call_ok :: "sys_call \<Rightarrow> bool" where
  "call_ok (Sys_read _ K _) \<longleftrightarrow> uapi_ok K"
| "call_ok (Sys_pread _ K _ _) \<longleftrightarrow> uapi_ok K"
| "call_ok (Sys_write _ K _ _) \<longleftrightarrow> uapi_ok K"
| "call_ok (Sys_ioctl _ K _ _ _) \<longleftrightarrow> uapi_ok K"
| "call_ok _ \<longleftrightarrow> True"

text \<open>
  A run is type safe: no method leaves its memory or runs in an unloaded module, every
  result is one its call may have, and the module is held exactly as often as files are
  open, so that it can be unloaded again once all are closed.
\<close>

definition open_count :: "ofile option list \<Rightarrow> nat" where
  "open_count fs = length (filter (\<lambda>x. x \<noteq> None) fs)"

definition type_safe_run :: "'s file_operations \<Rightarrow> nat \<Rightarrow> 's \<Rightarrow> sys_call list \<Rightarrow> bool" where
  "type_safe_run F minors init cs = (case vfs_run F minors init cs (vfs_start init) of
      None \<Rightarrow> False
    | Some (xs, v) \<Rightarrow> list_all2 typed cs xs \<and> vfs_refs v = open_count (vfs_files v) \<and>
        (vfs_loaded v \<or> open_count (vfs_files v) = 0))"

section \<open>The contract of a driver\<close>

lemma open_count_simps [simp]:
  "open_count [] = 0" "open_count (fs @ [Some f]) = Suc (open_count fs)"
  by (simp_all add: open_count_def)

lemma open_handle_cases:
  assumes "open_handle h fs = Some f"
  obtains "h < length fs" "fs ! h = Some f" "Some f \<in> set fs"
  using assms that by (auto simp: open_handle_def split: if_splits) (metis nth_mem)

lemma open_count_update:
  "h < length fs \<Longrightarrow> fs ! h = Some f \<Longrightarrow>
   open_count (fs[h := x]) + 1 = open_count fs + (if x = None then 0 else 1)"
  by (induction fs arbitrary: h) (auto simp: open_count_def nth_Cons split: nat.splits)

lemma open_count_some:
  "open_handle h fs = Some f \<Longrightarrow> open_count (fs[h := Some g]) = open_count fs"
  using open_count_update[of h fs f "Some g"] by (auto elim: open_handle_cases)

lemma open_count_close:
  "open_handle h fs = Some f \<Longrightarrow> open_count (fs[h := None]) = open_count fs - 1"
  using open_count_update[of h fs f None] by (auto elim: open_handle_cases)

lemma set_update_some: "Some f \<in> set (fs[h := x]) \<Longrightarrow> Some f \<in> set fs \<or> x = Some f"
  using set_update_subset_insert[of fs h x] by auto

locale file_driver =
  fixes F :: "'s file_operations" and minors :: nat and init :: 's
    and good :: "'s \<Rightarrow> bool" and file_ok :: "ofile \<Rightarrow> bool"
  assumes owned: "owner F"
    and init_good: "good init"
    and no_open: "fop_open F = None \<Longrightarrow> m < minors \<Longrightarrow> file_ok (new_file m)"
    and opens: "fop_open F = Some op \<Longrightarrow> m < minors \<Longrightarrow> good s \<Longrightarrow>
      \<exists>f. op (new_file m) s = Some (0, f) \<and> file_ok f \<and> f_pos f = 0"
    and any_pos: "file_ok f \<Longrightarrow> file_ok (f\<lparr>f_pos := p\<rparr>)"
    and releases: "fop_release F = Some rel \<Longrightarrow> file_ok f \<Longrightarrow> good s \<Longrightarrow> rel f s \<noteq> None"
    and reads: "fop_read F = Some rd \<Longrightarrow> uapi_ok K \<Longrightarrow> file_ok f \<Longrightarrow> 0 \<le> f_pos f \<Longrightarrow> good s \<Longrightarrow>
      \<exists>r out off s'. rd K f n s = Some (r, out, off, s') \<and> count_result n r out \<and> 0 \<le> off \<and> good s'"
    and writes: "fop_write F = Some wr \<Longrightarrow> uapi_ok K \<Longrightarrow> file_ok f \<Longrightarrow> good s \<Longrightarrow>
      \<exists>r s'. wr K f u n s = Some (r, s') \<and> (is_errno r \<or> (0 \<le> r \<and> r \<le> int n)) \<and> good s'"
    and ioctls: "fop_ioctl F = Some io \<Longrightarrow> uapi_ok K \<Longrightarrow> file_ok f \<Longrightarrow> good s \<Longrightarrow>
      \<exists>r out s'. io K f cmd arg mem s = Some (r, out, s') \<and> (is_errno r \<or> 0 \<le> r) \<and> good s'"
    and mmaps: "fop_mmap F = Some mm \<Longrightarrow> good s \<Longrightarrow>
      \<exists>r s'. mm a b pg s = Some (r, s') \<and> (is_errno r \<or> r = 0) \<and> good s'"
begin

definition vfs_inv :: "'s vfs \<Rightarrow> bool" where
  "vfs_inv v \<longleftrightarrow> (vfs_loaded v \<longrightarrow> good (vfs_dev v)) \<and> vfs_refs v = open_count (vfs_files v) \<and>
     (vfs_loaded v \<or> open_count (vfs_files v) = 0) \<and>
     (\<forall>f. Some f \<in> set (vfs_files v) \<longrightarrow> file_ok f \<and> 0 \<le> f_pos f)"

lemma inv_start: "vfs_inv (vfs_start init)"
  by (simp add: vfs_inv_def vfs_start_def init_good)

text \<open>An open handle: the module is there, its state is good and the file is one \<open>open\<close> made.\<close>

lemma handle_ok:
  assumes "vfs_inv v" and "open_handle h (vfs_files v) = Some f"
  shows "vfs_loaded v" and "good (vfs_dev v)" and "file_ok f" and "0 \<le> f_pos f"
proof -
  have f: "Some f \<in> set (vfs_files v)" using assms(2) by (rule open_handle_cases)
  then have "open_count (vfs_files v) \<noteq> 0" by (auto simp: open_count_def filter_empty_conv)
  then show "vfs_loaded v" using assms(1) by (auto simp: vfs_inv_def)
  with f assms(1) show "good (vfs_dev v)" "file_ok f" "0 \<le> f_pos f" by (auto simp: vfs_inv_def)
qed

lemma on_file_inv:
  assumes "vfs_inv v" and "Q (- EBADF, []) v"
    and "\<And>f. open_handle h (vfs_files v) = Some f \<Longrightarrow> vfs_loaded v \<Longrightarrow> good (vfs_dev v) \<Longrightarrow> file_ok f \<Longrightarrow>
           0 \<le> f_pos f \<Longrightarrow> \<exists>x v'. body f = Some (x, v') \<and> Q x v'"
  shows "\<exists>x v'. on_file h v body = Some (x, v') \<and> Q x v'"
  using assms(2) assms(3)[OF _ handle_ok[OF assms(1)]] handle_ok(1)[OF assms(1)]
  by (cases "open_handle h (vfs_files v)") (simp_all add: on_file_def)

lemma set_handle_inv:
  assumes "vfs_inv v" and "open_handle h (vfs_files v) = Some f" and "file_ok g" and "0 \<le> f_pos g" and "good s"
  shows "vfs_inv ((set_handle h (Some g) v)\<lparr>vfs_dev := s\<rparr>)"
  using assms open_count_some[OF assms(2), of g]
  by (auto simp: vfs_inv_def set_handle_def dest!: set_update_some)

lemma dev_inv: "vfs_inv v \<Longrightarrow> good s \<Longrightarrow> vfs_inv (v\<lparr>vfs_dev := s\<rparr>)"
  by (simp add: vfs_inv_def)

lemma open_inv:
  assumes "vfs_inv v"
  shows "\<exists>x v'. vfs_open F minors m v = Some (x, v') \<and> typed (Sys_open m) x \<and> vfs_inv v'"
proof (cases "vfs_loaded v \<and> m < minors")
  case True
  then have g: "good (vfs_dev v)" using assms by (simp add: vfs_inv_def)
  obtain f where f: "(case fop_open F of None \<Rightarrow> Some (0, new_file m)
      | Some op \<Rightarrow> op (new_file m) (vfs_dev v)) = Some (0, f)" and ok: "file_ok f" "f_pos f = 0"
  proof (cases "fop_open F")
    case None
    with True no_open that show ?thesis by (simp add: new_file_def)
  next
    case (Some op)
    with opens[OF Some _ g] True that show ?thesis by auto
  qed
  from True f ok assms show ?thesis by (auto simp: vfs_open_def vfs_inv_def owned)
next
  case False
  with assms show ?thesis by (auto simp: vfs_open_def is_errno_def)
qed

lemma close_inv:
  assumes "vfs_inv v"
  shows "\<exists>x v'. vfs_close F h v = Some (x, v') \<and> typed (Sys_close h) x \<and> vfs_inv v'"
  unfolding vfs_close_def
proof (rule on_file_inv[OF assms], goal_cases)
  case (2 f)
  then obtain r where r: "(case fop_release F of None \<Rightarrow> Some 0 | Some rel \<Rightarrow> rel f (vfs_dev v)) = Some r"
    using releases[of _ f "vfs_dev v"] by (cases "fop_release F") auto
  have "vfs_inv ((set_handle h None v)\<lparr>vfs_refs := vfs_refs v - 1\<rparr>)"
    using assms 2(2) open_count_close[OF 2(1)]
    by (auto simp: vfs_inv_def set_handle_def dest!: set_update_some)
  with r show ?case by (simp add: owned)
qed (use assms in \<open>simp add: is_errno_def\<close>)

lemma read_inv:
  assumes "vfs_inv v" and "uapi_ok K"
  shows "\<exists>x v'. vfs_read F h K n v = Some (x, v') \<and> count_result n (fst x) (snd x) \<and> vfs_inv v'"
  unfolding vfs_read_def
proof (rule on_file_inv[OF assms(1)], goal_cases)
  case (2 f)
  then show ?case
  proof (cases "fop_read F")
    case (Some rd)
    from reads[OF Some assms(2) 2(4,5,3)] obtain r out off s' where
      "rd K f n (vfs_dev v) = Some (r, out, off, s')" "count_result n r out" "0 \<le> off" "good s'" by blast
    with Some 2 assms(1) show ?thesis by (auto intro!: set_handle_inv any_pos)
  qed (use assms(1) in \<open>simp add: count_result_def is_errno_def\<close>)
qed (use assms in \<open>simp add: count_result_def is_errno_def\<close>)

lemma pread_inv:
  assumes "vfs_inv v" and "uapi_ok K"
  shows "\<exists>x v'. vfs_pread F h K n pos v = Some (x, v') \<and> count_result n (fst x) (snd x) \<and> vfs_inv v'"
  unfolding vfs_pread_def
proof (rule on_file_inv[OF assms(1)], goal_cases)
  case (2 f)
  then show ?case
  proof (cases "pos < 0")
    case False
    show ?thesis
    proof (cases "fop_read F")
      case (Some rd)
      have "file_ok (f\<lparr>f_pos := pos\<rparr>)" "0 \<le> f_pos (f\<lparr>f_pos := pos\<rparr>)" using 2(4) False any_pos by simp_all
      from reads[OF Some assms(2) this 2(3)] obtain r out off s' where
        "rd K (f\<lparr>f_pos := pos\<rparr>) n (vfs_dev v) = Some (r, out, off, s')" "count_result n r out" "good s'" by blast
      with Some False assms(1) show ?thesis by (simp add: dev_inv)
    qed (use assms(1) False in \<open>simp add: count_result_def is_errno_def\<close>)
  qed (use assms(1) in \<open>simp add: count_result_def is_errno_def\<close>)
qed (use assms in \<open>simp add: count_result_def is_errno_def\<close>)

lemma write_inv:
  assumes "vfs_inv v" and "uapi_ok K"
  shows "\<exists>x v'. vfs_write F h K u n v = Some (x, v') \<and> typed (Sys_write h K u n) x \<and> vfs_inv v'"
  unfolding vfs_write_def
proof (rule on_file_inv[OF assms(1)], goal_cases)
  case (2 f)
  show ?case
  proof (cases "fop_write F")
    case (Some wr)
    from writes[OF Some assms(2) 2(4,3)] obtain r s' where
      "wr K f u n (vfs_dev v) = Some (r, s')" "is_errno r \<or> (0 \<le> r \<and> r \<le> int n)" "good s'" by blast
    with Some assms(1) show ?thesis by (simp add: dev_inv)
  qed (use assms(1) in \<open>simp add: is_errno_def\<close>)
qed (use assms in \<open>simp add: is_errno_def\<close>)

lemma ioctl_inv:
  assumes "vfs_inv v" and "uapi_ok K"
  shows "\<exists>x v'. vfs_ioctl F h K cmd arg mem v = Some (x, v') \<and> typed (Sys_ioctl h K cmd arg mem) x \<and> vfs_inv v'"
  unfolding vfs_ioctl_def
proof (rule on_file_inv[OF assms(1)], goal_cases)
  case (2 f)
  show ?case
  proof (cases "fop_ioctl F")
    case (Some io)
    from ioctls[OF Some assms(2) 2(4,3)] obtain r out s' where
      "io K f cmd arg mem (vfs_dev v) = Some (r, out, s')" "is_errno r \<or> 0 \<le> r" "good s'" by blast
    with Some assms(1) show ?thesis by (simp add: dev_inv)
  qed (use assms(1) in \<open>simp add: is_errno_def\<close>)
qed (use assms in \<open>simp add: is_errno_def\<close>)

lemma poll_inv:
  assumes "vfs_inv v"
  shows "\<exists>x v'. vfs_poll F h v = Some (x, v') \<and> typed (Sys_poll h) x \<and> vfs_inv v'"
  unfolding vfs_poll_def
  by (rule on_file_inv[OF assms]) (use assms in \<open>auto simp: is_errno_def split: option.splits\<close>)

lemma mmap_inv:
  assumes "vfs_inv v"
  shows "\<exists>x v'. vfs_mmap F h a b p v = Some (x, v') \<and> typed (Sys_mmap h a b p) x \<and> vfs_inv v'"
  unfolding vfs_mmap_def
proof (rule on_file_inv[OF assms], goal_cases)
  case (2 f)
  show ?case
  proof (cases "fop_mmap F")
    case (Some mm)
    from mmaps[OF Some 2(3)] obtain r s' where
      "mm a b p (vfs_dev v) = Some (r, s')" "is_errno r \<or> r = 0" "good s'" by blast
    with Some assms show ?thesis by (simp add: dev_inv)
  qed (use assms in \<open>simp add: is_errno_def\<close>)
qed (use assms in \<open>simp add: is_errno_def\<close>)

lemma module_inv:
  assumes "vfs_inv v"
  shows "\<exists>x v'. vfs_insmod init v = (x, v') \<and> typed Sys_insmod x \<and> vfs_inv v'"
    and "\<exists>x v'. vfs_rmmod v = (x, v') \<and> typed Sys_rmmod x \<and> vfs_inv v'"
  using assms init_good by (auto simp: vfs_insmod_def vfs_rmmod_def vfs_inv_def is_errno_def)

lemma step_inv:
  assumes "vfs_inv v" and "call_ok c"
  shows "\<exists>x v'. vfs_step F minors init c v = Some (x, v') \<and> typed c x \<and> vfs_inv v'"
  using assms(2) open_inv[OF assms(1)] close_inv[OF assms(1)] read_inv[OF assms(1)] pread_inv[OF assms(1)]
    write_inv[OF assms(1)] ioctl_inv[OF assms(1)] poll_inv[OF assms(1)] mmap_inv[OF assms(1)]
    module_inv[OF assms(1)]
  by (cases c) (simp_all del: typed.simps add: typed.simps(3,4))

lemma run_inv:
  "vfs_inv v \<Longrightarrow> \<forall>c \<in> set cs. call_ok c \<Longrightarrow>
   \<exists>xs v'. vfs_run F minors init cs v = Some (xs, v') \<and> list_all2 typed cs xs \<and> vfs_inv v'"
proof (induction cs arbitrary: v)
  case (Cons c cs)
  obtain x v1 where x: "vfs_step F minors init c v = Some (x, v1)" "typed c x" "vfs_inv v1"
    using step_inv Cons.prems by (metis list.set_intros(1))
  with Cons.IH[OF x(3)] Cons.prems show ?case by auto
qed simp

lemma runs_type_safe: "\<forall>c \<in> set cs. call_ok c \<Longrightarrow> type_safe_run F minors init cs"
  using run_inv[OF inv_start, of cs] by (auto simp: type_safe_run_def vfs_inv_def)

end

section \<open>The reference: an array of texts\<close>

text \<open>
  What a device file of this kind promises: a text per slot (the minors may share one), a
  write replaces it by what the device keeps of the bytes, a read delivers the next bytes
  of it. \<open>blank\<close> are the texts at load time.
\<close>

record memo =
  m_loaded :: bool
  m_text :: "byte list list"
  m_open :: "(nat \<times> int) option list"

definition memo_start :: "byte list list \<Rightarrow> memo" where
  "memo_start blank = \<lparr>m_loaded = True, m_text = blank, m_open = []\<rparr>"

definition memo_on ::
    "nat \<Rightarrow> memo \<Rightarrow> (nat \<Rightarrow> int \<Rightarrow> (int \<times> byte list) \<times> memo) \<Rightarrow> (int \<times> byte list) \<times> memo" where
  "memo_on h v body = (if h < length (m_open v)
     then case m_open v ! h of None \<Rightarrow> ((- EBADF, []), v) | Some (m, p) \<Rightarrow> body m p
     else ((- EBADF, []), v))"

fun memo_step ::
    "nat \<Rightarrow> (nat \<Rightarrow> nat) \<Rightarrow> nat \<Rightarrow> (byte list \<Rightarrow> byte list) \<Rightarrow> byte list list \<Rightarrow> sys_call \<Rightarrow> memo \<Rightarrow>
     (int \<times> byte list) \<times> memo" where
  "memo_step minors slot cap kept blank (Sys_open m) v =
     (if \<not> m_loaded v \<or> minors \<le> m then ((- ENXIO, []), v)
      else ((int (length (m_open v)), []), v\<lparr>m_open := m_open v @ [Some (m, 0)]\<rparr>))"
| "memo_step minors slot cap kept blank (Sys_close h) v =
     memo_on h v (\<lambda>m p. ((0, []), v\<lparr>m_open := (m_open v)[h := None]\<rparr>))"
| "memo_step minors slot cap kept blank (Sys_read h K n) v = memo_on h v (\<lambda>m p.
     let chunk = take n (drop (nat p) (m_text v ! slot m))
     in ((int (length chunk), chunk), v\<lparr>m_open := (m_open v)[h := Some (m, p + int (length chunk))]\<rparr>))"
| "memo_step minors slot cap kept blank (Sys_pread h K n pos) v = memo_on h v (\<lambda>m p.
     if pos < 0 then ((- EINVAL, []), v)
     else let chunk = take n (drop (nat pos) (m_text v ! slot m)) in ((int (length chunk), chunk), v))"
| "memo_step minors slot cap kept blank (Sys_write h K u n) v = memo_on h v (\<lambda>m p.
     ((int (min n cap), []), v\<lparr>m_text := (m_text v)[slot m := kept (take (min n cap) u)]\<rparr>))"
| "memo_step minors slot cap kept blank (Sys_ioctl h K cmd arg mem) v =
     memo_on h v (\<lambda>m p. ((- ENOTTY, []), v))"
| "memo_step minors slot cap kept blank (Sys_poll h) v = memo_on h v (\<lambda>m p. ((DEFAULT_POLLMASK, []), v))"
| "memo_step minors slot cap kept blank (Sys_mmap h a b pg) v = memo_on h v (\<lambda>m p. ((- ENODEV, []), v))"
| "memo_step minors slot cap kept blank Sys_insmod v =
     (if m_loaded v then ((- EEXIST, []), v) else ((0, []), v\<lparr>m_loaded := True, m_text := blank\<rparr>))"
| "memo_step minors slot cap kept blank Sys_rmmod v =
     (if \<not> m_loaded v then ((- ENOENT, []), v)
      else if \<exists>x \<in> set (m_open v). x \<noteq> None then ((- EAGAIN, []), v)
      else ((0, []), v\<lparr>m_loaded := False\<rparr>))"

fun memo_run ::
    "nat \<Rightarrow> (nat \<Rightarrow> nat) \<Rightarrow> nat \<Rightarrow> (byte list \<Rightarrow> byte list) \<Rightarrow> byte list list \<Rightarrow> sys_call list \<Rightarrow> memo \<Rightarrow>
     (int \<times> byte list) list \<times> memo" where
  "memo_run minors slot cap kept blank [] v = ([], v)"
| "memo_run minors slot cap kept blank (c # cs) v =
     (let (x, v) = memo_step minors slot cap kept blank c v;
          (xs, v) = memo_run minors slot cap kept blank cs v in (x # xs, v))"

text \<open>Calls whose user memory can be accessed.\<close>

fun faultless :: "nat \<Rightarrow> sys_call \<Rightarrow> bool" where
  "faultless cap (Sys_read _ K _) \<longleftrightarrow> uapi_nofault K"
| "faultless cap (Sys_pread _ K _ _) \<longleftrightarrow> uapi_nofault K"
| "faultless cap (Sys_write _ K u n) \<longleftrightarrow> uapi_ok K \<and> fst (copy_from_user K u (min n cap)) = 0"
| "faultless cap (Sys_ioctl _ K _ _ _) \<longleftrightarrow> uapi_ok K"
| "faultless cap _ \<longleftrightarrow> True"

lemma faultless_call_ok: "faultless cap c \<Longrightarrow> call_ok c"
  by (cases c) (simp_all add: uapi_nofault_ok)

locale memo_driver = file_driver F minors init good file_ok
  for F :: "'s file_operations" and minors init good file_ok +
  fixes content :: "nat \<Rightarrow> 's \<Rightarrow> byte list" and slots :: nat and slot :: "nat \<Rightarrow> nat"
    and cap :: nat and kept :: "byte list \<Rightarrow> byte list"
  assumes slot_range: "m < minors \<Longrightarrow> slot m < slots"
    and ok_minor: "file_ok f \<Longrightarrow> f_minor f < minors"
    and open_minor: "fop_open F = Some op \<Longrightarrow> op (new_file m) s = Some (0, f) \<Longrightarrow> f_minor f = m"
    and no_others: "fop_ioctl F = None" "fop_poll F = None" "fop_mmap F = None"
    and read_memo: "\<exists>rd. fop_read F = Some rd \<and> (\<forall>K f n s. uapi_nofault K \<longrightarrow> file_ok f \<longrightarrow> 0 \<le> f_pos f \<longrightarrow>
      good s \<longrightarrow> rd K f n s = (let chunk = take n (drop (nat (f_pos f)) (content (slot (f_minor f)) s))
        in Some (int (length chunk), chunk, f_pos f + int (length chunk), s)))"
    and write_memo: "\<exists>wr. fop_write F = Some wr \<and> (\<forall>K f u n s. uapi_ok K \<longrightarrow>
      fst (copy_from_user K u (min n cap)) = 0 \<longrightarrow> file_ok f \<longrightarrow> good s \<longrightarrow>
      (\<exists>s'. wr K f u n s = Some (int (min n cap), s') \<and>
        (\<forall>k < slots. content k s' =
           (if k = slot (f_minor f) then kept (take (min n cap) u) else content k s))))"
begin

definition texts :: "'s \<Rightarrow> byte list list" where
  "texts s = map (\<lambda>k. content k s) [0..<slots]"

definition memo_of :: "'s vfs \<Rightarrow> memo" where
  "memo_of v = \<lparr>m_loaded = vfs_loaded v, m_text = texts (vfs_dev v),
     m_open = map (map_option (\<lambda>f. (f_minor f, f_pos f))) (vfs_files v)\<rparr>"

abbreviation mstep :: "sys_call \<Rightarrow> memo \<Rightarrow> (int \<times> byte list) \<times> memo" where
  "mstep \<equiv> memo_step minors slot cap kept (texts init)"

text \<open>A call on a handle in the two machines.\<close>

lemma on_file_sim:
  assumes "vfs_inv v"
    and "\<And>f. open_handle h (vfs_files v) = Some f \<Longrightarrow> vfs_loaded v \<Longrightarrow> good (vfs_dev v) \<Longrightarrow> file_ok f \<Longrightarrow>
           0 \<le> f_pos f \<Longrightarrow> \<exists>x v'. body f = Some (x, v') \<and> mbody (f_minor f) (f_pos f) = (x, memo_of v')"
  shows "\<exists>x v'. on_file h v body = Some (x, v') \<and> memo_on h (memo_of v) mbody = (x, memo_of v')"
proof (cases "open_handle h (vfs_files v)")
  case None
  then have "h < length (vfs_files v) \<Longrightarrow> vfs_files v ! h = None" by (simp add: open_handle_def)
  with None show ?thesis by (cases "h < length (vfs_files v)") (simp_all add: on_file_def memo_on_def memo_of_def)
next
  case (Some f)
  then have h: "h < length (vfs_files v)" "vfs_files v ! h = Some f" by (auto elim: open_handle_cases)
  from assms(2)[OF Some handle_ok[OF assms(1) Some]] obtain x v' where
    "body f = Some (x, v')" "mbody (f_minor f) (f_pos f) = (x, memo_of v')" by blast
  moreover have "on_file h v body = body f" using Some handle_ok(1)[OF assms(1) Some] by (simp add: on_file_def)
  moreover have "memo_on h (memo_of v) mbody = mbody (f_minor f) (f_pos f)"
    using h by (simp add: memo_on_def memo_of_def)
  ultimately show ?thesis by simp
qed

lemma texts_nth [simp]: "k < slots \<Longrightarrow> texts s ! k = content k s"
  by (simp add: texts_def)

lemma texts_eqI: "(\<And>k. k < slots \<Longrightarrow> content k s' = (if k = i then t else content k s)) \<Longrightarrow> texts s' = (texts s)[i := t]"
  by (intro nth_equalityI) (simp_all add: texts_def nth_list_update)

lemma slot_ok: "file_ok f \<Longrightarrow> slot (f_minor f) < slots"
  using slot_range ok_minor by blast

lemma read_sim:
  assumes "vfs_inv v" and "uapi_nofault K"
  shows "\<exists>x v'. vfs_read F h K n v = Some (x, v') \<and> mstep (Sys_read h K n) (memo_of v) = (x, memo_of v')"
  unfolding vfs_read_def memo_step.simps
proof (rule on_file_sim[OF assms(1)], goal_cases)
  case (1 f)
  from read_memo obtain rd where "fop_read F = Some rd" and rd: "rd K f n (vfs_dev v) =
      (let chunk = take n (drop (nat (f_pos f)) (content (slot (f_minor f)) (vfs_dev v)))
       in Some (int (length chunk), chunk, f_pos f + int (length chunk), vfs_dev v))"
    using 1 assms(2) by blast
  then show ?case using slot_ok[OF 1(4)]
    by (simp add: Let_def memo_of_def set_handle_def map_update)
qed

lemma pread_sim:
  assumes "vfs_inv v" and "uapi_nofault K"
  shows "\<exists>x v'. vfs_pread F h K n pos v = Some (x, v') \<and> mstep (Sys_pread h K n pos) (memo_of v) = (x, memo_of v')"
  unfolding vfs_pread_def memo_step.simps
proof (rule on_file_sim[OF assms(1)], goal_cases)
  case (1 f)
  show ?case
  proof (cases "pos < 0")
    case False
    from read_memo obtain rd where F: "fop_read F = Some rd" and r: "\<forall>K f n s. uapi_nofault K \<longrightarrow> file_ok f \<longrightarrow> 0 \<le> f_pos f \<longrightarrow>
      good s \<longrightarrow> rd K f n s = (let chunk = take n (drop (nat (f_pos f)) (content (slot (f_minor f)) s))
        in Some (int (length chunk), chunk, f_pos f + int (length chunk), s))" by blast
    have "rd K (f\<lparr>f_pos := pos\<rparr>) n (vfs_dev v) =
      (let chunk = take n (drop (nat pos) (content (slot (f_minor f)) (vfs_dev v)))
       in Some (int (length chunk), chunk, pos + int (length chunk), vfs_dev v))"
      using r[rule_format, OF assms(2), of "f\<lparr>f_pos := pos\<rparr>"] 1 False any_pos by simp
    then show ?thesis using slot_ok[OF 1(4)] F False by (simp add: Let_def memo_of_def)
  qed simp
qed

lemma write_sim:
  assumes "vfs_inv v" and "uapi_ok K" and "fst (copy_from_user K u (min n cap)) = 0"
  shows "\<exists>x v'. vfs_write F h K u n v = Some (x, v') \<and> mstep (Sys_write h K u n) (memo_of v) = (x, memo_of v')"
  unfolding vfs_write_def memo_step.simps
proof (rule on_file_sim[OF assms(1)], goal_cases)
  case (1 f)
  from write_memo obtain wr where F: "fop_write F = Some wr" and w: "\<forall>K f u n s. uapi_ok K \<longrightarrow>
      fst (copy_from_user K u (min n cap)) = 0 \<longrightarrow> file_ok f \<longrightarrow> good s \<longrightarrow>
      (\<exists>s'. wr K f u n s = Some (int (min n cap), s') \<and>
        (\<forall>k < slots. content k s' =
           (if k = slot (f_minor f) then kept (take (min n cap) u) else content k s)))" by blast
  from w[rule_format, OF assms(2,3) 1(4,3)] obtain s' where s': "wr K f u n (vfs_dev v) = Some (int (min n cap), s')"
    and k: "\<And>k. k < slots \<Longrightarrow> content k s' =
        (if k = slot (f_minor f) then kept (take (min n cap) u) else content k (vfs_dev v))" by blast
  with F texts_eqI[OF k] show ?case by (simp add: memo_of_def)
qed

lemma open_sim:
  assumes "vfs_inv v"
  shows "\<exists>x v'. vfs_open F minors m v = Some (x, v') \<and> mstep (Sys_open m) (memo_of v) = (x, memo_of v')"
proof (cases "vfs_loaded v \<and> m < minors \<and> fop_open F \<noteq> None")
  case True
  then obtain op where op: "fop_open F = Some op" by blast
  have g: "good (vfs_dev v)" using assms True by (simp add: vfs_inv_def)
  obtain f where f: "op (new_file m) (vfs_dev v) = Some (0, f)" "f_pos f = 0" using opens[OF op _ g] True by blast
  with True op open_minor[OF op f(1)] show ?thesis by (simp add: vfs_open_def memo_of_def)
qed (auto simp: vfs_open_def memo_of_def new_file_def)

lemma close_sim:
  assumes "vfs_inv v"
  shows "\<exists>x v'. vfs_close F h v = Some (x, v') \<and> mstep (Sys_close h) (memo_of v) = (x, memo_of v')"
  unfolding vfs_close_def memo_step.simps
proof (rule on_file_sim[OF assms(1)], goal_cases)
  case (1 f)
  then obtain r where "(case fop_release F of None \<Rightarrow> Some 0 | Some rel \<Rightarrow> rel f (vfs_dev v)) = Some r"
    using releases[of _ f "vfs_dev v"] by (cases "fop_release F") auto
  then show ?case by (simp add: memo_of_def set_handle_def map_update)
qed

lemma plain_sims:
  assumes "vfs_inv v"
  shows "\<exists>x v'. vfs_ioctl F h K cmd arg mem v = Some (x, v') \<and> mstep (Sys_ioctl h K cmd arg mem) (memo_of v) = (x, memo_of v')"
    and "\<exists>x v'. vfs_poll F h v = Some (x, v') \<and> mstep (Sys_poll h) (memo_of v) = (x, memo_of v')"
    and "\<exists>x v'. vfs_mmap F h a b pg v = Some (x, v') \<and> mstep (Sys_mmap h a b pg) (memo_of v) = (x, memo_of v')"
  unfolding vfs_ioctl_def vfs_poll_def vfs_mmap_def memo_step.simps
  by (rule on_file_sim[OF assms(1)], simp add: no_others)+

lemma open_count_ex: "0 < open_count fs \<longleftrightarrow> (\<exists>x \<in> set fs. x \<noteq> None)"
  by (auto simp: open_count_def filter_empty_conv)

lemma module_sims:
  assumes "vfs_inv v"
  shows "\<exists>x v'. vfs_insmod init v = (x, v') \<and> mstep Sys_insmod (memo_of v) = (x, memo_of v')"
    and "\<exists>x v'. vfs_rmmod v = (x, v') \<and> mstep Sys_rmmod (memo_of v) = (x, memo_of v')"
  using assms open_count_ex[of "vfs_files v"]
  by (auto simp: vfs_insmod_def vfs_rmmod_def memo_of_def vfs_inv_def)

lemma step_sim:
  assumes "vfs_inv v" and "faultless cap c"
  shows "\<exists>x v'. vfs_step F minors init c v = Some (x, v') \<and> mstep c (memo_of v) = (x, memo_of v')"
  using assms(2) open_sim[OF assms(1)] close_sim[OF assms(1)] read_sim[OF assms(1)] pread_sim[OF assms(1)]
    write_sim[OF assms(1)] plain_sims[OF assms(1)] module_sims[OF assms(1)]
  by (cases c) (simp_all del: memo_step.simps)

lemma run_sim:
  "vfs_inv v \<Longrightarrow> \<forall>c \<in> set cs. faultless cap c \<Longrightarrow>
   \<exists>xs v'. vfs_run F minors init cs v = Some (xs, v') \<and>
     memo_run minors slot cap kept (texts init) cs (memo_of v) = (xs, memo_of v')"
proof (induction cs arbitrary: v)
  case (Cons c cs)
  have c: "faultless cap c" using Cons.prems by simp
  obtain x v1 where x: "vfs_step F minors init c v = Some (x, v1)" "mstep c (memo_of v) = (x, memo_of v1)"
    using step_sim[OF Cons.prems(1) c] by blast
  then have "vfs_inv v1" using step_inv[OF Cons.prems(1) faultless_call_ok[OF c]] by auto
  with Cons.IH[OF this] Cons.prems x show ?case by auto
qed simp

lemma runs_like_memo:
  assumes "\<forall>c \<in> set cs. faultless cap c"
  shows "map_option fst (vfs_run F minors init cs (vfs_start init)) =
    Some (fst (memo_run minors slot cap kept (texts init) cs (memo_start (texts init))))"
proof -
  have "memo_of (vfs_start init) = memo_start (texts init)"
    by (simp add: memo_of_def vfs_start_def memo_start_def)
  with run_sim[OF inv_start assms] show ?thesis by auto
qed

end

section \<open>Tables that can be opened, read and written\<close>

lemma file_driverI:
  assumes "owner F" and "good init"
    and F: "fop_open F = Some op" "fop_release F = Some rel" "fop_read F = Some rd" "fop_write F = Some wr"
      "fop_ioctl F = None" "fop_mmap F = None"
    and "\<And>f p. file_ok f \<Longrightarrow> file_ok (f\<lparr>f_pos := p\<rparr>)"
    and "\<And>m s. m < minors \<Longrightarrow> good s \<Longrightarrow> \<exists>f. op (new_file m) s = Some (0, f) \<and> file_ok f \<and> f_pos f = 0"
    and "\<And>f s. file_ok f \<Longrightarrow> good s \<Longrightarrow> rel f s \<noteq> None"
    and "\<And>K f n s. uapi_ok K \<Longrightarrow> file_ok f \<Longrightarrow> 0 \<le> f_pos f \<Longrightarrow> good s \<Longrightarrow>
      \<exists>r out off s'. rd K f n s = Some (r, out, off, s') \<and> count_result n r out \<and> 0 \<le> off \<and> good s'"
    and "\<And>K f u n s. uapi_ok K \<Longrightarrow> file_ok f \<Longrightarrow> good s \<Longrightarrow>
      \<exists>r s'. wr K f u n s = Some (r, s') \<and> (is_errno r \<or> (0 \<le> r \<and> r \<le> int n)) \<and> good s'"
  shows "file_driver F minors init good file_ok"
  using assms by unfold_locales simp_all

lemma memo_driverI:
  assumes "file_driver F minors init good file_ok"
    and F: "fop_open F = Some op" "fop_read F = Some rd" "fop_write F = Some wr"
      "fop_ioctl F = None" "fop_poll F = None" "fop_mmap F = None"
    and "\<And>m. m < minors \<Longrightarrow> slot m < slots"
    and "\<And>f. file_ok f \<Longrightarrow> f_minor f < minors"
    and "\<And>m s f. op (new_file m) s = Some (0, f) \<Longrightarrow> f_minor f = m"
    and "\<And>K f n s. uapi_nofault K \<Longrightarrow> file_ok f \<Longrightarrow> 0 \<le> f_pos f \<Longrightarrow> good s \<Longrightarrow>
      rd K f n s = (let chunk = take n (drop (nat (f_pos f)) (content (slot (f_minor f)) s))
        in Some (int (length chunk), chunk, f_pos f + int (length chunk), s))"
    and "\<And>K f u n s. uapi_ok K \<Longrightarrow> fst (copy_from_user K u (min n cap)) = 0 \<Longrightarrow> file_ok f \<Longrightarrow> good s \<Longrightarrow>
      \<exists>s'. wr K f u n s = Some (int (min n cap), s') \<and>
        (\<forall>k < slots. content k s' =
           (if k = slot (f_minor f) then kept (take (min n cap) u) else content k s))"
  shows "memo_driver F minors init good file_ok content slots slot cap kept"
  using assms by (intro memo_driver.intro memo_driver_axioms.intro) simp_all

end
