(* ===== verification/DeviceFiles.thy ===== *)
theory DeviceFiles
  imports Vfs CharBasic CharDevices WaitQueue GpioIrq DmaDrivers DataDrivers
begin

text \<open>
  The \<open>file_operations\<close> tables of the character drivers with their \<open>open\<close> and \<open>release\<close>
  methods, and what user processes can make of them by any sequence of system calls. The
  methods that read and write are those of the driver theories; the tables say which of them
  the kernel can reach and with what file.
\<close>

section \<open>The tables\<close>

text \<open>A table without methods; a C initialiser leaves what it does not name \<open>NULL\<close>.\<close>

definition no_methods :: "'s file_operations" where
  "no_methods = \<lparr>owner = False, fop_open = None, fop_release = None, fop_read = None, fop_write = None,
     fop_ioctl = None, fop_poll = None, fop_mmap = None\<rparr>"

text \<open>A \<open>read\<close> that moves \<open>*off\<close>, one that takes from the device and leaves \<open>*off\<close> alone, a \<open>write\<close>.\<close>

definition pos_read ::
    "(uapi \<Rightarrow> nat \<Rightarrow> int \<Rightarrow> 's \<Rightarrow> read_result) \<Rightarrow> uapi \<Rightarrow> ofile \<Rightarrow> nat \<Rightarrow> 's \<Rightarrow>
     (int \<times> byte list \<times> int \<times> 's) option" where
  "pos_read rd K f n s = map_option (\<lambda>(r, out, off). (r, out, off, s)) (rd K n (f_pos f) s)"

definition take_read ::
    "(uapi \<Rightarrow> nat \<Rightarrow> 's \<Rightarrow> (int \<times> byte list \<times> 's) option) \<Rightarrow> uapi \<Rightarrow> ofile \<Rightarrow> nat \<Rightarrow> 's \<Rightarrow>
     (int \<times> byte list \<times> int \<times> 's) option" where
  "take_read rd K f n s = map_option (\<lambda>(r, out, s). (r, out, f_pos f, s)) (rd K n s)"

definition plain_write ::
    "(uapi \<Rightarrow> byte list \<Rightarrow> nat \<Rightarrow> 's \<Rightarrow> (int \<times> 's) option) \<Rightarrow> uapi \<Rightarrow> ofile \<Rightarrow> byte list \<Rightarrow> nat \<Rightarrow> 's \<Rightarrow>
     (int \<times> 's) option" where
  "plain_write wr K f u n s = wr K u n s"

subsection \<open>3: \<open>register_chrdev\<close>, which takes all 256 minors\<close>

definition my_fops_reg1 :: "unit file_operations" where
  "my_fops_reg1 = no_methods\<lparr>owner := True\<rparr>"

definition my_open_reg2 :: "ofile \<Rightarrow> byte list \<Rightarrow> (int \<times> ofile) option" where
  "my_open_reg2 f s = Some (0, f)"

definition my_release_reg2 :: "ofile \<Rightarrow> byte list \<Rightarrow> int option" where
  "my_release_reg2 f s = Some 0"

definition my_fops_reg2 :: "byte list file_operations" where
  "my_fops_reg2 = no_methods\<lparr>owner := True, fop_open := Some my_open_reg2,
     fop_release := Some my_release_reg2, fop_read := Some (pos_read my_read_reg2),
     fop_write := Some (plain_write my_write_reg2)\<rparr>"

subsection \<open>4: \<open>cdev_add\<close>\<close>

definition my_open_cdev1 :: "ofile \<Rightarrow> byte list \<Rightarrow> (int \<times> ofile) option" where
  "my_open_cdev1 f s = Some (0, f)"

definition my_release_cdev1 :: "ofile \<Rightarrow> byte list \<Rightarrow> int option" where
  "my_release_cdev1 f s = Some 0"

definition my_fops_cdev1 :: "byte list file_operations" where
  "my_fops_cdev1 = no_methods\<lparr>owner := True, fop_open := Some my_open_cdev1,
     fop_read := Some (pos_read my_read_cdev1), fop_write := Some (plain_write my_write_cdev1),
     fop_release := Some my_release_cdev1\<rparr>"

definition my_open_cdev2 :: "ofile \<Rightarrow> byte list \<Rightarrow> (int \<times> ofile) option" where
  "my_open_cdev2 f s = Some (0, f)"

definition my_release_cdev2 :: "ofile \<Rightarrow> byte list \<Rightarrow> int option" where
  "my_release_cdev2 f s = Some 0"

definition fops_cdev2 :: "byte list file_operations" where
  "fops_cdev2 = no_methods\<lparr>owner := True, fop_open := Some my_open_cdev2,
     fop_read := Some (pos_read my_read_cdev2), fop_write := Some (plain_write my_write_cdev2),
     fop_release := Some my_release_cdev2\<rparr>"

text \<open>\<open>-3.c\<close> finds the buffer by the minor of the inode.\<close>

definition my_open_cdev3 :: "ofile \<Rightarrow> byte list list \<Rightarrow> (int \<times> ofile) option" where
  "my_open_cdev3 f s = Some (0, f)"

definition my_release_cdev3 :: "ofile \<Rightarrow> byte list list \<Rightarrow> int option" where
  "my_release_cdev3 f s = Some 0"

definition my_fops_cdev3 :: "byte list list file_operations" where
  "my_fops_cdev3 = no_methods\<lparr>owner := True, fop_open := Some my_open_cdev3,
     fop_release := Some my_release_cdev3,
     fop_read := Some (\<lambda>K f. pos_read (my_read_cdev3 (f_minor f)) K f),
     fop_write := Some (\<lambda>K f. plain_write (my_write_cdev3 (f_minor f)) K f)\<rparr>"

subsection \<open>5: the device found by \<open>container_of\<close>, and 6\<close>

definition fops_cont :: "int \<Rightarrow> my_device list file_operations" where
  "fops_cont stride = no_methods\<lparr>owner := True,
     fop_open := Some (\<lambda>f s. map_option (\<lambda>(r, p). (r, f\<lparr>private_data := p\<rparr>))
       (my_open_cont stride (cdev_addr stride (f_minor f)) s)),
     fop_release := Some (\<lambda>f s. my_release_cont stride (private_data f) s),
     fop_read := Some (\<lambda>K f. pos_read (my_read_cont stride (private_data f)) K f),
     fop_write := Some (\<lambda>K f. plain_write (my_write_cont stride (private_data f)) K f)\<rparr>"

definition my_open_ioctl :: "ofile \<Rightarrow> my_cfg \<Rightarrow> (int \<times> ofile) option" where
  "my_open_ioctl f s = Some (0, f)"

definition my_release_ioctl :: "ofile \<Rightarrow> my_cfg \<Rightarrow> int option" where
  "my_release_ioctl f s = Some 0"

definition my_fops_ioctl :: "32 word \<Rightarrow> 32 word \<Rightarrow> my_cfg file_operations" where
  "my_fops_ioctl SET_VALUE GET_VALUE = no_methods\<lparr>owner := True, fop_open := Some my_open_ioctl,
     fop_release := Some my_release_ioctl,
     fop_read := Some (\<lambda>K f n s. Some (my_read_ioctl n, [], f_pos f, s)),
     fop_write := Some (\<lambda>K f u n s. Some (my_write_ioctl n, s)),
     fop_ioctl := Some (\<lambda>K f cmd arg mem s. my_ioctl SET_VALUE GET_VALUE K cmd mem s)\<rparr>"

subsection \<open>7 to 10: mailboxes\<close>

text \<open>
  With one call at a time nobody can fill the mailbox during a wait: it ends at once when the
  flag is set, and by a signal otherwise.
\<close>

definition lone_wait :: "bool \<Rightarrow> int" where
  "lone_wait cond = (if cond then 0 else - ERESTARTSYS)"

definition my_open_wq7 :: "ofile \<Rightarrow> wq_dev \<Rightarrow> (int \<times> ofile) option" where
  "my_open_wq7 f s = Some (0, f)"

definition my_release_wq7 :: "ofile \<Rightarrow> wq_dev \<Rightarrow> int option" where
  "my_release_wq7 f s = Some 0"

definition fops_wq7 :: "wq_dev file_operations" where
  "fops_wq7 = no_methods\<lparr>owner := True, fop_open := Some my_open_wq7, fop_release := Some my_release_wq7,
     fop_read := Some (take_read (\<lambda>K n s. my_read_wq7 (lone_wait (data_available s \<noteq> 0)) K n s)),
     fop_write := Some (plain_write my_write_wq7)\<rparr>"

definition my_open_wq8 :: "ofile \<Rightarrow> wq_dev \<Rightarrow> (int \<times> ofile) option" where
  "my_open_wq8 f s = Some (0, f)"

definition my_release_wq8 :: "ofile \<Rightarrow> wq_dev \<Rightarrow> int option" where
  "my_release_wq8 f s = Some 0"

definition fops_wq8 :: "wq_dev file_operations" where
  "fops_wq8 = no_methods\<lparr>owner := True, fop_open := Some my_open_wq8, fop_release := Some my_release_wq8,
     fop_read := Some (take_read my_read_wq8), fop_write := Some (plain_write my_write_wq8),
     fop_poll := Some my_poll_wq8\<rparr>"

definition my_open_wq9 :: "ofile \<Rightarrow> wq_dev \<Rightarrow> (int \<times> ofile) option" where
  "my_open_wq9 f s = Some (0, f)"

definition my_release_wq9 :: "ofile \<Rightarrow> wq_dev \<Rightarrow> int option" where
  "my_release_wq9 f s = Some 0"

definition fops_wq9 :: "wq_dev file_operations" where
  "fops_wq9 = no_methods\<lparr>owner := True, fop_open := Some my_open_wq9, fop_release := Some my_release_wq9,
     fop_read := Some (take_read my_read_wq9), fop_write := Some (plain_write my_write_wq9),
     fop_poll := Some my_poll_wq9\<rparr>"

definition my_open_wq10 :: "ofile \<Rightarrow> wq_dev \<Rightarrow> (int \<times> ofile) option" where
  "my_open_wq10 f s = Some (0, f)"

definition my_release_wq10 :: "ofile \<Rightarrow> wq_dev \<Rightarrow> int option" where
  "my_release_wq10 f s = Some 0"

definition my_fops_wq10 :: "wq_dev file_operations" where
  "my_fops_wq10 = no_methods\<lparr>owner := True, fop_open := Some my_open_wq10,
     fop_release := Some my_release_wq10,
     fop_read := Some (take_read (\<lambda>K n s. my_read_wq10 (lone_wait (data_available s \<noteq> 0)) K n s)),
     fop_write := Some (plain_write my_write_wq10)\<rparr>"

subsection \<open>14, 20, 21a, 22 and 23\<close>

text \<open>The read of 14 ignores the wait and the length; its state is \<open>pressed\<close>.\<close>

definition fops_btn :: "int file_operations" where
  "fops_btn = no_methods\<lparr>owner := True,
     fop_read := Some (take_read (\<lambda>K n s. Some (dev_read_btn (lone_wait (s = 1)) K n s)))\<rparr>"

text \<open>
  20: the struct allocated by \<open>probe\<close> is at address \<open>mydev\<close>, its \<open>cdev\<close> member at offset
  \<open>coff\<close>. A method that dereferences any other pointer is undefined.
\<close>

definition my_open_coh :: "int \<Rightarrow> int \<Rightarrow> ofile \<Rightarrow> (int \<times> ofile) option" where
  "my_open_coh coff i_cdev f = Some (0, f\<lparr>private_data := i_cdev - coff\<rparr>)"

definition my_release_coh :: "ofile \<Rightarrow> coh_dev \<Rightarrow> int option" where
  "my_release_coh f s = Some 0"

definition fops_coh :: "int \<Rightarrow> int \<Rightarrow> coh_dev file_operations" where
  "fops_coh mydev coff = no_methods\<lparr>owner := True,
     fop_open := Some (\<lambda>f s. my_open_coh coff (mydev + coff) f), fop_release := Some my_release_coh,
     fop_read := Some (\<lambda>K f n s. if private_data f = mydev then pos_read my_read_coh K f n s else None),
     fop_write := Some (\<lambda>K f u n s.
       if private_data f = mydev then plain_write my_write_coh K f u n s else None)\<rparr>"

text \<open>21a: the state is that of the driver and the log of its kernel calls.\<close>

definition dev_open_m2m :: "ofile \<Rightarrow> m2m \<times> klog \<Rightarrow> (int \<times> ofile) option" where
  "dev_open_m2m f s = Some (0, f)"

definition dev_release_m2m :: "ofile \<Rightarrow> m2m \<times> klog \<Rightarrow> int option" where
  "dev_release_m2m f s = Some 0"

definition fops_m2m :: "kenv \<Rightarrow> dma_engine \<Rightarrow> (m2m \<times> klog) file_operations" where
  "fops_m2m env E = no_methods\<lparr>owner := True, fop_open := Some dev_open_m2m,
     fop_release := Some dev_release_m2m,
     fop_read := Some (pos_read (\<lambda>K n off s. dev_read_m2m K n off (fst s))),
     fop_write := Some (plain_write (\<lambda>K u n s.
       case run_state (dev_write_m2m env E K u n (fst s)) (snd s) of
         (x, h) \<Rightarrow> map_option (\<lambda>(r, d). (r, (d, h))) x))\<rparr>"

definition my_open_mmap :: "ofile \<Rightarrow> byte list \<Rightarrow> (int \<times> ofile) option" where
  "my_open_mmap f s = Some (0, f)"

definition my_release_mmap :: "ofile \<Rightarrow> byte list \<Rightarrow> int option" where
  "my_release_mmap f s = Some 0"

definition fops_mmap :: "64 word \<Rightarrow> 64 word \<Rightarrow> int \<Rightarrow> byte list file_operations" where
  "fops_mmap virt phys remap = no_methods\<lparr>owner := True, fop_open := Some my_open_mmap,
     fop_release := Some my_release_mmap, fop_mmap := Some (my_mmap virt phys remap)\<rparr>"

definition my_open_list :: "ofile \<Rightarrow> student list \<Rightarrow> (int \<times> ofile) option" where
  "my_open_list f s = Some (0, f)"

definition my_release_list :: "ofile \<Rightarrow> student list \<Rightarrow> int option" where
  "my_release_list f s = Some 0"

definition fops_list :: "bool \<Rightarrow> student list file_operations" where
  "fops_list room = no_methods\<lparr>owner := True, fop_open := Some my_open_list,
     fop_release := Some my_release_list, fop_read := Some (pos_read my_read_list),
     fop_write := Some (plain_write (my_write_list room)),
     fop_ioctl := Some (\<lambda>K f cmd arg mem s. case my_ioctl_list cmd arg s of (r, s) \<Rightarrow> Some (r, [], s))\<rparr>"

lemmas fops_defs = no_methods_def my_fops_reg1_def my_fops_reg2_def my_fops_cdev1_def fops_cdev2_def
  my_fops_cdev3_def fops_cont_def my_fops_ioctl_def fops_wq7_def fops_wq8_def fops_wq9_def my_fops_wq10_def
  fops_btn_def fops_coh_def fops_m2m_def fops_mmap_def fops_list_def

lemmas open_defs = my_open_reg2_def my_open_cdev1_def my_open_cdev2_def my_open_cdev3_def my_open_ioctl_def
  my_open_wq7_def my_open_wq8_def my_open_wq9_def my_open_wq10_def my_open_coh_def dev_open_m2m_def
  my_open_mmap_def my_open_list_def

lemmas release_defs = my_release_reg2_def my_release_cdev1_def my_release_cdev2_def my_release_cdev3_def
  my_release_ioctl_def my_release_wq7_def my_release_wq8_def my_release_wq9_def my_release_wq10_def
  my_release_coh_def dev_release_m2m_def my_release_mmap_def my_release_list_def

section \<open>The drivers meet the contract\<close>

text \<open>The methods of a table, looked up.\<close>

lemma pos_read_some [simp]:
  "pos_read rd K f n s = Some (r, out, off, s') \<longleftrightarrow> rd K n (f_pos f) s = Some (r, out, off) \<and> s' = s"
  by (auto simp: pos_read_def)

lemma take_read_some [simp]:
  "take_read rd K f n s = Some (r, out, off, s') \<longleftrightarrow> rd K n s = Some (r, out, s') \<and> off = f_pos f"
  by (auto simp: take_read_def)

lemma plain_write_some [simp]: "plain_write wr K f u n s = wr K u n s"
  by (simp add: plain_write_def)

abbreviation single :: "nat \<Rightarrow> ofile \<Rightarrow> bool" where
  "single n f \<equiv> f_minor f < n"

interpretation reg1_files: file_driver my_fops_reg1 256 "()" "\<lambda>_. True" "single 256"
  by unfold_locales (auto simp: fops_defs new_file_def)

text \<open>
  A table over methods that meet \<open>text_device\<close> for every file its \<open>open\<close> makes, and whose
  \<open>write\<close> changes one text only.
\<close>

lemma text_table:
  assumes "owner F" and "good init"
    and F: "fop_open F = Some op" "fop_release F = Some rel"
      "fop_read F = Some (\<lambda>K f. pos_read (rd f) K f)" "fop_write F = Some (\<lambda>K f. plain_write (wr f) K f)"
      "fop_ioctl F = None" "fop_poll F = None" "fop_mmap F = None"
    and "\<And>f p. file_ok f \<Longrightarrow> file_ok (f\<lparr>f_pos := p\<rparr>)" and "\<And>f. file_ok f \<Longrightarrow> f_minor f < minors"
    and "\<And>m. m < minors \<Longrightarrow> slot m < slots"
    and "\<And>m s. m < minors \<Longrightarrow> good s \<Longrightarrow> \<exists>f. op (new_file m) s = Some (0, f) \<and> file_ok f \<and> f_pos f = 0"
    and "\<And>m s f. op (new_file m) s = Some (0, f) \<Longrightarrow> f_minor f = m"
    and "\<And>f s. file_ok f \<Longrightarrow> good s \<Longrightarrow> rel f s \<noteq> None"
    and dev: "\<And>f. file_ok f \<Longrightarrow> text_device (content (slot (f_minor f))) good (rd f) (wr f) cap kept"
    and frame: "\<And>f K u n s r s' k. file_ok f \<Longrightarrow> good s \<Longrightarrow> wr f K u n s = Some (r, s') \<Longrightarrow> k < slots \<Longrightarrow>
      k \<noteq> slot (f_minor f) \<Longrightarrow> content k s' = content k s"
  shows "memo_driver F minors init good file_ok content slots slot cap kept"
proof (rule memo_driverI[OF _ F(1,3,4,5,6,7)])
  note rdr = text_device.axioms(1)[OF dev]
  show "file_driver F minors init good file_ok"
  proof (rule file_driverI[where F = F and init = init and good = good, OF assms(1,2) F(1,2,3,4,5,7)])
    fix K :: uapi and f n s
    assume "uapi_ok K" "file_ok f" "0 \<le> f_pos f" "good s"
    then show "\<exists>r out off s'. pos_read (rd f) K f n s = Some (r, out, off, s') \<and> count_result n r out \<and>
        0 \<le> off \<and> good s'"
      using offset_reader.rd_typed[OF rdr, of f s "f_pos f" K n] by simp
  next
    fix K :: uapi and f u n s
    assume "uapi_ok K" "file_ok f" "good s"
    then show "\<exists>r s'. plain_write (wr f) K f u n s = Some (r, s') \<and>
        (is_errno r \<or> (0 \<le> r \<and> r \<le> int n)) \<and> good s'"
      using text_device.wr_typed[OF dev, of f s K u n] by simp
  qed (use assms in simp_all)
  fix K :: uapi and f n s
  assume "uapi_nofault K" "file_ok f" "0 \<le> f_pos f" "good s"
  then show "pos_read (rd f) K f n s = (let chunk = take n (drop (nat (f_pos f)) (content (slot (f_minor f)) s))
      in Some (int (length chunk), chunk, f_pos f + int (length chunk), s))"
    using offset_reader.rd_chunk[OF rdr, of f s "f_pos f" K n] by (simp add: Let_def)
next
  fix K :: uapi and f u n s
  assume a: "uapi_ok K" "fst (copy_from_user K u (min n cap)) = 0" "file_ok f" "good s"
  with text_device.wr_kept[OF dev, of f s K u n] obtain s' where
    "wr f K u n s = Some (int (min n cap), s')" "content (slot (f_minor f)) s' = kept (take (min n cap) u)" by blast
  with a frame show "\<exists>s'. plain_write (wr f) K f u n s = Some (int (min n cap), s') \<and> (\<forall>k < slots.
      content k s' = (if k = slot (f_minor f) then kept (take (min n cap) u) else content k s))"
    by auto
qed (use assms in simp_all)

interpretation reg2_files: memo_driver my_fops_reg2 256 "replicate 100 0" "nul_buf BUF_SIZE_100" "single 256"
  "\<lambda>_. text_of" 1 "\<lambda>_. 0" 99 text_of
  by (rule text_table[where op = my_open_reg2 and rel = my_release_reg2 and rd = "\<lambda>_. my_read_reg2"
        and wr = "\<lambda>_. my_write_reg2"])
    (simp_all add: my_fops_reg2_def no_methods_def open_defs release_defs new_file_def nul_buf_replicate
       reg2_dev.text_device_axioms[simplified])

lemma cdev3_row_device: "m < NUM_DEVICES \<Longrightarrow>
  text_device (\<lambda>kbs. text_of (kbs ! m)) good_cdev3 (my_read_cdev3 m) (my_write_cdev3 m) 99 text_of"
  using cdev3_dev.text_device_axioms[of m] by simp

lemma cdev3_frame:
  assumes "my_write_cdev3 m K u n kbs = Some (r, kbs')" and "k \<noteq> m"
  shows "kbs' ! k = kbs ! k"
proof (cases "m < length kbs")
  case True
  with assms show ?thesis by (auto simp: my_write_cdev3_text)
next
  case False
  with assms show ?thesis by (simp add: my_write_cdev3_def)
qed

interpretation cdev3_files: memo_driver my_fops_cdev3 NUM_DEVICES "replicate NUM_DEVICES (replicate 100 0)" good_cdev3
  "single NUM_DEVICES" "\<lambda>k kbs. text_of (kbs ! k)" NUM_DEVICES "\<lambda>m. m" 99 text_of
  by (rule text_table[where op = my_open_cdev3 and rel = my_release_cdev3 and rd = "\<lambda>f. my_read_cdev3 (f_minor f)"
        and wr = "\<lambda>f. my_write_cdev3 (f_minor f)"])
    (simp_all add: my_fops_cdev3_def no_methods_def open_defs release_defs new_file_def nul_buf_replicate
       good_cdev3_def[of "replicate n b" for n b] cdev3_row_device cdev3_frame)

lemma cont_device: "0 < stride \<Longrightarrow> m < MINOR_DEVICES \<Longrightarrow>
  text_device (\<lambda>ds. stored (ds ! m)) good_cont (my_read_cont stride (cdev_addr stride m))
    (my_write_cont stride (cdev_addr stride m)) 100 (\<lambda>bs. bs)"
  using cont_dev.text_device_axioms[of m stride] by simp

lemma cont_frame:
  "0 < stride \<Longrightarrow> my_write_cont stride (cdev_addr stride m) K u n ds = Some (r, ds') \<Longrightarrow> k \<noteq> m \<Longrightarrow>
   ds' ! k = ds ! k"
  by (auto simp: my_write_cont_def Let_def split: if_splits prod.splits Option.bind_splits)

text \<open>\<open>private_data\<close> points to the struct of the minor: this is what \<open>open\<close> stored.\<close>

definition cont_file :: "int \<Rightarrow> ofile \<Rightarrow> bool" where
  "cont_file stride f \<longleftrightarrow> 0 < stride \<and> f_minor f < MINOR_DEVICES \<and> private_data f = cdev_addr stride (f_minor f)"

interpretation cont_files: memo_driver "fops_cont stride" "if 0 < stride then MINOR_DEVICES else 0" devices_zero good_cont
  "cont_file stride" "\<lambda>k ds. stored (ds ! k)" MINOR_DEVICES "\<lambda>m. m" 100 "\<lambda>bs. bs" for stride
  by (rule text_table[where op = "\<lambda>f s. map_option (\<lambda>(r, p). (r, f\<lparr>private_data := p\<rparr>))
          (my_open_cont stride (cdev_addr stride (f_minor f)) s)"
        and rel = "\<lambda>f s. my_release_cont stride (private_data f) s"
        and rd = "\<lambda>f. my_read_cont stride (private_data f)" and wr = "\<lambda>f. my_write_cont stride (private_data f)"])
    (auto simp: fops_cont_def no_methods_def new_file_def cont_file_def cont_device cont_frame
       my_open_cont_def my_release_cont_def container_of_cdev_def good_cont_def devices_zero_def good_dev_def
       split: if_splits Option.bind_splits)

text \<open>20: the methods reach the struct through \<open>private_data\<close>.\<close>

definition coh_file :: "int \<Rightarrow> ofile \<Rightarrow> bool" where
  "coh_file mydev f \<longleftrightarrow> f_minor f < 1 \<and> private_data f = mydev"

definition coh_zero :: coh_dev where
  "coh_zero = \<lparr>cpu_addr = replicate DMA_BUF 0, coh_size = 0\<rparr>"

interpretation coh_files: memo_driver "fops_coh mydev coff" 1 coh_zero good_coh "coh_file mydev"
  "\<lambda>_ d. take (coh_size d) (cpu_addr d)" 1 "\<lambda>_. 0" DMA_BUF "\<lambda>bs. bs" for mydev coff
proof -
  have table: "fop_read (fops_coh mydev coff) =
      Some (\<lambda>K f. pos_read (\<lambda>K n off s. if private_data f = mydev then my_read_coh K n off s else None) K f)"
    "fop_write (fops_coh mydev coff) =
      Some (\<lambda>K f. plain_write (\<lambda>K u n s. if private_data f = mydev then my_write_coh K u n s else None) K f)"
    by (auto simp: fops_coh_def no_methods_def pos_read_def plain_write_def fun_eq_iff)
  show "memo_driver (fops_coh mydev coff) 1 coh_zero good_coh (coh_file mydev)
      (\<lambda>_ d. take (coh_size d) (cpu_addr d)) 1 (\<lambda>_. 0) DMA_BUF (\<lambda>bs. bs)"
    by (rule text_table[OF _ _ _ _ table])
      (auto simp: fops_coh_def no_methods_def new_file_def coh_file_def my_open_coh_def my_release_coh_def
        coh_zero_def good_coh_def[of "\<lparr>cpu_addr = b, coh_size = n\<rparr>" for b n] coh_dev.text_device_axioms)
qed

subsection \<open>21a\<close>

text \<open>Every value \<open>do_dma_transfer\<close> returns is 0 or one of three errnos.\<close>

lemma do_dma_transfer_errno:
  "run_state (do_dma_transfer env len) h = (r, h') \<Longrightarrow> r = 0 \<or> is_errno r"
  by (auto simp: do_dma_transfer_def is_errno_def split: if_splits)


definition good_m2m_log :: "m2m \<times> klog \<Rightarrow> bool" where
  "good_m2m_log s \<longleftrightarrow> good_m2m (fst s) \<and> (case replay [] (snd s) of None \<Rightarrow> False | Some H \<Rightarrow> m2m_ready H)"

lemma good_m2m_logE:
  assumes "good_m2m_log s"
  obtains H where "good_m2m (fst s)" and "replay [] (snd s) = Some H" and "m2m_ready H"
  using assms by (auto simp: good_m2m_log_def split: option.splits)

lemma good_m2m_logI: "good_m2m d \<Longrightarrow> replay [] h = Some H \<Longrightarrow> m2m_ready H \<Longrightarrow> good_m2m_log (d, h)"
  by (simp add: good_m2m_log_def)

lemma dev_write_m2m_typed:
  assumes "kenv_ok env" and "dma_engine_ok E" and "uapi_ok K" and "good_m2m_log (d, h)"
  shows "\<exists>r d' h'. run_state (dev_write_m2m env E K u n d) h = (Some (r, d'), h') \<and>
    (is_errno r \<or> (0 \<le> r \<and> r \<le> int n)) \<and> good_m2m_log (d', h')"
proof -
  obtain H where g: "good_m2m d" and H: "replay [] h = Some H" "m2m_ready H"
    using good_m2m_logE[OF assms(4)] by auto
  let ?n = "min n DMA_BUF"
  show ?thesis
  proof (cases "fst (copy_from_user K u ?n) = 0")
    case True
    obtain ret h' where t: "run_state (do_dma_transfer env ?n) h = (ret, h')" by (rule prod.exhaust)
    note run = dev_write_m2m_cases[OF assms(1,2) g assms(3) True t]
    have "length (take ?n u) = ?n"
      using cfu_length[OF assms(3), of u ?n] cfu_data[OF assms(3) True] by simp
    then have "good_m2m (d\<lparr>src_buf := take ?n u @ drop ?n (src_buf d),
        dst_buf := E ret (take ?n u @ drop ?n (src_buf d)) (replicate DMA_BUF 0) ?n,
        data_len := if ret \<noteq> 0 then data_len d else ?n\<rparr>)"
      using g assms(2) by (auto simp: good_m2m_def dma_engine_ok_def)
    moreover have "replay [] h' = Some H" using do_dma_transfer_run[OF assms(1) H t] by simp
    moreover have "ret = 0 \<or> is_errno ret" using do_dma_transfer_errno[OF t] .
    ultimately show ?thesis using run H(2) good_m2m_logI by (cases "ret = 0") auto
  next
    case False
    obtain left bs where c: "copy_from_user K u ?n = (left, bs)" by (rule prod.exhaust)
    have l: "length bs = ?n" using cfu_length[OF assms(3), of u ?n] c by simp
    then have st: "c_store (src_buf d) 0 bs = Some (bs @ drop ?n (src_buf d))"
      using g by (simp add: c_store_def good_m2m_def)
    have n: "(if n > DMA_BUF then DMA_BUF else n) = ?n" by simp
    have "run_state (dev_write_m2m env E K u n d) h = (Some (- EFAULT, d\<lparr>src_buf := bs @ drop ?n (src_buf d)\<rparr>), h)"
      using st False c by (simp add: dev_write_m2m_def Let_def n del: if_split)
    moreover have "good_m2m (d\<lparr>src_buf := bs @ drop ?n (src_buf d)\<rparr>)" using g l by (simp add: good_m2m_def)
    ultimately show ?thesis using H good_m2m_logI by (simp add: is_errno_def)
  qed
qed

lemma m2m_files:
  assumes "kenv_ok env" and "dma_engine_ok E" and "good_m2m_log s0"
  shows "file_driver (fops_m2m env E) 1 s0 good_m2m_log (single 1)"
proof (rule file_driverI[where good = good_m2m_log and init = s0 and op = dev_open_m2m and rel = dev_release_m2m
      and rd = "pos_read (\<lambda>K n off s. dev_read_m2m K n off (fst s))"
      and wr = "plain_write (\<lambda>K u n s. case run_state (dev_write_m2m env E K u n (fst s)) (snd s) of
         (x, h) \<Rightarrow> map_option (\<lambda>(r, d). (r, (d, h))) x)"], goal_cases)
  case (12 K f n s)
  then show ?case
    using m2m_dev.rd_typed[of "fst s" "f_pos f" K n] by (auto elim!: good_m2m_logE)
next
  case (13 K f u n s)
  then show ?case using dev_write_m2m_typed[OF assms(1,2), of K "fst s" "snd s" u n] by auto
qed (use assms(3) in \<open>auto simp: fops_m2m_def no_methods_def dev_open_m2m_def dev_release_m2m_def new_file_def\<close>)


subsection \<open>Mailboxes and the shared page\<close>

lemma wq_read_typed:
  assumes "uapi_ok K" and "good_wq s"
  shows "\<exists>r out s'. wq_read K n s = Some (r, out, s') \<and> count_result n r out \<and> good_wq s'"
proof -
  let ?c = "take n (text_of (wq_buffer s))"
  obtain left out where c: "copy_to_user K ?c = (left, out)" by (rule prod.exhaust)
  moreover have "left = 0 \<Longrightarrow> out = ?c" using ctu_data[OF assms(1), of ?c] c by simp
  ultimately show ?thesis using wq_read_slice[OF assms(2), of n] assms(2)
    by (auto simp: wq_read_def good_wq_def nul_buf_strlen count_result_def is_errno_def min.commute)
qed

lemma wq_write_typed:
  assumes "uapi_ok K" and "good_wq s" and "\<And>n. rv n \<le> n"
  shows "\<exists>r s'. wq_write rv K u n s = Some (r, s') \<and> (is_errno r \<or> (0 \<le> r \<and> r \<le> int n)) \<and> good_wq s'"
proof -
  obtain left bs where c: "copy_from_user K u (min n 99) = (left, bs)" by (rule prod.exhaust)
  have l: "length bs < 100" "length bs = min n 99" using cfu_length[OF assms(1), of u "min n 99"] c by simp_all
  obtain b1 b2 where "c_store (wq_buffer s) 0 bs = Some b1" "nul_buf 100 b1"
    "c_store b1 (length bs) [0] = Some b2" "nul_buf 100 b2"
    using nul_buf_write[OF _ l(1), of "wq_buffer s"] assms(2) by (metis good_wq_def)
  then show ?thesis using c l(2) assms(3)[of n]
    by (auto simp: wq_write_def good_wq_def is_errno_def)
qed

lemma wq_read_empty:
  "data_available s = 0 \<Longrightarrow> my_read_wq8 K n s = Some (0, [], s)"
  "data_available s = 0 \<Longrightarrow> my_read_wq9 K n s = Some (0, [], s)"
  "my_read_wq7 (- ERESTARTSYS) K n s = Some (- ERESTARTSYS, [], s)"
  by (simp_all add: my_read_wq7_def my_read_wq8_def my_read_wq9_def)

lemma wq_methods_typed:
  assumes "uapi_ok K" and "good_wq s"
  shows "\<exists>r out s'. my_read_wq7 (lone_wait (data_available s \<noteq> 0)) K n s = Some (r, out, s') \<and> count_result n r out \<and> good_wq s'"
    and "\<exists>r out s'. my_read_wq8 K n s = Some (r, out, s') \<and> count_result n r out \<and> good_wq s'"
    and "\<exists>r out s'. my_read_wq9 K n s = Some (r, out, s') \<and> count_result n r out \<and> good_wq s'"
    and "\<exists>r out s'. my_read_wq10 w K n s = Some (r, out, s') \<and> count_result n r out \<and> good_wq s'"
    and "\<exists>r s'. my_write_wq7 K u n s = Some (r, s') \<and> (is_errno r \<or> (0 \<le> r \<and> r \<le> int n)) \<and> good_wq s'"
    and "\<exists>r s'. my_write_wq8 K u n s = Some (r, s') \<and> (is_errno r \<or> (0 \<le> r \<and> r \<le> int n)) \<and> good_wq s'"
    and "\<exists>r s'. my_write_wq9 K u n s = Some (r, s') \<and> (is_errno r \<or> (0 \<le> r \<and> r \<le> int n)) \<and> good_wq s'"
    and "\<exists>r s'. my_write_wq10 K u n s = Some (r, s') \<and> (is_errno r \<or> (0 \<le> r \<and> r \<le> int n)) \<and> good_wq s'"
proof -
  note rd = wq_read_typed[OF assms, of n]
  have empty: "count_result n 0 []" "count_result n (- ERESTARTSYS) []"
    by (simp_all add: count_result_def is_errno_def)
  show "\<exists>r out s'. my_read_wq7 (lone_wait (data_available s \<noteq> 0)) K n s = Some (r, out, s') \<and> count_result n r out \<and> good_wq s'"
    using rd empty assms(2) by (cases "data_available s = 0") (simp_all add: lone_wait_def wq_read_eqs wq_read_empty)
  show "\<exists>r out s'. my_read_wq8 K n s = Some (r, out, s') \<and> count_result n r out \<and> good_wq s'"
    using rd empty assms(2) by (cases "data_available s = 0") (simp_all add: wq_read_eqs wq_read_empty)
  show "\<exists>r out s'. my_read_wq9 K n s = Some (r, out, s') \<and> count_result n r out \<and> good_wq s'"
    using rd empty assms(2) by (cases "data_available s = 0") (simp_all add: wq_read_eqs wq_read_empty)
  show "\<exists>r out s'. my_read_wq10 w K n s = Some (r, out, s') \<and> count_result n r out \<and> good_wq s'"
    using rd by (simp add: wq_read_eqs)
qed (simp_all add: wq_write_eqs wq_write_typed[OF assms])

definition wq_zero :: wq_dev where
  "wq_zero = \<lparr>wq_buffer = replicate 100 0, data_available = 0\<rparr>"

lemma wq_file_driver:
  assumes "owner F" and "fop_open F = Some (\<lambda>f s. Some (0, f))" and "fop_release F = Some (\<lambda>f s. Some 0)"
    and "fop_read F = Some (take_read rd)" and "fop_write F = Some (plain_write wr)"
    and "fop_ioctl F = None" and "fop_mmap F = None"
    and "\<And>K n s. uapi_ok K \<Longrightarrow> good_wq s \<Longrightarrow>
      \<exists>r out s'. rd K n s = Some (r, out, s') \<and> count_result n r out \<and> good_wq s'"
    and "\<And>K u n s. uapi_ok K \<Longrightarrow> good_wq s \<Longrightarrow>
      \<exists>r s'. wr K u n s = Some (r, s') \<and> (is_errno r \<or> (0 \<le> r \<and> r \<le> int n)) \<and> good_wq s'"
  shows "file_driver F 1 wq_zero good_wq (single 1)"
  by (rule file_driverI[OF assms(1) _ assms(2-7)])
    (use assms(8,9) in \<open>auto simp: new_file_def wq_zero_def good_wq_def nul_buf_replicate\<close>)

interpretation wq7_files: file_driver fops_wq7 1 wq_zero good_wq "single 1"
  by (rule wq_file_driver) (auto simp: fops_wq7_def no_methods_def my_open_wq7_def[abs_def]
    my_release_wq7_def[abs_def] fun_eq_iff wq_methods_typed)

interpretation wq8_files: file_driver fops_wq8 1 wq_zero good_wq "single 1"
  by (rule wq_file_driver) (auto simp: fops_wq8_def no_methods_def my_open_wq8_def[abs_def]
    my_release_wq8_def[abs_def] fun_eq_iff wq_methods_typed)

interpretation wq9_files: file_driver fops_wq9 1 wq_zero good_wq "single 1"
  by (rule wq_file_driver) (auto simp: fops_wq9_def no_methods_def my_open_wq9_def[abs_def]
    my_release_wq9_def[abs_def] fun_eq_iff wq_methods_typed)

interpretation wq10_files: file_driver my_fops_wq10 1 wq_zero good_wq "single 1"
  by (rule wq_file_driver) (auto simp: my_fops_wq10_def no_methods_def my_open_wq10_def[abs_def]
    my_release_wq10_def[abs_def] fun_eq_iff wq_methods_typed)

interpretation mmap_files: file_driver "fops_mmap virt phys remap" 1 "replicate PAGE_SIZE 0"
  "\<lambda>page. length page = PAGE_SIZE" "single 1" for virt phys remap
  by unfold_locales
    (auto simp: fops_mmap_def no_methods_def my_open_mmap_def my_release_mmap_def new_file_def my_mmap_def
      mmap_banner_text c_store_def is_errno_def)

section \<open>Properties\<close>

text \<open>C2. Type safety of the device files: whatever sequence of system calls user processes
  make (opens, closes, reads at any offset, writes, ioctls, polls, mappings, loads and unloads
  of the module, with user memory that may fault), no method of these drivers leaves its
  memory or runs after its module is gone, every result is one the call may have (a count no
  larger than asked for with as many bytes delivered, or an errno), and the module is held
  exactly as often as files are open.\<close>

theorem device_files_type_safe:
  assumes "\<forall>c \<in> set cs. call_ok c" and "0 < stride"
    and "kenv_ok env" and "dma_engine_ok E" and "good_m2m_log s0"
  shows "type_safe_run my_fops_reg1 256 () cs \<and>
    type_safe_run my_fops_reg2 256 (replicate 100 0) cs \<and>
    type_safe_run my_fops_cdev3 NUM_DEVICES (replicate NUM_DEVICES (replicate 100 0)) cs \<and>
    type_safe_run (fops_cont stride) MINOR_DEVICES devices_zero cs \<and>
    type_safe_run fops_wq7 1 wq_zero cs \<and> type_safe_run fops_wq8 1 wq_zero cs \<and>
    type_safe_run fops_wq9 1 wq_zero cs \<and> type_safe_run my_fops_wq10 1 wq_zero cs \<and>
    type_safe_run (fops_coh mydev coff) 1 coh_zero cs \<and>
    type_safe_run (fops_m2m env E) 1 s0 cs \<and>
    type_safe_run (fops_mmap virt phys remap) 1 (replicate PAGE_SIZE 0) cs"
  using cont_files.runs_type_safe[OF assms(1), of stride] assms(2)
  by (simp add: reg1_files.runs_type_safe reg2_files.runs_type_safe cdev3_files.runs_type_safe
    wq7_files.runs_type_safe wq8_files.runs_type_safe wq9_files.runs_type_safe wq10_files.runs_type_safe
    coh_files.runs_type_safe mmap_files.runs_type_safe
    file_driver.runs_type_safe[OF m2m_files[OF assms(3-5)]] assms(1) del: One_nat_def)

text \<open>A session that opens, writes, reads past the end, maps, tries to unload and closes.\<close>

definition session_demo :: "sys_call list" where
  "session_demo = [Sys_open 0, Sys_write 0 uapi_plain (bytes_of ''hello'') 5, Sys_read 0 uapi_plain 3,
     Sys_read 0 uapi_plain 50, Sys_pread 0 uapi_plain 2 1, Sys_mmap 0 0 4096 0, Sys_rmmod, Sys_close 0,
     Sys_rmmod, Sys_read 0 uapi_plain 1, Sys_open 0]"

definition m2m_demo :: "m2m \<times> klog" where
  "m2m_demo = (\<lparr>src_buf = replicate DMA_BUF 0, dst_buf = replicate DMA_BUF 0, data_len = 0\<rparr>,
     [(Dma Dma_request_chan, 1), (Mm (Kmalloc ''src_buf'' DMA_BUF), 1), (Mm (Kmalloc ''dst_buf'' DMA_BUF), 1)])"

lemma good_m2m_demo: "good_m2m_log m2m_demo"
  by (simp add: m2m_demo_def good_m2m_log_def good_m2m_def m2m_ready_def)

theorem device_files_type_safe_witness:
  "type_safe_run fops_wq7 1 wq_zero session_demo \<and> type_safe_run (fops_m2m kenv_good engine_plain) 1 m2m_demo session_demo"
  using device_files_type_safe[of session_demo 1 kenv_good engine_plain m2m_demo]
  by (simp add: session_demo_def uapi_plain_ok kenv_good_ok engine_plain_ok good_m2m_demo del: One_nat_def)






text \<open>Where the tables let undefined behaviour or a wrong count through: on 4.1 and 4.2 a
  write of 100 bytes without a NUL is printed past the end of the buffer; on 6 an ioctl with
  a name of 32 bytes without a NUL is printed past the end of the struct; on 14 a read of one
  byte returns 16, and on 23 a read of one byte returns the whole list.\<close>

theorem device_files_unsafe:
  "\<not> type_safe_run my_fops_cdev1 1 (replicate 100 0)
        [Sys_open 0, Sys_write 0 uapi_plain (replicate 100 65) 100] \<and>
    \<not> type_safe_run fops_cdev2 1 (replicate 100 0)
        [Sys_open 0, Sys_write 0 uapi_plain (replicate 100 65) 100] \<and>
    \<not> type_safe_run (my_fops_ioctl SET_VALUE GET_VALUE) 1 (bytes_cfg (replicate 40 0))
        [Sys_open 0, Sys_ioctl 0 uapi_plain SET_VALUE 0 (replicate 40 65)] \<and>
    \<not> type_safe_run fops_btn 256 1 [Sys_open 0, Sys_read 0 uapi_plain 1] \<and>
    \<not> type_safe_run (fops_list True) 1 []
        [Sys_open 0, Sys_write 0 uapi_plain (bytes_of ''7 bob'') 5, Sys_read 0 uapi_plain 1]"
proof (intro conjI)
  show "\<not> type_safe_run (my_fops_ioctl SET_VALUE GET_VALUE) 1 (bytes_cfg (replicate 40 0))
        [Sys_open 0, Sys_ioctl 0 uapi_plain SET_VALUE 0 (replicate 40 65)]"
    by (simp add: type_safe_run_def my_fops_ioctl_def no_methods_def my_open_ioctl_def vfs_start_def
      vfs_open_def vfs_ioctl_def on_file_def open_handle_def new_file_def my_ioctl_def uapi_plain_def
      bytes_cfg_def c_string_def Let_def)
qed code_simp+

end
