(* ===== verification/DriverBus.thy ===== *)
theory DriverBus
  imports Kapi GpioIrq DmaDrivers Regmap
begin

text \<open>
  The driver structs of 15 to 21 (\<open>struct platform_driver\<close>) and 26a to 26g
  (\<open>struct i2c_driver\<close>), and the driver core that binds them to the one device node each
  family names in its match table. The core is not in the repository; the step below is what
  its documentation says: a driver whose name is taken is refused with \<open>-EBUSY\<close>, a driver that
  matches an unbound device is probed when it is registered and bound if that succeeds (the
  load succeeds either way), unregistering a bound driver calls its \<open>remove\<close>.
\<close>

section \<open>Drivers and the core\<close>

record ('e, 's) driver =
  drv_probe :: "'e \<Rightarrow> ('s, int) state"
  drv_remove :: "'e \<Rightarrow> ('s, unit) state"
  drv_pm :: "(('s, int) state \<times> ('s, int) state) option"
  drv_name :: string
  of_match_table :: "string list"

definition of_match_device :: "string list \<Rightarrow> string list \<Rightarrow> bool" where
  "of_match_device table compatible \<longleftrightarrow> list_ex (\<lambda>c. c \<in> set compatible) table"

text \<open>
  \<open>drv_pm\<close> are the system sleep callbacks, suspend and resume, which the core calls for the
  bound driver when it has them. \<open>bus_mods\<close> are the modules loaded, latest first, by their
  index in the list of drivers.
\<close>

record bus =
  bus_mods :: "nat list"
  bus_bound :: "nat option"

datatype 'e bus_event = Insmod nat 'e | Rmmod nat 'e | System_suspend | System_resume

definition bus_start :: bus where
  "bus_start = \<lparr>bus_mods = [], bus_bound = None\<rparr>"

definition bound_pm :: "('e, 's) driver list \<Rightarrow> bus \<Rightarrow> (('s, int) state \<times> ('s, int) state) option" where
  "bound_pm drivers b = Option.bind (bus_bound b) (\<lambda>i. drv_pm (drivers ! i))"

fun bus_step ::
    "('e, 's) driver list \<Rightarrow> string list \<Rightarrow> 'e bus_event \<Rightarrow> bus \<Rightarrow> ('s, int \<times> bus) state" where
  "bus_step drivers node (Insmod i env) b =
     (if length drivers \<le> i then State_Monad.return (- ENOENT, b)
      else if i \<in> set (bus_mods b) then State_Monad.return (- EEXIST, b)
      else if drv_name (drivers ! i) \<in> (\<lambda>j. drv_name (drivers ! j)) ` set (bus_mods b)
      then State_Monad.return (- EBUSY, b)
      else if bus_bound b = None \<and> of_match_device (of_match_table (drivers ! i)) node
      then do {
        r \<leftarrow> drv_probe (drivers ! i) env;
        State_Monad.return (0, \<lparr>bus_mods = i # bus_mods b, bus_bound = if r = 0 then Some i else None\<rparr>) }
      else State_Monad.return (0, b\<lparr>bus_mods := i # bus_mods b\<rparr>))"
| "bus_step drivers node (Rmmod i env) b =
     (if i \<notin> set (bus_mods b) then State_Monad.return (- ENOENT, b)
      else if bus_bound b = Some i
      then do {
        drv_remove (drivers ! i) env;
        State_Monad.return (0, \<lparr>bus_mods = remove1 i (bus_mods b), bus_bound = None\<rparr>) }
      else State_Monad.return (0, b\<lparr>bus_mods := remove1 i (bus_mods b)\<rparr>))"
| "bus_step drivers node System_suspend b = (case bound_pm drivers b of
      None \<Rightarrow> State_Monad.return (0, b)
    | Some (suspend, _) \<Rightarrow> do { r \<leftarrow> suspend; State_Monad.return (r, b) })"
| "bus_step drivers node System_resume b = (case bound_pm drivers b of
      None \<Rightarrow> State_Monad.return (0, b)
    | Some (_, resume) \<Rightarrow> do { r \<leftarrow> resume; State_Monad.return (r, b) })"

fun bus_run ::
    "('e, 's) driver list \<Rightarrow> string list \<Rightarrow> 'e bus_event list \<Rightarrow> bus \<Rightarrow> ('s, int list \<times> bus) state" where
  "bus_run drivers node [] b = State_Monad.return ([], b)"
| "bus_run drivers node (e # es) b = do {
     (r, b) \<leftarrow> bus_step drivers node e b;
     (rs, b) \<leftarrow> bus_run drivers node es b;
     State_Monad.return (r # rs, b) }"

text \<open>Modules loaded at the same time have different names, and a bound driver is loaded.\<close>

definition bus_names :: "('e, 's) driver list \<Rightarrow> bus \<Rightarrow> string list" where
  "bus_names drivers b = map (\<lambda>j. drv_name (drivers ! j)) (bus_mods b)"

definition bus_inv :: "('e, 's) driver list \<Rightarrow> bus \<Rightarrow> bool" where
  "bus_inv drivers b \<longleftrightarrow> distinct (bus_names drivers b) \<and> (\<forall>i \<in> set (bus_mods b). i < length drivers) \<and>
     (case bus_bound b of None \<Rightarrow> True | Some i \<Rightarrow> i \<in> set (bus_mods b))"

lemma bus_inv_start: "bus_inv drivers bus_start"
  by (simp add: bus_inv_def bus_start_def bus_names_def)

lemma distinct_map_remove1: "distinct (map f xs) \<Longrightarrow> distinct (map f (remove1 x xs))"
  by (induction xs) (use set_remove1_subset in \<open>fastforce\<close>)+

lemma bus_step_inv:
  assumes "bus_inv drivers b" and "run_state (bus_step drivers node e b) h = ((r, b'), h')"
  shows "bus_inv drivers b'"
proof -
  have d: "distinct (bus_mods b)" using assms(1) by (auto simp: bus_inv_def bus_names_def distinct_map)
  show ?thesis
    using assms d distinct_map_remove1[of "\<lambda>j. drv_name (drivers ! j)" "bus_mods b"]
    by (cases e) (auto simp: bus_inv_def bus_names_def split: if_splits option.splits prod.splits
      dest: notin_set_remove1)
qed

lemma bus_run_inv:
  "bus_inv drivers b \<Longrightarrow> run_state (bus_run drivers node es b) h = ((rs, b'), h') \<Longrightarrow> bus_inv drivers b'"
proof (induction es arbitrary: b h rs)
  case (Cons e es)
  obtain r b1 h1 where s: "run_state (bus_step drivers node e b) h = ((r, b1), h1)" by (metis prod.exhaust)
  obtain rs2 b2 h2 where t: "run_state (bus_run drivers node es b1) h1 = ((rs2, b2), h2)" by (metis prod.exhaust)
  have "b2 = b'" "h2 = h'" using Cons.prems(2) s t by simp_all
  with Cons.IH[OF bus_step_inv[OF Cons.prems(1) s]] t show ?case by simp
qed simp

section \<open>Drivers that meet the life-cycle contract\<close>

text \<open>
  On the log of kernel calls: when every driver of the list meets \<open>module_lifecycle\<close>, what is
  held at any time is what the bound driver holds. \<open>lifecycle_drivers\<close> pairs the drivers with
  what they hold.
\<close>

definition holds_of :: "res list list \<Rightarrow> bus \<Rightarrow> res list" where
  "holds_of held b = (case bus_bound b of None \<Rightarrow> [] | Some i \<Rightarrow> held ! i)"

fun event_ok :: "('e \<Rightarrow> bool) \<Rightarrow> 'e bus_event \<Rightarrow> bool" where
  "event_ok P (Insmod i env) = P env"
| "event_ok P (Rmmod i env) = P env"
| "event_ok P e = True"

locale lifecycle_drivers =
  fixes drivers :: "(kenv, klog) driver list" and held :: "res list list"
  assumes each: "list_all2 (\<lambda>d h. module_lifecycle (drv_probe d) (drv_remove d) h \<and> drv_pm d = None)
    drivers held"
begin

lemma driver_at: "i < length drivers \<Longrightarrow>
  module_lifecycle (drv_probe (drivers ! i)) (drv_remove (drivers ! i)) (held ! i)"
  using each by (simp add: list_all2_conv_all_nth)

lemma no_pm: "bus_inv drivers b \<Longrightarrow> bound_pm drivers b = None"
  using each by (auto simp: bound_pm_def bus_inv_def list_all2_conv_all_nth split: option.splits)

lemma step_holds:
  assumes "bus_inv drivers b" and "event_ok kenv_ok e" and "replay [] h = Some (holds_of held b)"
    and "run_state (bus_step drivers node e b) h = ((r, b'), h')"
  shows "replay [] h' = Some (holds_of held b')"
proof (cases e)
  case (Insmod i env)
  show ?thesis
  proof (cases "i < length drivers \<and> i \<notin> set (bus_mods b) \<and> bus_bound b = None \<and>
      drv_name (drivers ! i) \<notin> (\<lambda>j. drv_name (drivers ! j)) ` set (bus_mods b) \<and>
      of_match_device (of_match_table (drivers ! i)) node")
    case True
    then have "replay [] h = Some []" using assms(3) by (simp add: holds_of_def)
    moreover obtain x h1 where "run_state (drv_probe (drivers ! i) env) h = (x, h1)" by (rule prod.exhaust)
    ultimately have "(x = 0 \<and> replay [] h1 = Some (held ! i)) \<or> (x < 0 \<and> replay [] h1 = Some [])"
      using module_lifecycle.load_ok[OF driver_at, of i env h x h1] True assms(2) Insmod by simp
    with True Insmod assms(4) \<open>run_state (drv_probe (drivers ! i) env) h = (x, h1)\<close>
    show ?thesis by (auto simp: holds_of_def)
  next
    case False
    with Insmod assms(3,4) show ?thesis by (auto simp: holds_of_def split: if_splits)
  qed
next
  case (Rmmod i env)
  show ?thesis
  proof (cases "i \<in> set (bus_mods b) \<and> bus_bound b = Some i")
    case True
    then have "i < length drivers" using assms(1) by (simp add: bus_inv_def)
    moreover obtain u h1 where "run_state (drv_remove (drivers ! i) env) h = (u, h1)" by (rule prod.exhaust)
    ultimately have "replay [] h1 = Some []"
      using module_lifecycle.unload_ok[OF driver_at, of i h env u h1] True assms(3) by (simp add: holds_of_def)
    with True Rmmod assms(4) \<open>run_state (drv_remove (drivers ! i) env) h = (u, h1)\<close>
    show ?thesis by (auto simp: holds_of_def)
  next
    case False
    with Rmmod assms(3,4) show ?thesis by (auto simp: holds_of_def split: if_splits)
  qed
qed (use no_pm[OF assms(1)] assms(3,4) in auto)

lemma run_holds:
  "bus_inv drivers b \<Longrightarrow> \<forall>e \<in> set es. event_ok kenv_ok e \<Longrightarrow> replay [] h = Some (holds_of held b) \<Longrightarrow>
   run_state (bus_run drivers node es b) h = ((rs, b'), h') \<Longrightarrow> replay [] h' = Some (holds_of held b')"
proof (induction es arbitrary: b h rs)
  case (Cons e es)
  obtain r b1 h1 where s: "run_state (bus_step drivers node e b) h = ((r, b1), h1)" by (metis prod.exhaust)
  obtain rs2 b2 h2 where t: "run_state (bus_run drivers node es b1) h1 = ((rs2, b2), h2)" by (metis prod.exhaust)
  have "b2 = b'" "h2 = h'" using Cons.prems(4) s t by simp_all
  with Cons.IH[OF bus_step_inv[OF Cons.prems(1) s] _ step_holds[OF Cons.prems(1) _ Cons.prems(3) s]]
    Cons.prems(2) t show ?case by simp
qed simp

end

section \<open>The drivers of the button node\<close>

definition my_match_dt :: "string list" where
  "my_match_dt = [''siraj,my-button'']"

definition my_driver_dt :: "(kenv, klog) driver" where
  "my_driver_dt = \<lparr>drv_probe = \<lambda>env. do { r \<leftarrow> my_probe_dt env; kret (fst r) }, drv_remove = my_remove_dt,
     drv_pm = None, drv_name = ''my_button'', of_match_table = my_match_dt\<rparr>"

definition my_match_tirq :: "string list" where
  "my_match_tirq = [''siraj,my-button'']"

definition my_driver_tirq :: "(kenv, klog) driver" where
  "my_driver_tirq = \<lparr>drv_probe = \<lambda>env. do { r \<leftarrow> my_probe_tirq env; kret (fst r) }, drv_remove = my_remove_tirq,
     drv_pm = None, drv_name = ''my_button'', of_match_table = my_match_tirq\<rparr>"

definition my_match_wirq :: "string list" where
  "my_match_wirq = [''siraj,my-button'']"

definition my_driver_wirq :: "(kenv, klog) driver" where
  "my_driver_wirq = \<lparr>drv_probe = \<lambda>env. do { r \<leftarrow> my_probe_wirq env; kret (fst r) }, drv_remove = my_remove_wirq,
     drv_pm = None, drv_name = ''my_button'', of_match_table = my_match_wirq\<rparr>"

definition my_match_kirq :: "string list" where
  "my_match_kirq = [''siraj,my-button'']"

text \<open>A thread \<open>remove\<close> finds in a bound device is not \<open>NULL\<close>; likewise for 20 and 21 below.\<close>

definition my_driver_kirq :: "(kenv, klog) driver" where
  "my_driver_kirq = \<lparr>drv_probe = \<lambda>env. do { r \<leftarrow> my_probe_kirq env; kret (fst r) }, drv_remove = my_remove_kirq 1,
     drv_pm = None, drv_name = ''button'', of_match_table = my_match_kirq\<rparr>"

definition my_match_dma19 :: "string list" where
  "my_match_dma19 = [''siraj,my-button'']"

definition my_driver_dma19 :: "(kenv, klog) driver" where
  "my_driver_dma19 = \<lparr>drv_probe = my_probe_dma19, drv_remove = my_remove_dma19,
     drv_pm = None, drv_name = ''dma_demo'', of_match_table = my_match_dma19\<rparr>"

definition my_ids_coh :: "string list" where
  "my_ids_coh = [''siraj,my-button'']"

definition my_driver_coh :: "(kenv, klog) driver" where
  "my_driver_coh = \<lparr>drv_probe = my_probe_coh, drv_remove = my_remove_coh 1,
     drv_pm = None, drv_name = ''dma_char'', of_match_table = my_ids_coh\<rparr>"

definition my_match_str :: "string list" where
  "my_match_str = [''siraj,my-button'']"

definition my_driver_str :: "(kenv, klog) driver" where
  "my_driver_str = \<lparr>drv_probe = \<lambda>env. do { r \<leftarrow> my_probe_str env; kret (fst r) }, drv_remove = my_remove_str 1,
     drv_pm = None, drv_name = ''stream_dma'', of_match_table = my_match_str\<rparr>"

definition button_drivers :: "(kenv, klog) driver list" where
  "button_drivers = [my_driver_dt, my_driver_tirq, my_driver_wirq, my_driver_kirq, my_driver_dma19,
     my_driver_coh, my_driver_str]"

definition button_held :: "res list list" where
  "button_held = [[], [], [], [Thread ''button_thread''], [DmaBuf],
     [Device 0, Class, Cdev 0, Region, DmaBuf], [Mem ''buffer'']]"

lemmas driver_defs = my_driver_dt_def my_driver_tirq_def my_driver_wirq_def my_driver_kirq_def
  my_driver_dma19_def my_driver_coh_def my_driver_str_def

interpretation button: lifecycle_drivers button_drivers button_held
  by unfold_locales
    (simp add: button_drivers_def button_held_def driver_defs dt.module_lifecycle_axioms
      tirq.module_lifecycle_axioms wirq.module_lifecycle_axioms kirq.module_lifecycle_axioms
      dma19.module_lifecycle_axioms coh.module_lifecycle_axioms str.module_lifecycle_axioms)

section \<open>The drivers of the MPU9250 node\<close>

text \<open>
  What a probe finds: memory, the pointer of \<open>devm_regmap_init_i2c\<close>, the interrupt of the
  client and the result of requesting it.
\<close>

type_synonym mpu_env = "bool \<times> int \<times> int \<times> int"

definition mpu9250_remove_a :: "('s, unit) rprog" where
  "mpu9250_remove_a = info ''Remove Successful'' 0"

definition mpu9250_of_match_a :: "string list" where
  "mpu9250_of_match_a = [''siraj,mpu9250'']"

definition mpu9250_driver_a :: "'s regmap_api \<Rightarrow> (mpu_env, 's drv) driver" where
  "mpu9250_driver_a A = \<lparr>drv_probe = \<lambda>(room, rm, _). mpu9250_probe_a room rm A,
     drv_remove = \<lambda>_. mpu9250_remove_a, drv_pm = None,
     drv_name = ''siraj_mpu9250'', of_match_table = mpu9250_of_match_a\<rparr>"

definition mpu9250_remove_b :: "('s, unit) rprog" where
  "mpu9250_remove_b = info ''Remove Successful'' 0"

definition mpu9250_of_match_b :: "string list" where
  "mpu9250_of_match_b = [''siraj,mpu9250'']"

definition mpu9250_driver_b :: "'s regmap_api \<Rightarrow> (mpu_env, 's drv) driver" where
  "mpu9250_driver_b A = \<lparr>drv_probe = \<lambda>(room, rm, _). mpu9250_probe_b room rm A,
     drv_remove = \<lambda>_. mpu9250_remove_b, drv_pm = None,
     drv_name = ''siraj_mpu9250'', of_match_table = mpu9250_of_match_b\<rparr>"

definition mpu9250_remove_c :: "('s, unit) rprog" where
  "mpu9250_remove_c = info ''Remove Successful'' 0"

definition mpu9250_of_match_c :: "string list" where
  "mpu9250_of_match_c = [''siraj,mpu9250'']"

definition mpu9250_driver_c :: "'s regmap_api \<Rightarrow> (mpu_env, 's drv) driver" where
  "mpu9250_driver_c A = \<lparr>drv_probe = \<lambda>(room, rm, _). mpu9250_probe_c room rm A,
     drv_remove = \<lambda>_. mpu9250_remove_c, drv_pm = None,
     drv_name = ''siraj_mpu9250'', of_match_table = mpu9250_of_match_c\<rparr>"

definition mpu9250_remove_d :: "('s, unit) rprog" where
  "mpu9250_remove_d = info ''Remove Successful'' 0"

definition mpu9250_of_match_d :: "string list" where
  "mpu9250_of_match_d = [''siraj,mpu9250'']"

definition mpu9250_driver_d :: "'s regmap_api \<Rightarrow> (mpu_env, 's drv) driver" where
  "mpu9250_driver_d A = \<lparr>drv_probe = \<lambda>(room, rm, _). mpu9250_probe_d room rm A,
     drv_remove = \<lambda>_. mpu9250_remove_d, drv_pm = None,
     drv_name = ''siraj_mpu9250'', of_match_table = mpu9250_of_match_d\<rparr>"

definition mpu9250_remove_e :: "('s, unit) rprog" where
  "mpu9250_remove_e = info ''Remove Successful'' 0"

definition mpu9250_of_match_e :: "string list" where
  "mpu9250_of_match_e = [''siraj,mpu9250'']"

definition mpu9250_driver_e :: "'s regmap_api \<Rightarrow> (mpu_env, 's drv) driver" where
  "mpu9250_driver_e A = \<lparr>drv_probe = \<lambda>(room, rm, _). mpu9250_probe_e room rm A,
     drv_remove = \<lambda>_. mpu9250_remove_e, drv_pm = None,
     drv_name = ''siraj_mpu9250'', of_match_table = mpu9250_of_match_e\<rparr>"

definition mpu9250_remove_f :: "('s, unit) rprog" where
  "mpu9250_remove_f = info ''Remove Successful'' 0"

definition mpu9250_of_match_f :: "string list" where
  "mpu9250_of_match_f = [''siraj,mpu9250'']"

definition mpu9250_driver_f :: "'s regmap_api \<Rightarrow> (mpu_env, 's drv) driver" where
  "mpu9250_driver_f A = \<lparr>drv_probe = \<lambda>(room, rm, irq, req). mpu9250_probe_f room rm irq req A,
     drv_remove = \<lambda>_. mpu9250_remove_f, drv_pm = None,
     drv_name = ''siraj_mpu9250'', of_match_table = mpu9250_of_match_f\<rparr>"

definition mpu9250_remove_g :: "('s, unit) rprog" where
  "mpu9250_remove_g = info ''Remove Successful'' 0"

definition mpu9250_of_match_g :: "string list" where
  "mpu9250_of_match_g = [''siraj,mpu9250'']"

text \<open>The callbacks of 26g work on the regmap of the device and print nothing.\<close>

definition mpu_pm_ops :: "'s regmap_api \<Rightarrow> ('s, int) rprog \<times> ('s, int) rprog" where
  "mpu_pm_ops A = (call (mpu_suspend A), call (mpu_resume A))"

definition mpu9250_driver_g :: "'s regmap_api \<Rightarrow> (mpu_env, 's drv) driver" where
  "mpu9250_driver_g A = \<lparr>drv_probe = \<lambda>(room, rm, _). mpu9250_probe_g room rm A,
     drv_remove = \<lambda>_. mpu9250_remove_g, drv_pm = Some (mpu_pm_ops A),
     drv_name = ''siraj_mpu9250'', of_match_table = mpu9250_of_match_g\<rparr>"

definition mpu_drivers :: "'s regmap_api \<Rightarrow> (mpu_env, 's drv) driver list" where
  "mpu_drivers A = [mpu9250_driver_a A, mpu9250_driver_b A, mpu9250_driver_c A, mpu9250_driver_d A,
     mpu9250_driver_e A, mpu9250_driver_f A, mpu9250_driver_g A]"

lemmas mpu_driver_defs = mpu9250_driver_a_def mpu9250_driver_b_def mpu9250_driver_c_def mpu9250_driver_d_def
  mpu9250_driver_e_def mpu9250_driver_f_def mpu9250_driver_g_def

lemma mpu_drivers_name: "i < length (mpu_drivers A) \<Longrightarrow> drv_name (mpu_drivers A ! i) = ''siraj_mpu9250''"
  by (auto simp: mpu_drivers_def mpu_driver_defs less_Suc_eq)

lemma distinct_all_equal: "distinct xs \<Longrightarrow> \<forall>x \<in> set xs. x = a \<Longrightarrow> length xs \<le> 1"
  by (cases xs rule: list.exhaust[case_product list.exhaust[of "tl xs"]]) auto

section \<open>Properties\<close>

text \<open>C6. The platform drivers 15 to 21 share the button node: through any sequence of loads
  and unloads of these seven modules, with any kernels that keep the documented return
  conventions, no kernel object is misused and what is held at any time is exactly what the
  one driver bound to the node holds, nothing when none is bound; two modules of the same
  driver name (15, 16 and 17) are never loaded together.\<close>

theorem button_board_balanced:
  assumes "\<forall>e \<in> set es. event_ok kenv_ok e"
    and "run_state (bus_run button_drivers node es bus_start) [] = ((rs, b), h)"
  shows "replay [] h = Some (holds_of button_held b) \<and> distinct (bus_names button_drivers b) \<and>
    (\<forall>i. bus_bound b = Some i \<longrightarrow> i \<in> set (bus_mods b))"
proof -
  have "holds_of button_held bus_start = []" by (simp add: holds_of_def bus_start_def)
  then show ?thesis
    using button.run_holds[OF bus_inv_start assms(1) _ assms(2)] bus_run_inv[OF bus_inv_start assms(2)]
    by (auto simp: bus_inv_def split: option.splits)
qed

text \<open>
  15 is bound, 16 is refused, 20 is loaded but not bound, not even when 15 goes; it is when it
  is loaded again.
\<close>

definition button_demo :: "kenv bus_event list" where
  "button_demo = [Insmod 0 kenv_good, Insmod 1 kenv_good, Insmod 5 kenv_good, Rmmod 0 kenv_good,
     Rmmod 5 kenv_good, Insmod 5 kenv_good]"

theorem button_board_balanced_witness:
  "fst (fst (run_state (bus_run button_drivers [''siraj,my-button''] button_demo bus_start) [])) =
     [0, - EBUSY, 0, 0, 0, 0] \<and>
   replay [] (snd (run_state (bus_run button_drivers [''siraj,my-button''] button_demo bus_start) [])) =
     Some [Device 0, Class, Cdev 0, Region, DmaBuf]"
proof -
  let ?run = "run_state (bus_run button_drivers [''siraj,my-button''] button_demo bus_start) []"
  have rs: "fst (fst ?run) = [0, - EBUSY, 0, 0, 0, 0]" and b: "bus_bound (snd (fst ?run)) = Some 5" by code_simp+
  obtain rs' b' h' where r: "?run = ((rs', b'), h')" by (metis prod.exhaust)
  have "replay [] h' = Some (holds_of button_held b')"
    using button_board_balanced[OF _ r] by (simp add: button_demo_def kenv_good_ok)
  with rs b r show ?thesis by (simp add: holds_of_def button_held_def)
qed

text \<open>The drivers 26a to 26g share one name: through any sequence of loads and unloads at
  most one of the seven is loaded, and while one is, a load of another returns \<open>-EBUSY\<close>
  without touching the chip or printing anything.\<close>

theorem mpu_board_exclusive:
  assumes "run_state (bus_run (mpu_drivers A) node es bus_start) c = ((rs, b), c')"
  shows "length (bus_mods b) \<le> 1 \<and>
    (\<forall>i env. i < 7 \<longrightarrow> i \<notin> set (bus_mods b) \<longrightarrow> bus_mods b \<noteq> [] \<longrightarrow>
       run_state (bus_step (mpu_drivers A) node (Insmod i env) b) c' = ((- EBUSY, b), c'))"
proof -
  have inv: "bus_inv (mpu_drivers A) b" using bus_run_inv[OF bus_inv_start assms] .
  then have names: "drv_name (mpu_drivers A ! j) = ''siraj_mpu9250''" if "j \<in> set (bus_mods b)" for j
    using that mpu_drivers_name by (auto simp: bus_inv_def)
  then have "length (bus_names (mpu_drivers A) b) \<le> 1"
    using inv distinct_all_equal[of "bus_names (mpu_drivers A) b" "''siraj_mpu9250''"]
    by (auto simp: bus_inv_def bus_names_def)
  moreover have "run_state (bus_step (mpu_drivers A) node (Insmod i env) b) c' = ((- EBUSY, b), c')"
    if a: "i < 7" "i \<notin> set (bus_mods b)" "bus_mods b \<noteq> []" for i env
  proof -
    have l: "length (mpu_drivers A) = 7" by (simp add: mpu_drivers_def)
    obtain j where "j \<in> set (bus_mods b)" using a(3) by (cases "bus_mods b") auto
    then have "drv_name (mpu_drivers A ! i) \<in> (\<lambda>j. drv_name (mpu_drivers A ! j)) ` set (bus_mods b)"
      using names mpu_drivers_name[of i A] a(1) l by force
    with a(1,2) l show ?thesis by simp
  qed
  ultimately show ?thesis by (simp add: bus_names_def)
qed

theorem mpu_board_exclusive_witness:
  "\<exists>b c. run_state (bus_run (mpu_drivers regmap_array) [''siraj,mpu9250'']
       [Insmod 0 (True, 1, 0, 0)] bus_start) (\<lambda>r. 113, []) = (([0], b), c) \<and>
     run_state (bus_step (mpu_drivers regmap_array) [''siraj,mpu9250''] (Insmod 1 (True, 1, 0, 0)) b) c =
       ((- EBUSY, b), c)"
proof -
  let ?run = "run_state (bus_run (mpu_drivers regmap_array) [''siraj,mpu9250'']
       [Insmod 0 (True, 1, 0, 0)] bus_start) (\<lambda>r. 113, [])"
  have rs: "fst (fst ?run) = [0]" and b: "bus_mods (snd (fst ?run)) = [0]" by code_simp+
  obtain rs' b' c' where r: "?run = ((rs', b'), c')" by (metis prod.exhaust)
  with mpu_board_exclusive[OF r] rs b show ?thesis by auto
qed





end
