(* ===== verification/Spec2Isabelle.thy ===== *)
theory Spec2Isabelle
  imports FirstModules CharBasic CharDevices WaitQueue Deferred GpioIrq ButtonRead DmaDrivers DmaConcurrent
    DataDrivers ListConcurrent SysfsFiles Netlink Multicast Regmap SocketPrograms Ring Modules
    ModuleLinks Vfs DeviceFiles DriverBus
begin

text \<open>
  A verification library for the kernel modules of the STM32MP257F-DK board under
  \<open>src/KERNELSPACE\<close>: some forty small drivers and modules in numbered directories, most with a
  user program, each showing one kernel facility. A module has an \<open>init\<close> (or \<open>probe\<close>) that
  acquires kernel objects and an \<open>exit\<close> (or \<open>remove\<close>) that gives them back; in between it
  serves file operations, interrupts, messages or other modules. Names of definitions are
  those of the C functions with a suffix for the driver (\<open>my_read_wq7\<close> is \<open>my_read\<close> of
  directory 7).

  How the code is modelled.
  \<^item> Memory: an array is a \<open>byte list\<close> and an access outside it is the result \<open>None\<close>; every
    error the code handles is the value it returns, a negative errno. Integers that may wrap
    are words (\<open>jiffies\<close>, counters, ids, registers); sizes and results are \<open>nat\<close> and \<open>int\<close>.
  \<^item> The kernel: init and exit paths are programs in the state monad over the log of the
    kernel calls made (\<open>Kapi\<close>); what a call returns is an arbitrary environment \<open>kenv\<close>,
    restricted by the documented return conventions (\<open>kenv_ok\<close>). \<open>replay\<close> runs a log against
    the resources held and fails on a use or release of an object that is not there.
  \<^item> Other code outside the repository is an argument with its documented behaviour as a
    named hypothesis: user access (\<open>uapi_ok\<close>), the DMA engine (\<open>dma_engine_ok\<close>), notifier
    chains (\<open>chain_api_ok\<close>), regmap without and with a cache (\<open>regmap_ok\<close>, \<open>regcache_ok\<close>).
    A concrete instance of each is given and meets its hypothesis.
  \<^item> Device files: a driver's \<open>file_operations\<close> is a record of methods, and user processes are
    sequences of system calls (\<open>sys_call\<close>) on a table of open files with their positions and
    \<open>private_data\<close>. What the system calls check before they call a method, and the count of
    open files that keeps a module loaded, is in \<open>Vfs\<close>. The driver core in \<open>DriverBus\<close> binds
    driver structs to a device node in the same way.
  \<^item> Concurrency: the steps of threads, interrupts and \<open>exit\<close> are inductive relations or
    step functions run over an arbitrary schedule.

  The theories, in the order of the components they build on.
  \<^item> \<open>FirstModules\<close>: 1 and 2, what they print.
  \<^item> \<open>Prelude\<close>: bytes, C strings, user access, invariants of step relations.
  \<^item> \<open>Kapi\<close>: kernel calls, resources, \<open>replay\<close>; the contracts \<open>lifecycle_on\<close> and
    \<open>module_lifecycle\<close> of an init/exit pair and what follows for repeated loading.
  \<^item> \<open>CharIface\<close>: buffers that stay terminated; the contracts \<open>offset_reader\<close> and
    \<open>text_device\<close> of a \<open>read\<close> method and what reading to the end delivers.
  \<^item> \<open>CStdio\<close>: \<open>%d\<close> and \<open>%s\<close> printing and scanning, with the round trips.
  \<^item> \<open>CharBasic\<close>: 3 and 4, devices with a static buffer. \<open>CharDevices\<close>: 5, a struct per minor
    found by \<open>container_of\<close> on addresses, and 6, ioctl with its user program.
  \<^item> \<open>WaitQueue\<close>: 7 to 10, a one-message mailbox with waiting and polling. The contract
    \<open>mailbox\<close> is met by all four; driver 7 is also modelled step by step.
  \<^item> \<open>Deferred\<close>: 11 to 13, kernel threads, work queues and timers. \<open>GpioIrq\<close>: 14 to 18,
    interrupt handlers, debouncing, deferred work and threads woken by interrupts;
    \<open>ButtonRead\<close>: the readers of 14 against its interrupt.
  \<^item> \<open>DmaDrivers\<close>: 19 to 21b, coherent and streaming buffers, memory-to-memory transfers.
    \<open>DmaConcurrent\<close>: \<open>dev_write\<close> of 21a step by step, with several processes and the
    DMA controller at work at once. \<open>SocketPrograms\<close>: the TCP sender and receiver beside 21.
  \<^item> \<open>DataDrivers\<close>: 22 (mmap), 23 (linked list with its menu program), 24 (sysfs).
    \<open>ListConcurrent\<close>: 23 step by step with several processes, against its sequential calls.
    \<open>SysfsFiles\<close>: the attribute tables of 24 and of \<open>char_cdev-3\<close> and accesses to them.
  \<^item> \<open>Netlink\<close>: 25 to 25c with their clients; \<open>Multicast\<close>: 25c, its tables and its listeners
    as one system. \<open>Regmap\<close>: 26a to 26g.
  \<^item> \<open>Ring\<close>: 27c and 27d, against the contracts \<open>bounded_fifo\<close> and \<open>checked_fifo\<close>.
    \<open>Modules\<close>: 27a, 27b and 27e to 27g, against \<open>callback_registry\<close>. \<open>ModuleLinks\<close>: 27a
    to 27c and 27e to 27g under the loader that resolves their exported symbols, with the
    contract \<open>module_family\<close>.
  \<^item> \<open>Vfs\<close>: system calls over any table of methods, the contract \<open>file_driver\<close> from which type
    safety of every sequence of calls follows, and \<open>memo_driver\<close>, from which it follows that
    the calls return what they return on the reference machine \<open>memo_step\<close>.
    \<open>DeviceFiles\<close>: the tables of 3 to 10, 14, 20, 21a, 22 and 23 with \<open>open\<close> and \<open>release\<close>,
    which of them meet which contract, and calls that break it for the others.
  \<^item> \<open>DriverBus\<close>: driver structs and match tables of 15 to 21 and 26a to 26g, and the driver
    core that probes, removes, suspends and resumes them.

  What is shown. Life cycles: the drivers of \<open>careful_drivers\<close> and \<open>careless_drivers\<close> below
  meet a life-cycle contract, from which the two properties of this theory follow; the
  platform drivers keep it also when they compete for one device node, and modules that
  export to each other when they are loaded and unloaded in any order; the \<open>init\<close> of
  \<open>char_cdev-3\<close> is shown all-or-nothing; 11 is shown to break the contract. Data paths: what
  is written is what is read, for every buffer size, and no access leaves a buffer where the
  code takes care of that; where it does not, the overrun is proved. Device files: results
  and memory of any sequence of system calls on any number of open files, and equality with
  an array of texts; attributes saved and restored through sysfs. Concurrency: invariants
  over all schedules, linearizability of the list driver 23, refinement of the sequential
  call by an undisturbed run, bounds on the steps to the end of \<open>exit\<close>, and the schedules
  that go wrong. Programs and drivers together: the menu program over the list driver,
  netlink clients over their modules, any number of listeners of 25c, poll, ioctl and mmap
  programs over their devices, sender and receiver over a stream.

  Bounds and fuel. \<open>cat_loop\<close> and \<open>menu_turns\<close> take a number of turns: the first is always given
  one more than the length of the text, which is enough since a read delivers at least one
  byte; the second is a number of turns of a loop that need not end, and what is proved of it
  holds for every number. Loops that may not return are \<open>partial_function\<close>s and that they
  return is part of what is proved. \<open>debounce_refines_spec\<close> assumes interrupts less than
  \<open>2 ^ 62\<close> ticks after the last accepted one, half of what \<open>time_after\<close> can tell apart.

  Not modelled: the access mode of \<open>open\<close>; system calls that overlap, except in 7, 14, 21a,
  23, 25a and 27d where they are steps; deferred probing, and devices that come and go; texts
  logged by \<open>printk\<close> where nothing else depends on them; delays; memory ordering below the
  interleaving of whole statements.
\<close>

section \<open>The drivers together\<close>


text \<open>The drivers that go on after some calls whatever those returned, with these calls.\<close>

definition careless_drivers ::
    "nat \<Rightarrow> int \<Rightarrow> ((kenv \<Rightarrow> int kprog) \<times> (kenv \<Rightarrow> unit kprog) \<times> kop list) list" where
  "careless_drivers gpio irq =
     [(\<lambda>env. do { rd \<leftarrow> my_init_cont env devices_zero; kret (fst rd) }, my_exit_cont, ignored_cont),
      (my_init_ioctl, my_exit_ioctl, [Dev (Device_create 0 ''mychar0'')]),
      (my_init_wq7, my_exit_wq7, ignored_wq ''mychar0''), (my_init_wq8, my_exit_wq8, ignored_wq ''mychar0''),
      (my_init_wq9, my_exit_wq9, ignored_wq ''mychar''),
      (my_init_wq10, my_exit_wq10, [Dev (Device_create 0 ''mychar'')]),
      (\<lambda>env. do { ri \<leftarrow> gpio_init_btn gpio env; kret (fst ri) }, gpio_exit_btn gpio irq,
       [Chr (Register_chrdev 240 ''gpio_irq_drv'')])]"


lemmas careless_clean = cont.cycles_clean ioctl.cycles_clean wq7.cycles_clean wq8.cycles_clean
  wq9.cycles_clean wq10.cycles_clean btn.cycles_clean



text \<open>C40. The drivers that ignore results behave as well as long as the ignored calls succeed; when
  the device node cannot be created, the drivers 6 and 10 nevertheless report that they
  loaded, without the node.\<close>

theorem careless_drivers_conditionally_balanced:
  assumes "(ld, ul, ignored) \<in> set (careless_drivers gpio irq)"
    and "\<forall>env \<in> set envs. kenv_ok env \<and> unchecked_ok ignored env" and "e < 0"
  shows "replay [] (snd (run_state (load_cycles ld ul envs) [])) = Some [] \<and>
    (\<exists>h H. run_state (my_init_ioctl (kenv_fail (Dev (Device_create 0 ''mychar0'')) e)) [] = (0, h) \<and>
       replay [] h = Some H \<and> Device 0 \<notin> set H) \<and>
    (\<exists>h H. run_state (my_init_wq10 (kenv_fail (Dev (Device_create 0 ''mychar'')) e)) [] = (0, h) \<and>
       replay [] h = Some H \<and> Device 0 \<notin> set H)"
proof (intro conjI)
  have empty: "replay [] [] = Some []" by simp
  from assms(1,2) show "replay [] (snd (run_state (load_cycles ld ul envs) [])) = Some []"
    unfolding careless_drivers_def list.set insert_iff prod.inject empty_iff
    by - (elim disjE conjE; (erule FalseE | (hypsubst, rule careless_clean[OF _ empty], blast)))
  show "\<exists>h H. run_state (my_init_ioctl (kenv_fail (Dev (Device_create 0 ''mychar0'')) e)) [] = (0, h) \<and>
       replay [] h = Some H \<and> Device 0 \<notin> set H"
    using assms(3) by (simp add: my_init_ioctl_def kenv_fail_def kenv_good_def)
  show "\<exists>h H. run_state (my_init_wq10 (kenv_fail (Dev (Device_create 0 ''mychar'')) e)) [] = (0, h) \<and>
       replay [] h = Some H \<and> Device 0 \<notin> set H"
    using assms(3) by (simp add: my_init_wq10_def kenv_fail_def kenv_good_def)
qed

theorem careless_drivers_conditionally_balanced_witness:
  "replay [] (snd (run_state (load_cycles my_init_wq10 my_exit_wq10 [kenv_good, kenv_good]) [])) = Some []"
proof -
  have "(my_init_wq10, my_exit_wq10, [Dev (Device_create 0 ''mychar'')]) \<in> set (careless_drivers 0 0)"
    by (simp add: careless_drivers_def)
  moreover have "\<forall>env \<in> set [kenv_good, kenv_good]. kenv_ok env \<and> unchecked_ok [Dev (Device_create 0 ''mychar'')] env"
    using kenv_good_ok by (simp add: kenv_good_def)
  moreover have "- 12 < (0 :: int)" by simp
  ultimately show ?thesis by (rule careless_drivers_conditionally_balanced[THEN conjunct1])
qed

end
